(* ===== verification/Prelude.thy ===== *)
theory Prelude
  imports Complex_Main
begin

text \<open>
  The JavaScript the three source files rely on, as HOL definitions shared by every
  component theory: JavaScript truthiness of the loosely typed values, the decimal
  rendering of a non-negative integer (\<open>Number.prototype.toString\<close>),
  \<open>String.prototype.padStart\<close>, \<open>parseInt\<close>, and the browser's timer table
  (\<open>setInterval\<close>, \<open>setTimeout\<close>, \<open>clearInterval\<close>/\<open>clearTimeout\<close> and the firing
  of the earliest due timer). These are the semantics of the language and of the
  browser, not code of the repository; the component theories model the repository's
  code on top of them.
\<close>

named_theorems js_simps "evaluation rules of the JavaScript built-ins of the model"
named_theorems sched_simps "effect of the timer-table operations on the timer table"
named_theorems frame_simps "fields a component's operation leaves unchanged"

section \<open>JavaScript values and truthiness\<close>

text \<open>
  Values of the fields whose type the code does not fix (\<open>reps\<close>, \<open>setGroup\<close>).
  Numbers are rationals: NaN and the infinities never occur in the workout data.
\<close>

datatype jsval = JUndefined | JNull | JBool bool | JNum rat | JStr string

fun truthy :: "jsval \<Rightarrow> bool" where
  "truthy JUndefined = False"
| "truthy JNull = False"
| "truthy (JBool b) = b"
| "truthy (JNum r) = (r \<noteq> 0)"
| "truthy (JStr s) = (s \<noteq> [])"

text \<open>Truthiness of an optional number or string read from an object field.\<close>

definition truthy_num :: "'a::zero option \<Rightarrow> bool" where
  "truthy_num v = (case v of None \<Rightarrow> False | Some x \<Rightarrow> x \<noteq> 0)"

definition truthy_str :: "string option \<Rightarrow> bool" where
  "truthy_str v = (case v of None \<Rightarrow> False | Some s \<Rightarrow> s \<noteq> [])"

text \<open>\<open>xs[i]\<close> of a JavaScript array: \<open>undefined\<close> (here \<open>None\<close>) out of range.\<close>

definition js_index :: "'a list \<Rightarrow> nat \<Rightarrow> 'a option" where
  "js_index xs i = (if i < length xs then Some (xs ! i) else None)"

definition js_index_int :: "'a list \<Rightarrow> int \<Rightarrow> 'a option" where
  "js_index_int xs i = (if 0 \<le> i then js_index xs (nat i) else None)"

text \<open>\<open>xs.join(sep)\<close> on an array of strings.\<close>

fun js_join :: "string \<Rightarrow> string list \<Rightarrow> string" where
  "js_join sep [] = []"
| "js_join sep [x] = x"
| "js_join sep (x # xs) = x @ sep @ js_join sep xs"

section \<open>Decimal digits: \<open>toString\<close> and \<open>parseInt\<close>\<close>

fun nat_digits :: "nat \<Rightarrow> nat list" where
  "nat_digits n = (if n < 10 then [n] else nat_digits (n div 10) @ [n mod 10])"

declare nat_digits.simps [simp del]

definition digit_char :: "nat \<Rightarrow> char" where
  "digit_char d = char_of (48 + d)"

text \<open>\<open>String(n)\<close> and template interpolation \<open>${n}\<close> of a non-negative integer.\<close>

definition show_nat :: "nat \<Rightarrow> string" where
  "show_nat n = map digit_char (nat_digits n)"

text \<open>\<open>s.padStart(n, c)\<close> with a one-character pad string.\<close>

definition pad_start :: "nat \<Rightarrow> char \<Rightarrow> string \<Rightarrow> string" where
  "pad_start n c s = replicate (n - length s) c @ s"

definition is_digit :: "char \<Rightarrow> bool" where
  "is_digit c = (48 \<le> (of_char c :: nat) \<and> (of_char c :: nat) \<le> 57)"

definition digit_val :: "char \<Rightarrow> nat" where
  "digit_val c = of_char c - 48"

text \<open>The white space \<open>parseInt\<close> skips (the ASCII part of ECMAScript's set).\<close>

definition is_js_space :: "char \<Rightarrow> bool" where
  "is_js_space c = (c \<in> set [CHR '' '', CHR 0x09, CHR 0x0A, CHR 0x0B, CHR 0x0C, CHR 0x0D])"

fun read_digits :: "string \<Rightarrow> nat \<Rightarrow> nat" where
  "read_digits [] acc = acc"
| "read_digits (c # cs) acc = read_digits cs (10 * acc + digit_val c)"

text \<open>
  \<open>parseInt(s)\<close> in radix 10: skip white space, read an optional sign, then the
  longest prefix of digits; \<open>None\<close> is NaN (no digit).
\<close>

definition parse_int :: "string \<Rightarrow> int option" where
  "parse_int s =
     (let s1 = dropWhile is_js_space s;
          (neg, s2) = (case s1 of
                         c # r \<Rightarrow> if c = CHR ''-'' then (True, r)
                                  else if c = CHR ''+'' then (False, r) else (False, s1)
                       | [] \<Rightarrow> (False, []));
          ds = takeWhile is_digit s2
      in if ds = [] then None
         else Some ((if neg then -1 else 1) * int (read_digits ds 0)))"

section \<open>The browser's timer table\<close>

text \<open>
  One entry per active \<open>setInterval\<close>/\<open>setTimeout\<close>: its handle, the time (ms)
  it is next due, its period (\<open>Some p\<close> for an interval, \<open>None\<close> for a one-shot
  timeout) and the callback, a value of the component's own callback type. Handles
  come from one counter that starts at 1 (HTML's list of active timers), so a handle
  is always truthy. JavaScript runs one callback at a time to completion: a
  component's step is a user event or the firing of the earliest due entry.
\<close>

record 'cb tentry =
  t_handle :: nat
  t_due :: nat
  t_period :: "nat option"
  t_cb :: 'cb

record 'cb sched =
  s_now :: nat
  s_entries :: "'cb tentry list"
  s_next :: nat

definition sched_init :: "'cb sched" where
  "sched_init = \<lparr>s_now = 0, s_entries = [], s_next = 1\<rparr>"

definition add_timer :: "'cb \<Rightarrow> nat \<Rightarrow> nat option \<Rightarrow> 'cb sched \<Rightarrow> nat \<times> 'cb sched" where
  "add_timer cb d per s =
     (s_next s,
      s\<lparr>s_entries := s_entries s @
           [\<lparr>t_handle = s_next s, t_due = s_now s + d, t_period = per, t_cb = cb\<rparr>],
        s_next := Suc (s_next s)\<rparr>)"

text \<open>\<open>setInterval(cb, p)\<close> and \<open>setTimeout(cb, d)\<close> return the new handle.\<close>

definition set_interval :: "'cb \<Rightarrow> nat \<Rightarrow> 'cb sched \<Rightarrow> nat \<times> 'cb sched" where
  "set_interval cb p = add_timer cb p (Some p)"

definition set_timeout :: "'cb \<Rightarrow> nat \<Rightarrow> 'cb sched \<Rightarrow> nat \<times> 'cb sched" where
  "set_timeout cb d = add_timer cb d None"

text \<open>\<open>clearInterval(h)\<close> and \<open>clearTimeout(h)\<close> (the same operation in HTML).\<close>

definition clear_timer :: "nat \<Rightarrow> 'cb sched \<Rightarrow> 'cb sched" where
  "clear_timer h s = s\<lparr>s_entries := filter (\<lambda>e. t_handle e \<noteq> h) (s_entries s)\<rparr>"

text \<open>The entry that fires next: least due time, the older handle first on a tie.\<close>

definition before :: "'cb tentry \<Rightarrow> 'cb tentry \<Rightarrow> bool" where
  "before e e' = (t_due e < t_due e' \<or> (t_due e = t_due e' \<and> t_handle e \<le> t_handle e'))"

fun earliest :: "'cb tentry list \<Rightarrow> 'cb tentry option" where
  "earliest [] = None"
| "earliest (e # es) =
     (case earliest es of None \<Rightarrow> Some e | Some e' \<Rightarrow> if before e e' then Some e else Some e')"

text \<open>
  Firing: the clock moves to the entry's due time; an interval is rescheduled one
  period later before its callback runs, a timeout is removed. A callback that clears
  its own interval therefore removes the rescheduled entry, as in HTML, where the
  timer is re-armed only if it is still in the list of active timers.
\<close>

definition resched :: "nat \<Rightarrow> nat \<Rightarrow> 'cb tentry list \<Rightarrow> 'cb tentry list" where
  "resched h d = map (\<lambda>x. if t_handle x = h then x\<lparr>t_due := d\<rparr> else x)"

definition fire :: "'cb sched \<Rightarrow> ('cb \<times> 'cb sched) option" where
  "fire s =
     (case earliest (s_entries s) of
        None \<Rightarrow> None
      | Some e \<Rightarrow>
          Some (t_cb e,
                s\<lparr>s_now := t_due e,
                  s_entries := (case t_period e of
                      None \<Rightarrow> filter (\<lambda>x. t_handle x \<noteq> t_handle e) (s_entries s)
                    | Some p \<Rightarrow> resched (t_handle e) (t_due e + p) (s_entries s))\<rparr>))"

text \<open>Time passing with no timer due in between (the user thinking between clicks).\<close>

definition can_wait :: "nat \<Rightarrow> 'cb sched \<Rightarrow> bool" where
  "can_wait d s = (\<forall>e \<in> set (s_entries s). s_now s + d \<le> t_due e)"

definition wait :: "nat \<Rightarrow> 'cb sched \<Rightarrow> 'cb sched" where
  "wait d s = s\<lparr>s_now := s_now s + d\<rparr>"

text \<open>The handles of the active entries whose callback satisfies \<open>P\<close>.\<close>

definition handles_of :: "('cb \<Rightarrow> bool) \<Rightarrow> 'cb sched \<Rightarrow> nat list" where
  "handles_of P s = map t_handle (filter (\<lambda>e. P (t_cb e)) (s_entries s))"

text \<open>
  Well-formed timer table: handles are distinct, positive and below the counter, and
  no entry is overdue (the clock never passes an active timer).
\<close>

definition sched_wf :: "'cb sched \<Rightarrow> bool" where
  "sched_wf s =
     (0 < s_next s \<and> distinct (map t_handle (s_entries s)) \<and>
      (\<forall>e \<in> set (s_entries s). 0 < t_handle e \<and> t_handle e < s_next s \<and> s_now s \<le> t_due e))"

section \<open>Lemmas on the built-ins\<close>

lemma truthy_num_simps [simp, js_simps]:
  "truthy_num None = False" "truthy_num (Some x) = (x \<noteq> 0)"
  by (simp_all add: truthy_num_def)

lemma truthy_str_simps [simp, js_simps]:
  "truthy_str None = False" "truthy_str (Some s) = (s \<noteq> [])"
  by (simp_all add: truthy_str_def)

subsection \<open>Digits\<close>

lemma nat_digits_small [simp, js_simps]: "n < 10 \<Longrightarrow> nat_digits n = [n]"
  by (simp add: nat_digits.simps)

lemma nat_digits_big: "\<not> n < 10 \<Longrightarrow> nat_digits n = nat_digits (n div 10) @ [n mod 10]"
  by (simp add: nat_digits.simps)

lemma show_nat_small [simp, js_simps]: "n < 10 \<Longrightarrow> show_nat n = [digit_char n]"
  by (simp add: show_nat_def)

lemma show_nat_big:
  "\<not> n < 10 \<Longrightarrow> show_nat n = show_nat (n div 10) @ [digit_char (n mod 10)]"
  by (simp add: show_nat_def nat_digits_big)

lemma show_nat_not_Nil [simp]: "show_nat n \<noteq> []"
  by (simp add: show_nat_def nat_digits.simps)

lemma digit_val_char [simp]: "d < 10 \<Longrightarrow> digit_val (digit_char d) = d"
  by (simp add: digit_val_def digit_char_def of_char_of)

lemma is_digit_char [simp]: "d < 10 \<Longrightarrow> is_digit (digit_char d)"
  by (simp add: is_digit_def digit_char_def of_char_of)

lemma show_nat_digits: "c \<in> set (show_nat n) \<Longrightarrow> is_digit c"
proof (induction n rule: nat_digits.induct)
  case (1 n)
  then show ?case
    by (cases "n < 10") (auto simp: show_nat_big)
qed

lemma read_digits_append:
  "read_digits (xs @ ys) acc = read_digits ys (read_digits xs acc)"
  by (induction xs arbitrary: acc) simp_all

lemma read_show_nat [simp]: "read_digits (show_nat n) 0 = n"
proof (induction n rule: nat_digits.induct)
  case (1 n)
  show ?case
  proof (cases "n < 10")
    case True
    then show ?thesis by simp
  next
    case False
    with "1.IH" have "read_digits (show_nat (n div 10)) 0 = n div 10" by simp
    with False show ?thesis by (simp add: show_nat_big read_digits_append)
  qed
qed

lemma show_nat_inj: "show_nat m = show_nat n \<Longrightarrow> m = n"
  by (metis read_show_nat)

lemma length_show_nat:
  "length (show_nat n) = (if n < 10 then 1 else Suc (length (show_nat (n div 10))))"
  by (simp add: show_nat_big)

lemma length_show_nat_1 [simp]: "n < 10 \<Longrightarrow> length (show_nat n) = 1"
  by simp

lemma length_show_nat_2: "10 \<le> n \<Longrightarrow> n < 100 \<Longrightarrow> length (show_nat n) = 2"
  by (simp add: length_show_nat [of n])

lemma digit_not_space: "is_digit c \<Longrightarrow> \<not> is_js_space c"
  by (auto simp: is_digit_def is_js_space_def)

lemma digit_not_sign: "is_digit c \<Longrightarrow> c \<noteq> CHR ''-'' \<and> c \<noteq> CHR ''+''"
  by (auto simp: is_digit_def)

text \<open>\<open>parseInt\<close> reads back a rendered number that is followed by a non-digit.\<close>

theorem parse_int_show_nat:
  assumes "rest = [] \<or> \<not> is_digit (hd rest)"
  shows "parse_int (show_nat n @ rest) = Some (int n)"
proof -
  obtain c cs where sn: "show_nat n = c # cs"
    by (cases "show_nat n") auto
  have dc: "is_digit c" using show_nat_digits [of c n] sn by simp
  have all: "\<forall>x \<in> set (show_nat n). is_digit x" using show_nat_digits by blast
  have tw: "takeWhile is_digit (show_nat n @ rest) = show_nat n"
    using assms all by (cases rest) (auto simp: takeWhile_append2)
  have dw: "dropWhile is_js_space (show_nat n @ rest) = show_nat n @ rest"
    using sn dc digit_not_space by simp
  have rs: "read_digits (c # cs) 0 = n" using read_show_nat [of n] sn by simp
  show ?thesis
    using sn dc digit_not_sign [OF dc] tw dw rs
    by (simp add: parse_int_def Let_def)
qed

lemma pad_start_long [simp]: "n \<le> length s \<Longrightarrow> pad_start n c s = s"
  by (simp add: pad_start_def)

lemma length_pad_start [simp]: "length (pad_start n c s) = max n (length s)"
  by (simp add: pad_start_def)

subsection \<open>The timer table\<close>

lemma sched_wf_init [simp]: "sched_wf sched_init"
  by (simp add: sched_wf_def sched_init_def)

lemma sched_init_fields [simp, sched_simps]:
  "s_now sched_init = 0" "s_entries sched_init = []" "s_next sched_init = 1"
  by (simp_all add: sched_init_def)

lemma add_timer_handle [simp, sched_simps]: "fst (add_timer cb d per s) = s_next s"
  by (simp add: add_timer_def)

lemma add_timer_fields [simp, sched_simps]:
  "s_now (snd (add_timer cb d per s)) = s_now s"
  "s_next (snd (add_timer cb d per s)) = Suc (s_next s)"
  by (simp_all add: add_timer_def)

lemma add_timer_entries [simp, sched_simps]:
  "s_entries (snd (add_timer cb d per s)) =
     s_entries s @ [\<lparr>t_handle = s_next s, t_due = s_now s + d, t_period = per, t_cb = cb\<rparr>]"
  by (simp add: add_timer_def)

lemma sched_wf_add_timer: "sched_wf s \<Longrightarrow> sched_wf (snd (add_timer cb d per s))"
  by (auto simp: sched_wf_def add_timer_def)

lemma clear_timer_fields [simp, sched_simps]:
  "s_now (clear_timer h s) = s_now s" "s_next (clear_timer h s) = s_next s"
  by (simp_all add: clear_timer_def)

lemma clear_timer_entries [simp, sched_simps]:
  "s_entries (clear_timer h s) = filter (\<lambda>e. t_handle e \<noteq> h) (s_entries s)"
  by (simp add: clear_timer_def)

lemma sched_wf_clear: "sched_wf s \<Longrightarrow> sched_wf (clear_timer h s)"
  by (auto simp: sched_wf_def clear_timer_def distinct_map_filter)

lemma wait_fields [simp, sched_simps]:
  "s_now (wait d s) = s_now s + d" "s_next (wait d s) = s_next s"
  "s_entries (wait d s) = s_entries s"
  by (simp_all add: wait_def)

lemma sched_wf_wait: "sched_wf s \<Longrightarrow> can_wait d s \<Longrightarrow> sched_wf (wait d s)"
  by (simp add: sched_wf_def can_wait_def wait_def)

lemma earliest_None [simp]: "earliest es = None \<longleftrightarrow> es = []"
  by (induction es) (auto split: option.splits)

lemma earliest_in: "earliest es = Some e \<Longrightarrow> e \<in> set es"
  by (induction es arbitrary: e) (auto split: option.splits if_splits)

lemma before_refl: "before e e"
  by (simp add: before_def)

lemma before_trans: "before a b \<Longrightarrow> before b c \<Longrightarrow> before a c"
  by (auto simp: before_def)

lemma before_total: "\<not> before a b \<Longrightarrow> before b a"
  by (auto simp: before_def)

lemma earliest_least: "earliest es = Some e \<Longrightarrow> x \<in> set es \<Longrightarrow> before e x"
proof (induction es arbitrary: e)
  case Nil
  then show ?case by simp
next
  case (Cons a es)
  show ?case
  proof (cases "earliest es")
    case None
    with Cons.prems show ?thesis by (simp add: before_refl)
  next
    case (Some e')
    with Cons.prems Cons.IH [of e'] show ?thesis
      by (auto split: if_splits intro: before_refl before_trans dest: before_total)
  qed
qed

lemma earliest_due_le: "earliest es = Some e \<Longrightarrow> x \<in> set es \<Longrightarrow> t_due e \<le> t_due x"
  using earliest_least [of es e x] by (auto simp: before_def)

lemma handles_of_init [simp, sched_simps]: "handles_of P sched_init = []"
  by (simp add: handles_of_def sched_init_def)

lemma handles_of_add_timer [simp, sched_simps]:
  "handles_of P (snd (add_timer cb d per s)) = handles_of P s @ (if P cb then [s_next s] else [])"
  by (simp add: handles_of_def add_timer_def)

lemma handles_of_clear [simp, sched_simps]:
  "handles_of P (clear_timer h s) = filter (\<lambda>x. x \<noteq> h) (handles_of P s)"
  by (simp add: handles_of_def clear_timer_def filter_map comp_def conj_commute)

lemma handles_of_wait [simp, sched_simps]: "handles_of P (wait d s) = handles_of P s"
  by (simp add: handles_of_def)

lemma resched_handles [simp]: "map t_handle (resched h d xs) = map t_handle xs"
  by (induction xs) (simp_all add: resched_def)

lemma resched_filter_handles [simp]:
  "map t_handle (filter (\<lambda>x. P (t_cb x)) (resched h d xs)) = map t_handle (filter (\<lambda>x. P (t_cb x)) xs)"
  by (induction xs) (simp_all add: resched_def)

lemma set_resched: "x \<in> set (resched h d xs) \<Longrightarrow> (\<exists>y \<in> set xs. t_handle x = t_handle y \<and>
     (t_handle y = h \<longrightarrow> t_due x = d) \<and> (t_handle y \<noteq> h \<longrightarrow> x = y))"
  by (auto simp: resched_def)

text \<open>What one firing does to the table, stated once for every component.\<close>

lemma fire_Some:
  assumes "fire s = Some (cb, s')"
  shows "\<exists>e \<in> set (s_entries s). cb = t_cb e \<and> s_now s' = t_due e \<and> s_next s' = s_next s \<and>
           (\<forall>x \<in> set (s_entries s). t_due e \<le> t_due x) \<and>
           (\<forall>P. handles_of P s' = (case t_period e of
                     None \<Rightarrow> filter (\<lambda>x. x \<noteq> t_handle e) (handles_of P s)
                   | Some p \<Rightarrow> handles_of P s))"
proof -
  from assms obtain e where e: "earliest (s_entries s) = Some e"
    by (auto simp: fire_def split: option.splits)
  have in_e: "e \<in> set (s_entries s)" using e by (rule earliest_in)
  have le: "\<forall>x \<in> set (s_entries s). t_due e \<le> t_due x"
    using e earliest_due_le by blast
  show ?thesis
    using assms e in_e le
    by (auto simp: fire_def handles_of_def filter_map comp_def conj_commute
             split: option.splits intro!: bexI [of _ e])
qed

lemma sched_wf_fire:
  assumes wf: "sched_wf s" and f: "fire s = Some (cb, s')"
  shows "sched_wf s'"
proof -
  from f obtain e where e: "earliest (s_entries s) = Some e"
    by (auto simp: fire_def split: option.splits)
  have in_e: "e \<in> set (s_entries s)" using e by (rule earliest_in)
  have le: "\<forall>x \<in> set (s_entries s). t_due e \<le> t_due x"
    using e earliest_due_le by blast
  show ?thesis
  proof (cases "t_period e")
    case None
    with wf f e le show ?thesis
      by (auto simp: sched_wf_def fire_def distinct_map_filter)
  next
    case (Some p)
    have "\<forall>x \<in> set (resched (t_handle e) (t_due e + p) (s_entries s)).
            0 < t_handle x \<and> t_handle x < s_next s \<and> t_due e \<le> t_due x"
      using wf le in_e by (fastforce simp: sched_wf_def dest: set_resched)
    moreover from f e Some have "s' = s\<lparr>s_now := t_due e,
        s_entries := resched (t_handle e) (t_due e + p) (s_entries s)\<rparr>"
      by (auto simp: fire_def)
    ultimately show ?thesis
      using wf by (simp add: sched_wf_def)
  qed
qed

lemma handles_of_pos: "sched_wf s \<Longrightarrow> h \<in> set (handles_of P s) \<Longrightarrow> 0 < h"
  by (auto simp: sched_wf_def handles_of_def)

lemma handles_of_other:
  assumes "sched_wf s" "e \<in> set (s_entries s)" "\<not> P (t_cb e)"
  shows "t_handle e \<notin> set (handles_of P s)"
proof
  assume "t_handle e \<in> set (handles_of P s)"
  then obtain x where x: "x \<in> set (s_entries s)" "P (t_cb x)" "t_handle x = t_handle e"
    by (auto simp: handles_of_def)
  from assms(1) have "inj_on t_handle (set (s_entries s))"
    by (simp add: sched_wf_def distinct_map)
  with x assms(2) have "x = e" by (auto dest: inj_onD)
  with x assms(3) show False by simp
qed

text \<open>Firing keeps every entry's callback and period; it only re-times or drops entries.\<close>

lemma fire_entries:
  assumes "fire s = Some (cb, s')" "x \<in> set (s_entries s')"
  shows "\<exists>y \<in> set (s_entries s). t_cb x = t_cb y \<and> t_period x = t_period y"
  using assms by (fastforce simp: fire_def resched_def split: option.splits)

lemma fire_fired:
  assumes "fire s = Some (cb, s')"
  shows "\<exists>e \<in> set (s_entries s). cb = t_cb e \<and>
           (\<forall>P. handles_of P s' = (case t_period e of
                     None \<Rightarrow> filter (\<lambda>x. x \<noteq> t_handle e) (handles_of P s)
                   | Some p \<Rightarrow> handles_of P s))"
  using fire_Some [OF assms] by blast

lemma fire_handles_of:
  assumes wf: "sched_wf s" and f: "fire s = Some (cb, s')"
    and per: "\<forall>e \<in> set (s_entries s). P (t_cb e) \<longrightarrow> t_period e \<noteq> None"
  shows "handles_of P s' = handles_of P s"
proof -
  obtain e where e: "e \<in> set (s_entries s)" "cb = t_cb e"
    and h: "\<forall>Q. handles_of Q s' = (case t_period e of
                     None \<Rightarrow> filter (\<lambda>x. x \<noteq> t_handle e) (handles_of Q s)
                   | Some p \<Rightarrow> handles_of Q s)"
    using fire_fired [OF f] by blast
  show ?thesis
  proof (cases "t_period e")
    case None
    with per e have np: "\<not> P (t_cb e)" by auto
    have "t_handle e \<notin> set (handles_of P s)" using handles_of_other [of s e P] wf e(1) np by blast
    then have "filter (\<lambda>x. x \<noteq> t_handle e) (handles_of P s) = handles_of P s"
      by (auto simp: filter_id_conv)
    with h None show ?thesis by simp
  next
    case (Some p)
    with h show ?thesis by simp
  qed
qed

lemma fire_single:
  "s_entries s = [e] \<Longrightarrow> fire s = Some (t_cb e, s\<lparr>s_now := t_due e,
     s_entries := (case t_period e of None \<Rightarrow> [] | Some p \<Rightarrow> [e\<lparr>t_due := t_due e + p\<rparr>])\<rparr>)"
  by (simp add: fire_def resched_def split: option.splits)

lemma fire_not_in_handles:
  "fire s = Some (cb, s') \<Longrightarrow> handles_of P s = [] \<Longrightarrow> \<not> P cb"
  using fire_fired [of s cb s'] by (force simp: handles_of_def filter_empty_conv)

end
