(* ===== verification/TimeFormat.thy ===== *)
theory TimeFormat
  imports Prelude
begin

text \<open>
  The two clock renderings of the program. \<open>formatTime\<close> is
  \<open>TimerManager.formatTime\<close> (src/scripts/modules/timer-manager.js): \<open>M:SS\<close> under one
  hour and \<open>H:MM:SS\<close> from one hour on. \<open>rest_display_text\<close> and
  \<open>rest_display_color\<close> are the text and colour that \<open>App.updateTimerDisplay\<close>
  (src/scripts/app.js) writes for the rest countdown: \<open>MM:SS\<close> with both fields padded
  and no hour field. \<open>read_clock\<close> is not code of the program: it reads a clock text
  back, and the round-trip theorem shows that \<open>formatTime\<close> loses no information.
\<close>

section \<open>Definitions\<close>

text \<open>\<open>n.toString().padStart(2, '0')\<close>.\<close>

definition pad2 :: "nat \<Rightarrow> string" where
  "pad2 n = pad_start 2 (CHR ''0'') (show_nat n)"

definition formatTime :: "nat \<Rightarrow> string" where
  "formatTime totalSeconds =
     (let hours = totalSeconds div 3600;
          minutes = (totalSeconds mod 3600) div 60;
          seconds = totalSeconds mod 60
      in if hours > 0 then show_nat hours @ '':'' @ pad2 minutes @ '':'' @ pad2 seconds
         else show_nat minutes @ '':'' @ pad2 seconds)"

text \<open>
  JavaScript's \<open>%\<close> truncates toward zero (the sign of the dividend), unlike HOL's
  \<open>mod\<close>; \<open>Math.floor(a / b)\<close> is HOL's \<open>div\<close> on \<open>int\<close>. \<open>show_int\<close> is
  \<open>String(i)\<close> of an integer.
\<close>

definition js_rem :: "int \<Rightarrow> int \<Rightarrow> int" where
  "js_rem a b = sgn a * (\<bar>a\<bar> mod \<bar>b\<bar>)"

definition show_int :: "int \<Rightarrow> string" where
  "show_int i = (if i < 0 then ''-'' @ show_nat (nat (- i)) else show_nat (nat i))"

definition pad2_int :: "int \<Rightarrow> string" where
  "pad2_int i = pad_start 2 (CHR ''0'') (show_int i)"

definition rest_display_text :: "int \<Rightarrow> string" where
  "rest_display_text restTimeRemaining =
     (let minutes = restTimeRemaining div 60;
          seconds = js_rem restTimeRemaining 60
      in pad2_int minutes @ '':'' @ pad2_int seconds)"

datatype color = Red | Amber | Green

text \<open>\<open>#ef4444\<close> is red, \<open>#f59e0b\<close> amber, \<open>#22c55e\<close> green.\<close>

definition rest_display_color :: "int \<Rightarrow> color" where
  "rest_display_color restTimeRemaining =
     (if restTimeRemaining \<le> 10 then Red
      else if restTimeRemaining \<le> 30 then Amber else Green)"

text \<open>Reading a clock text back: fields separated by colons, all digits.\<close>

fun split_colon :: "string \<Rightarrow> string list" where
  "split_colon [] = [[]]"
| "split_colon (c # cs) =
     (if c = CHR '':'' then [] # split_colon cs
      else (case split_colon cs of [] \<Rightarrow> [[c]] | f # fs \<Rightarrow> (c # f) # fs))"

definition digit_field :: "string \<Rightarrow> bool" where
  "digit_field f = (f \<noteq> [] \<and> (\<forall>c \<in> set f. is_digit c))"

fun read_fields :: "string list \<Rightarrow> nat option" where
  "read_fields [m, s] =
     (if digit_field m \<and> digit_field s \<and> length s = 2
      then Some (read_digits m 0 * 60 + read_digits s 0) else None)"
| "read_fields [h, m, s] =
     (if digit_field h \<and> digit_field m \<and> digit_field s \<and> length m = 2 \<and> length s = 2
      then Some (read_digits h 0 * 3600 + read_digits m 0 * 60 + read_digits s 0) else None)"
| "read_fields _ = None"

definition read_clock :: "string \<Rightarrow> nat option" where
  "read_clock s = read_fields (split_colon s)"

section \<open>Lemmas\<close>

lemma digit_char_0 [simp]: "digit_char 0 = CHR ''0''"
  by code_simp

lemma pad2_digits:
  assumes "n < 100"
  shows "pad2 n = [digit_char (n div 10), digit_char (n mod 10)]"
proof (cases "n < 10")
  case True
  then show ?thesis by (simp add: pad2_def pad_start_def)
next
  case False
  with assms have "n div 10 < 10" by simp
  with False show ?thesis
    by (simp add: pad2_def show_nat_big)
qed

lemma colon_not_digit [simp]: "\<not> is_digit CHR '':''"
  by (simp add: is_digit_def)

lemma split_colon_not_Nil [simp]: "split_colon s \<noteq> []"
  by (induction s) (simp_all split: list.splits)

lemma split_colon_no_colon:
  "CHR '':'' \<notin> set xs \<Longrightarrow> split_colon (xs @ ys) =
     (xs @ hd (split_colon ys)) # tl (split_colon ys)"
  by (induction xs) (auto split: list.splits)

lemma split_colon_field:
  "CHR '':'' \<notin> set xs \<Longrightarrow> split_colon (xs @ CHR '':'' # ys) = xs # split_colon ys"
  by (simp add: split_colon_no_colon)

lemma split_colon_last: "CHR '':'' \<notin> set xs \<Longrightarrow> split_colon xs = [xs]"
  using split_colon_no_colon [of xs "[]"] by simp

lemma show_nat_no_colon [simp]: "CHR '':'' \<notin> set (show_nat n)"
  using show_nat_digits colon_not_digit by blast

lemma digit_field_show_nat [simp]: "digit_field (show_nat n)"
  by (simp add: digit_field_def show_nat_digits)

lemma pad2_props [simp]:
  assumes "n < 100"
  shows "CHR '':'' \<notin> set (pad2 n)" "digit_field (pad2 n)" "length (pad2 n) = 2"
    "read_digits (pad2 n) 0 = n"
proof -
  have d: "n div 10 < 10" "n mod 10 < 10" using assms by simp_all
  have dd: "is_digit (digit_char (n div 10))" "is_digit (digit_char (n mod 10))"
    using d by simp_all
  then have "digit_char (n div 10) \<noteq> CHR '':''" "digit_char (n mod 10) \<noteq> CHR '':''"
    by (metis colon_not_digit)+
  then show "CHR '':'' \<notin> set (pad2 n)"
    by (simp add: pad2_digits [OF assms])
  show "digit_field (pad2 n)" "length (pad2 n) = 2"
    using dd by (simp_all add: pad2_digits [OF assms] digit_field_def)
  show "read_digits (pad2 n) 0 = n"
    using pad2_digits [OF assms] d by simp
qed

lemma formatTime_short_eq:
  "n < 3600 \<Longrightarrow> formatTime n = show_nat (n div 60) @ '':'' @ pad2 (n mod 60)"
  by (simp add: formatTime_def Let_def)

lemma formatTime_long_eq:
  "\<not> n < 3600 \<Longrightarrow>
     formatTime n = show_nat (n div 3600) @ '':'' @ pad2 (n mod 3600 div 60) @ '':'' @ pad2 (n mod 60)"
  by (simp add: formatTime_def Let_def)

text \<open>
  The fields of the text: under one hour the unpadded minutes and two-digit seconds,
  from one hour on the hours, two-digit minutes and two-digit seconds.
\<close>

lemma formatTime_split:
  "split_colon (formatTime n) =
     (if n < 3600 then [show_nat (n div 60), pad2 (n mod 60)]
      else [show_nat (n div 3600), pad2 (n mod 3600 div 60), pad2 (n mod 60)])"
proof (cases "n < 3600")
  case True
  have "n mod 60 < 100" by simp
  then show ?thesis
    using True by (simp add: formatTime_short_eq split_colon_field split_colon_last)
next
  case False
  have "n mod 60 < 100" "n mod 3600 div 60 < 100" by simp_all
  then show ?thesis
    using False by (simp add: formatTime_long_eq split_colon_field split_colon_last)
qed

lemma length_show_nat_lt60: "n < 60 \<Longrightarrow> length (show_nat n) \<le> 2"
  by (cases "n < 10") (simp_all add: length_show_nat_2)

text \<open>
  C8. Under one hour (\<open>0 \<le> n \<le> 3599\<close>) the text is \<open>M:SS\<close>: a field of one or
  two digits, a colon, and exactly two digits (zero-padded seconds).
\<close>

theorem formatTime_short_shape:
  assumes "n < 3600"
  shows "\<exists>m ss. formatTime n = m @ '':'' @ ss \<and> digit_field m \<and> length m \<le> 2 \<and>
                digit_field ss \<and> length ss = 2"
proof -
  have "n mod 60 < 100" "n div 60 < 60" using assms by simp_all
  then show ?thesis
    using assms length_show_nat_lt60 [of "n div 60"]
    by (intro exI [of _ "show_nat (n div 60)"] exI [of _ "pad2 (n mod 60)"])
       (simp add: formatTime_short_eq)
qed

theorem formatTime_short_shape_witness:
  "(75::nat) < 3600 \<and> (\<exists>m ss. formatTime 75 = m @ '':'' @ ss \<and> digit_field m \<and> length m \<le> 2 \<and>
                digit_field ss \<and> length ss = 2)"
  using formatTime_short_shape [of 75] by simp

text \<open>
  C9. From one hour on (\<open>n \<ge> 3600\<close>) the text is \<open>H:MM:SS\<close>: the hours, then
  minutes and seconds each as exactly two digits.
\<close>

theorem formatTime_long_shape:
  assumes "3600 \<le> n"
  shows "\<exists>h mm ss. formatTime n = h @ '':'' @ mm @ '':'' @ ss \<and> digit_field h \<and>
                   digit_field mm \<and> length mm = 2 \<and> digit_field ss \<and> length ss = 2"
proof -
  have "n mod 60 < 100" "n mod 3600 div 60 < 100" by simp_all
  then show ?thesis
    using assms
    by (intro exI [of _ "show_nat (n div 3600)"] exI [of _ "pad2 (n mod 3600 div 60)"]
          exI [of _ "pad2 (n mod 60)"])
       (simp add: formatTime_long_eq)
qed

theorem formatTime_long_shape_witness:
  "3600 \<le> (3725::nat) \<and> (\<exists>h mm ss. formatTime 3725 = h @ '':'' @ mm @ '':'' @ ss \<and> digit_field h \<and>
                   digit_field mm \<and> length mm = 2 \<and> digit_field ss \<and> length ss = 2)"
  using formatTime_long_shape [of 3725] by simp

text \<open>
  C10. The text determines the elapsed time: reading the fields back gives \<open>n\<close>, for
  every \<open>n\<close>, so two different elapsed times never display alike.
\<close>

theorem formatTime_roundtrip: "read_clock (formatTime n) = Some n"
proof (cases "n < 3600")
  case True
  have "n div 60 * 60 + n mod 60 = n" by simp
  with True show ?thesis
    by (simp add: read_clock_def formatTime_split)
next
  case False
  have "n mod 3600 mod 60 = n mod 60" by (simp add: mod_mod_cancel)
  then have "n mod 3600 = n mod 3600 div 60 * 60 + n mod 60"
    using div_mult_mod_eq [of "n mod 3600" 60] by simp
  then have "n div 3600 * 3600 + n mod 3600 div 60 * 60 + n mod 60 = n"
    using div_mult_mod_eq [of n 3600] by linarith
  with False show ?thesis
    by (simp add: read_clock_def formatTime_split)
qed

lemma js_rem_nonneg [simp]: "0 \<le> a \<Longrightarrow> 0 < b \<Longrightarrow> js_rem a b = a mod b"
  by (cases "a = 0") (simp_all add: js_rem_def)

lemma show_int_nonneg [simp]: "0 \<le> i \<Longrightarrow> show_int i = show_nat (nat i)"
  by (simp add: show_int_def)

text \<open>For a non-negative remaining time the rest clock is two padded decimal fields.\<close>

lemma rest_display_text_nonneg:
  assumes "0 \<le> r"
  shows "rest_display_text r = pad2 (nat r div 60) @ '':'' @ pad2 (nat r mod 60)"
proof -
  have "nat (r div 60) = nat r div 60" "nat (r mod 60) = nat r mod 60"
    using assms by (simp_all add: nat_div_distrib nat_mod_distrib)
  then show ?thesis
    using assms by (simp add: rest_display_text_def pad2_int_def pad2_def Let_def)
qed

end
