(* ===== verification/TimerManager.thy ===== *)
theory TimerManager
  imports TimeFormat
begin

text \<open>
  \<open>class TimerManager\<close> of src/scripts/modules/timer-manager.js: the stopwatch /
  countdown engine. The object's fields are the record \<open>timer_manager\<close>; the DOM
  elements it holds (the display, the three buttons), the banners it appends to the
  page, the notification permission, the browser's timer table and the externally
  visible effects (sound, observer calls, system notifications) form the world
  \<open>tm_world\<close> that every method takes and returns. Each method is one definition,
  composed as the source composes them; \<open>tm_step\<close> is one event of the page (a click,
  the space key, a timer firing, time passing, a call of the public API), and
  \<open>tm_reach\<close> the worlds reachable from a freshly initialised timer.
\<close>

section \<open>State\<close>

text \<open>The callbacks the timer hands to \<open>setInterval\<close> and \<open>setTimeout\<close>.\<close>

datatype tm_cb =
    Tick                \<comment> \<open>the one-second interval of \<open>start\<close>\<close>
  | FadeBanner nat      \<comment> \<open>the 3000 ms timeout of \<open>showVisualNotification\<close>\<close>
  | RemoveBanner nat    \<comment> \<open>the nested 500 ms timeout that removes the banner\<close>

datatype tm_effect =
    PlaySound
  | TickObserved nat
  | CompleteObserved nat
  | SystemNotification string   \<comment> \<open>the elapsed-time part of the notification body\<close>
  | PermissionRequested

datatype permission = NoNotificationApi | PermDefault | PermGranted | PermDenied

text \<open>The \<open>timer-display\<close> element: its text and its three state classes.\<close>

record timer_display =
  d_text :: string
  d_running :: bool
  d_paused :: bool
  d_finished :: bool

record timer_manager =
  seconds :: nat
  isRunning :: bool
  isFinished :: bool
  interval :: "nat option"
  targetSeconds :: "int option"
  onTick :: bool
  onComplete :: bool

text \<open>
  \<open>startBtn\<close> and \<open>pauseBtn\<close> hold whether the button is shown (\<open>inline-flex\<close>)
  or hidden (\<open>none\<close>); \<open>None\<close> is an element \<open>getElementById\<close> did not find. A
  banner is its id and whether it is fading out.
\<close>

record tm_world =
  tm :: timer_manager
  display :: "timer_display option"
  startBtn :: "bool option"
  pauseBtn :: "bool option"
  resetBtn :: bool
  banners :: "(nat \<times> bool) list"
  next_banner :: nat
  perm :: permission
  timers :: "tm_cb sched"
  effects :: "tm_effect list"

definition is_tick :: "tm_cb \<Rightarrow> bool" where
  "is_tick cb = (cb = Tick)"

definition set_tm :: "(timer_manager \<Rightarrow> timer_manager) \<Rightarrow> tm_world \<Rightarrow> tm_world" where
  "set_tm f w = w\<lparr>tm := f (tm w)\<rparr>"

definition emit :: "tm_effect \<Rightarrow> tm_world \<Rightarrow> tm_world" where
  "emit x w = w\<lparr>effects := effects w @ [x]\<rparr>"

section \<open>Methods\<close>

text \<open>The constructor: fresh fields, the elements found in the page.\<close>

definition tm_new ::
  "timer_display option \<Rightarrow> bool option \<Rightarrow> bool option \<Rightarrow> bool \<Rightarrow> permission \<Rightarrow> tm_world" where
  "tm_new d sb pb rb p =
     \<lparr>tm = \<lparr>seconds = 0, isRunning = False, isFinished = False, interval = None,
            targetSeconds = None, onTick = False, onComplete = False\<rparr>,
      display = d, startBtn = sb, pauseBtn = pb, resetBtn = rb, banners = [],
      next_banner = 0, perm = p, timers = sched_init, effects = []\<rparr>"

definition updateDisplay :: "tm_world \<Rightarrow> tm_world" where
  "updateDisplay w =
     (case display w of
        None \<Rightarrow> w
      | Some d \<Rightarrow>
          let t = tm w in
          w\<lparr>display := Some (d\<lparr>d_text := formatTime (seconds t),
                                d_running := isRunning t,
                                d_paused := (\<not> isRunning t \<and> seconds t > 0 \<and> \<not> isFinished t),
                                d_finished := isFinished t\<rparr>)\<rparr>)"

definition updateButtons :: "tm_world \<Rightarrow> tm_world" where
  "updateButtons w =
     w\<lparr>startBtn := map_option (\<lambda>_. \<not> isRunning (tm w)) (startBtn w),
       pauseBtn := map_option (\<lambda>_. isRunning (tm w)) (pauseBtn w)\<rparr>"

definition clear_finished_class :: "tm_world \<Rightarrow> tm_world" where
  "clear_finished_class w = w\<lparr>display := map_option (\<lambda>d. d\<lparr>d_finished := False\<rparr>) (display w)\<rparr>"

definition requestNotificationPermission :: "tm_world \<Rightarrow> tm_world" where
  "requestNotificationPermission w = (if perm w = PermDefault then emit PermissionRequested w else w)"

text \<open>\<open>init()\<close>: the listeners are the events of \<open>tm_step\<close>.\<close>

definition tm_init :: "tm_world \<Rightarrow> tm_world" where
  "tm_init w = updateButtons (updateDisplay (requestNotificationPermission w))"

definition start :: "int option \<Rightarrow> tm_world \<Rightarrow> tm_world" where
  "start target w =
     (if isRunning (tm w) then w
      else
        let w1 = clear_finished_class
                   (set_tm (\<lambda>t. t\<lparr>isRunning := True, isFinished := False,
                                   targetSeconds := target\<rparr>) w);
            (h, sc) = set_interval Tick 1000 (timers w1);
            w2 = set_tm (\<lambda>t. t\<lparr>interval := Some h\<rparr>) (w1\<lparr>timers := sc\<rparr>)
        in updateDisplay (updateButtons w2))"

text \<open>\<open>if (this.interval)\<close>: a handle is truthy when it is not 0.\<close>

definition pause :: "tm_world \<Rightarrow> tm_world" where
  "pause w =
     (if \<not> isRunning (tm w) then w
      else
        let w1 = set_tm (\<lambda>t. t\<lparr>isRunning := False\<rparr>) w;
            w2 = (case interval (tm w1) of
                    Some h \<Rightarrow> if h \<noteq> 0
                              then set_tm (\<lambda>t. t\<lparr>interval := None\<rparr>)
                                     (w1\<lparr>timers := clear_timer h (timers w1)\<rparr>)
                              else w1
                  | None \<Rightarrow> w1)
        in updateDisplay (updateButtons w2))"

definition toggle :: "tm_world \<Rightarrow> tm_world" where
  "toggle w = (if isRunning (tm w) then pause w else start None w)"

definition reset :: "tm_world \<Rightarrow> tm_world" where
  "reset w =
     updateButtons (updateDisplay (clear_finished_class
       (set_tm (\<lambda>t. t\<lparr>seconds := 0, targetSeconds := None, isFinished := False\<rparr>) (pause w))))"

definition playSound :: "tm_world \<Rightarrow> tm_world" where
  "playSound w = emit PlaySound w"

definition showVisualNotification :: "tm_world \<Rightarrow> tm_world" where
  "showVisualNotification w =
     (let b = next_banner w;
          (h, sc) = set_timeout (FadeBanner b) 3000 (timers w)
      in w\<lparr>banners := banners w @ [(b, False)], next_banner := Suc b, timers := sc\<rparr>)"

text \<open>The two nested timeouts of the banner.\<close>

definition fadeBanner :: "nat \<Rightarrow> tm_world \<Rightarrow> tm_world" where
  "fadeBanner b w =
     (let (h, sc) = set_timeout (RemoveBanner b) 500 (timers w)
      in w\<lparr>banners := map (\<lambda>(x, f). if x = b then (x, True) else (x, f)) (banners w),
           timers := sc\<rparr>)"

definition removeBanner :: "nat \<Rightarrow> tm_world \<Rightarrow> tm_world" where
  "removeBanner b w = w\<lparr>banners := filter (\<lambda>(x, f). x \<noteq> b) (banners w)\<rparr>"

definition complete :: "tm_world \<Rightarrow> tm_world" where
  "complete w =
     (let w1 = set_tm (\<lambda>t. t\<lparr>isFinished := True\<rparr>) (pause w);
          w2 = w1\<lparr>display := map_option (\<lambda>d. d\<lparr>d_finished := True\<rparr>) (display w1)\<rparr>;
          w3 = showVisualNotification (playSound w2);
          w4 = (if onComplete (tm w3) then emit (CompleteObserved (seconds (tm w3))) w3 else w3);
          w5 = (if perm w4 = PermGranted
                then emit (SystemNotification (formatTime (seconds (tm w4)))) w4 else w4)
      in updateDisplay w5)"

text \<open>The body of the interval callback of \<open>start\<close>.\<close>

definition tick :: "tm_world \<Rightarrow> tm_world" where
  "tick w =
     (let w1 = updateDisplay (set_tm (\<lambda>t. t\<lparr>seconds := Suc (seconds t)\<rparr>) w);
          w2 = (if onTick (tm w1) then emit (TickObserved (seconds (tm w1))) w1 else w1);
          t = tm w2
      in if truthy_num (targetSeconds t) \<and> int (seconds t) \<ge> the (targetSeconds t)
         then complete w2 else w2)"

record tm_snapshot =
  snap_seconds :: nat
  snap_isRunning :: bool
  snap_isFinished :: bool
  snap_targetSeconds :: "int option"

definition getState :: "tm_world \<Rightarrow> tm_snapshot" where
  "getState w =
     \<lparr>snap_seconds = seconds (tm w), snap_isRunning = isRunning (tm w),
      snap_isFinished = isFinished (tm w), snap_targetSeconds = targetSeconds (tm w)\<rparr>"

definition setState :: "nat \<Rightarrow> bool \<Rightarrow> tm_world \<Rightarrow> tm_world" where
  "setState secs running w =
     (let w1 = set_tm (\<lambda>t. t\<lparr>seconds := secs\<rparr>) (reset w);
          w2 = (if running then start None w1 else w1)
      in updateDisplay w2)"

definition run_cb :: "tm_cb \<Rightarrow> tm_world \<Rightarrow> tm_world" where
  "run_cb cb w = (case cb of Tick \<Rightarrow> tick w | FadeBanner b \<Rightarrow> fadeBanner b w
                            | RemoveBanner b \<Rightarrow> removeBanner b w)"

section \<open>Events\<close>

text \<open>
  The listeners \<open>init\<close> attaches (a click on a button that exists and is shown, the space key
  outside an \<open>INPUT\<close>), the browser's timers and clock, the user's answer to the
  permission prompt, and calls of the public API by a collaborator.
\<close>

datatype tm_event =
    ClickStart | ClickPause | ClickReset
  | KeySpace bool                  \<comment> \<open>whether the key's target is an \<open>INPUT\<close>\<close>
  | Fire | Wait nat
  | PermissionAnswer bool
  | ApiStart "int option" | ApiPause | ApiToggle | ApiReset | ApiComplete
  | ApiSetState nat bool | ApiObservers bool bool

fun tm_step :: "tm_event \<Rightarrow> tm_world \<Rightarrow> tm_world option" where
  "tm_step ClickStart w = (if startBtn w = Some True then Some (start None w) else None)"
| "tm_step ClickPause w = (if pauseBtn w = Some True then Some (pause w) else None)"
| "tm_step ClickReset w = (if resetBtn w then Some (reset w) else None)"
| "tm_step (KeySpace is_input) w = Some (if is_input then w else toggle w)"
| "tm_step Fire w =
     (case fire (timers w) of None \<Rightarrow> None | Some (cb, sc) \<Rightarrow> Some (run_cb cb (w\<lparr>timers := sc\<rparr>)))"
| "tm_step (Wait d) w = (if can_wait d (timers w) then Some (w\<lparr>timers := wait d (timers w)\<rparr>) else None)"
| "tm_step (PermissionAnswer g) w =
     (if perm w = PermDefault then Some (w\<lparr>perm := (if g then PermGranted else PermDenied)\<rparr>)
      else None)"
| "tm_step (ApiStart t) w = Some (start t w)"
| "tm_step ApiPause w = Some (pause w)"
| "tm_step ApiToggle w = Some (toggle w)"
| "tm_step ApiReset w = Some (reset w)"
| "tm_step ApiComplete w = Some (complete w)"
| "tm_step (ApiSetState s r) w = Some (setState s r w)"
| "tm_step (ApiObservers a b) w = Some (set_tm (\<lambda>t. t\<lparr>onTick := a, onComplete := b\<rparr>) w)"

fun tm_run :: "tm_event list \<Rightarrow> tm_world \<Rightarrow> tm_world option" where
  "tm_run [] w = Some w"
| "tm_run (e # es) w = (case tm_step e w of None \<Rightarrow> None | Some w' \<Rightarrow> tm_run es w')"

inductive tm_reach :: "tm_world \<Rightarrow> bool" where
  init: "tm_reach (tm_init (tm_new d sb pb rb p))"
| step: "tm_reach w \<Longrightarrow> tm_step e w = Some w' \<Longrightarrow> tm_reach w'"

section \<open>Invariant\<close>

text \<open>
  The timer table is well formed; the interval handles with the \<open>Tick\<close> callback are
  exactly the one stored in \<open>interval\<close>; the timer runs exactly when it holds an
  interval; a finished timer does not run; every \<open>Tick\<close> entry is the one-second
  interval.
\<close>

definition tm_inv :: "tm_world \<Rightarrow> bool" where
  "tm_inv w =
     (sched_wf (timers w) \<and>
      handles_of is_tick (timers w) = (case interval (tm w) of None \<Rightarrow> [] | Some h \<Rightarrow> [h]) \<and>
      (isRunning (tm w) \<longleftrightarrow> interval (tm w) \<noteq> None) \<and>
      (isFinished (tm w) \<longrightarrow> \<not> isRunning (tm w)) \<and>
      (\<forall>e \<in> set (s_entries (timers w)). is_tick (t_cb e) \<longrightarrow> t_period e = Some 1000))"

text \<open>
  A countdown in progress towards \<open>t\<close> seconds, with the tick as the only pending
  timer (no banner of an earlier completion still on the page).
\<close>

definition counting :: "nat \<Rightarrow> tm_world \<Rightarrow> bool" where
  "counting t w =
     (isRunning (tm w) \<and> targetSeconds (tm w) = Some (int t) \<and>
      (\<exists>e. s_entries (timers w) = [e] \<and> t_cb e = Tick \<and> t_period e = Some 1000 \<and>
           interval (tm w) = Some (t_handle e) \<and> t_handle e \<noteq> 0))"

section \<open>Lemmas\<close>

subsection \<open>Frame facts\<close>

lemma set_tm_frame [simp, frame_simps]:
  "tm (set_tm f w) = f (tm w)" "timers (set_tm f w) = timers w" "display (set_tm f w) = display w"
  "effects (set_tm f w) = effects w" "perm (set_tm f w) = perm w" "banners (set_tm f w) = banners w"
  "next_banner (set_tm f w) = next_banner w" "startBtn (set_tm f w) = startBtn w"
  "pauseBtn (set_tm f w) = pauseBtn w" "resetBtn (set_tm f w) = resetBtn w"
  by (simp_all add: set_tm_def)

lemma emit_frame [simp, frame_simps]:
  "tm (emit x w) = tm w" "timers (emit x w) = timers w" "display (emit x w) = display w"
  "effects (emit x w) = effects w @ [x]" "perm (emit x w) = perm w" "banners (emit x w) = banners w"
  "next_banner (emit x w) = next_banner w" "startBtn (emit x w) = startBtn w"
  "pauseBtn (emit x w) = pauseBtn w" "resetBtn (emit x w) = resetBtn w"
  by (simp_all add: emit_def)

lemma updateDisplay_frame [simp, frame_simps]:
  "tm (updateDisplay w) = tm w" "timers (updateDisplay w) = timers w"
  "effects (updateDisplay w) = effects w" "perm (updateDisplay w) = perm w"
  "banners (updateDisplay w) = banners w" "next_banner (updateDisplay w) = next_banner w"
  "startBtn (updateDisplay w) = startBtn w" "pauseBtn (updateDisplay w) = pauseBtn w"
  "resetBtn (updateDisplay w) = resetBtn w"
  by (simp_all add: updateDisplay_def Let_def split: option.splits)

lemma updateButtons_frame [simp, frame_simps]:
  "tm (updateButtons w) = tm w" "timers (updateButtons w) = timers w"
  "display (updateButtons w) = display w" "effects (updateButtons w) = effects w"
  "perm (updateButtons w) = perm w" "banners (updateButtons w) = banners w"
  "next_banner (updateButtons w) = next_banner w" "resetBtn (updateButtons w) = resetBtn w"
  by (simp_all add: updateButtons_def)

lemma clear_finished_class_frame [simp, frame_simps]:
  "tm (clear_finished_class w) = tm w" "timers (clear_finished_class w) = timers w"
  "effects (clear_finished_class w) = effects w" "perm (clear_finished_class w) = perm w"
  "banners (clear_finished_class w) = banners w"
  "next_banner (clear_finished_class w) = next_banner w"
  "startBtn (clear_finished_class w) = startBtn w" "pauseBtn (clear_finished_class w) = pauseBtn w"
  "resetBtn (clear_finished_class w) = resetBtn w"
  by (simp_all add: clear_finished_class_def)

lemma showVisualNotification_frame [simp, frame_simps]:
  "tm (showVisualNotification w) = tm w" "effects (showVisualNotification w) = effects w"
  "perm (showVisualNotification w) = perm w" "display (showVisualNotification w) = display w"
  "timers (showVisualNotification w) = snd (set_timeout (FadeBanner (next_banner w)) 3000 (timers w))"
  by (simp_all add: showVisualNotification_def Let_def split: prod.splits)

lemma fadeBanner_frame [simp, frame_simps]:
  "tm (fadeBanner b w) = tm w" "effects (fadeBanner b w) = effects w"
  "perm (fadeBanner b w) = perm w" "display (fadeBanner b w) = display w"
  "timers (fadeBanner b w) = snd (set_timeout (RemoveBanner b) 500 (timers w))"
  by (simp_all add: fadeBanner_def Let_def split: prod.splits)

lemma removeBanner_frame [simp, frame_simps]:
  "tm (removeBanner b w) = tm w" "effects (removeBanner b w) = effects w"
  "perm (removeBanner b w) = perm w" "display (removeBanner b w) = display w"
  "timers (removeBanner b w) = timers w"
  by (simp_all add: removeBanner_def)

lemma is_tick_simps [simp]:
  "is_tick Tick" "\<not> is_tick (FadeBanner b)" "\<not> is_tick (RemoveBanner b)"
  by (simp_all add: is_tick_def)

subsection \<open>The invariant is kept by every method\<close>

lemma tm_inv_cong: "tm w' = tm w \<Longrightarrow> timers w' = timers w \<Longrightarrow> tm_inv w' = tm_inv w"
  by (simp add: tm_inv_def)

lemma tm_inv_frame [simp]:
  "tm_inv (updateDisplay w) = tm_inv w" "tm_inv (updateButtons w) = tm_inv w"
  "tm_inv (clear_finished_class w) = tm_inv w" "tm_inv (emit x w) = tm_inv w"
  "tm_inv (removeBanner b w) = tm_inv w"
  by (simp_all add: tm_inv_def)

text \<open>Adding a timeout whose callback is not \<open>Tick\<close> keeps the invariant.\<close>

lemma tm_inv_add_timeout:
  assumes "tm_inv w" "\<not> is_tick cb"
    and "tm w' = tm w" "timers w' = snd (set_timeout cb d (timers w))"
  shows "tm_inv w'"
  using assms
  by (auto simp: tm_inv_def set_timeout_def sched_wf_add_timer)

lemma tm_inv_showVisualNotification: "tm_inv w \<Longrightarrow> tm_inv (showVisualNotification w)"
  by (rule tm_inv_add_timeout) simp_all

lemma tm_inv_fadeBanner: "tm_inv w \<Longrightarrow> tm_inv (fadeBanner b w)"
  by (rule tm_inv_add_timeout) simp_all

lemma start_noop [simp]: "isRunning (tm w) \<Longrightarrow> start target w = w"
  by (simp add: start_def)

lemma start_fields:
  assumes "\<not> isRunning (tm w)"
  shows "tm (start target w) = (tm w)\<lparr>isRunning := True, isFinished := False,
            targetSeconds := target, interval := Some (s_next (timers w))\<rparr>"
    and "timers (start target w) = snd (set_interval Tick 1000 (timers w))"
    and "effects (start target w) = effects w"
  using assms by (simp_all add: start_def set_interval_def add_timer_def Let_def)

lemma pause_noop [simp]: "\<not> isRunning (tm w) \<Longrightarrow> pause w = w"
  by (simp add: pause_def)

lemma pause_fields:
  assumes "isRunning (tm w)" "interval (tm w) = Some h" "h \<noteq> 0"
  shows "tm (pause w) = (tm w)\<lparr>isRunning := False, interval := None\<rparr>"
    and "timers (pause w) = clear_timer h (timers w)"
    and "effects (pause w) = effects w"
  using assms by (simp_all add: pause_def Let_def)

lemma tm_inv_start: "tm_inv w \<Longrightarrow> tm_inv (start target w)"
proof (cases "isRunning (tm w)")
  case False
  assume inv: "tm_inv w"
  with False have "interval (tm w) = None" "handles_of is_tick (timers w) = []"
    by (auto simp: tm_inv_def)
  with inv False show ?thesis
    by (simp add: tm_inv_def start_fields set_interval_def sched_wf_add_timer)
qed simp

text \<open>The interval a running timer holds is a live, hence non-zero, handle.\<close>

lemma tm_inv_running:
  assumes "tm_inv w" "isRunning (tm w)"
  obtains h where "interval (tm w) = Some h" "handles_of is_tick (timers w) = [h]" "0 < h"
proof -
  from assms obtain h where h: "interval (tm w) = Some h" "handles_of is_tick (timers w) = [h]"
    by (auto simp: tm_inv_def)
  with assms(1) have "0 < h"
    using handles_of_pos [of "timers w" h is_tick] by (simp add: tm_inv_def)
  with h show ?thesis by (rule that)
qed

lemma tm_inv_pause: "tm_inv w \<Longrightarrow> tm_inv (pause w)"
proof (cases "isRunning (tm w)")
  case True
  assume inv: "tm_inv w"
  then obtain h where h: "interval (tm w) = Some h" "handles_of is_tick (timers w) = [h]" "0 < h"
    using True by (rule tm_inv_running)
  with inv True show ?thesis
    by (auto simp: tm_inv_def pause_fields sched_wf_clear)
qed simp

lemma pause_stops [simp]: "\<not> isRunning (tm (pause w))"
  by (simp add: pause_def Let_def split: option.splits)

lemma tm_inv_display [simp]: "tm_inv (w\<lparr>display := x\<rparr>) = tm_inv w"
  by (simp add: tm_inv_def)

text \<open>A field update that keeps the running state and the interval.\<close>

lemma tm_inv_set_tm:
  assumes "tm_inv w" "isRunning (f (tm w)) = isRunning (tm w)" "interval (f (tm w)) = interval (tm w)"
    and "isFinished (f (tm w)) \<longrightarrow> isFinished (tm w) \<or> \<not> isRunning (tm w)"
  shows "tm_inv (set_tm f w)"
  using assms by (auto simp: tm_inv_def)

lemma tm_inv_toggle: "tm_inv w \<Longrightarrow> tm_inv (toggle w)"
  by (simp add: toggle_def tm_inv_start tm_inv_pause)

lemma tm_inv_reset: "tm_inv w \<Longrightarrow> tm_inv (reset w)"
  unfolding reset_def by (simp add: tm_inv_set_tm tm_inv_pause)

lemma tm_inv_complete: "tm_inv w \<Longrightarrow> tm_inv (complete w)"
  unfolding complete_def Let_def playSound_def
  by (simp add: tm_inv_set_tm tm_inv_pause tm_inv_showVisualNotification)

lemma tm_inv_tick: "tm_inv w \<Longrightarrow> tm_inv (tick w)"
  unfolding tick_def Let_def by (simp add: tm_inv_set_tm tm_inv_complete)

lemma tm_inv_setState: "tm_inv w \<Longrightarrow> tm_inv (setState secs running w)"
proof -
  assume "tm_inv w"
  then have "tm_inv (reset w)" by (rule tm_inv_reset)
  then have "tm_inv (set_tm (\<lambda>t. t\<lparr>seconds := secs\<rparr>) (reset w))"
    by (simp add: tm_inv_set_tm)
  then show ?thesis
    by (simp add: setState_def Let_def tm_inv_start)
qed

lemma tm_inv_run_cb: "tm_inv w \<Longrightarrow> tm_inv (run_cb cb w)"
  by (cases cb) (simp_all add: run_cb_def tm_inv_tick tm_inv_fadeBanner)

lemma tm_inv_fire:
  assumes inv: "tm_inv w" and f: "fire (timers w) = Some (cb, sc)"
  shows "tm_inv (w\<lparr>timers := sc\<rparr>)"
proof -
  have wf: "sched_wf (timers w)" and per: "\<forall>e \<in> set (s_entries (timers w)).
      is_tick (t_cb e) \<longrightarrow> t_period e = Some 1000"
    using inv by (simp_all add: tm_inv_def)
  then have "handles_of is_tick sc = handles_of is_tick (timers w)"
    using f by (intro fire_handles_of) auto
  moreover have "sched_wf sc" using wf f by (rule sched_wf_fire)
  moreover have "\<forall>e \<in> set (s_entries sc). is_tick (t_cb e) \<longrightarrow> t_period e = Some 1000"
    using per fire_entries [OF f] by fastforce
  ultimately show ?thesis using inv by (auto simp: tm_inv_def)
qed

lemma tm_inv_init: "tm_inv (tm_init (tm_new d sb pb rb p))"
  by (simp add: tm_init_def tm_new_def tm_inv_def requestNotificationPermission_def)

lemma tm_step_inv: "tm_inv w \<Longrightarrow> tm_step e w = Some w' \<Longrightarrow> tm_inv w'"
proof (cases e)
  case Fire
  assume "tm_inv w" "tm_step e w = Some w'"
  with Fire show ?thesis
    by (auto split: option.splits intro: tm_inv_run_cb tm_inv_fire)
next
  case (Wait d)
  assume "tm_inv w" "tm_step e w = Some w'"
  with Wait show ?thesis
    by (auto simp: tm_inv_def sched_wf_wait split: if_splits)
qed (auto simp: tm_inv_start tm_inv_pause tm_inv_reset tm_inv_toggle tm_inv_complete
           tm_inv_setState split: if_splits, auto simp: tm_inv_def)

lemma tm_reach_inv: "tm_reach w \<Longrightarrow> tm_inv w"
  by (induction rule: tm_reach.induct) (auto intro: tm_inv_init tm_step_inv)

subsection \<open>What ticking and completing do\<close>

lemma tick_fields_continue:
  assumes "\<not> (truthy_num (targetSeconds (tm w)) \<and> int (Suc (seconds (tm w))) \<ge> the (targetSeconds (tm w)))"
  shows "tm (tick w) = (tm w)\<lparr>seconds := Suc (seconds (tm w))\<rparr>"
    and "timers (tick w) = timers w"
    and "count_list (effects (tick w)) PlaySound = count_list (effects w) PlaySound"
  using assms by (auto simp: tick_def Let_def)

lemma complete_fields:
  assumes "isRunning (tm w)" "interval (tm w) = Some h" "h \<noteq> 0"
  shows "tm (complete w) = (tm w)\<lparr>isRunning := False, interval := None, isFinished := True\<rparr>"
    and "count_list (effects (complete w)) PlaySound = Suc (count_list (effects w) PlaySound)"
  using assms by (simp_all add: complete_def Let_def pause_fields playSound_def)

lemma tick_fields_complete:
  assumes "truthy_num (targetSeconds (tm w)) \<and> int (Suc (seconds (tm w))) \<ge> the (targetSeconds (tm w))"
    and "isRunning (tm w)" "interval (tm w) = Some h" "h \<noteq> 0"
  shows "tm (tick w) = (tm w)\<lparr>seconds := Suc (seconds (tm w)), isRunning := False,
                                 interval := None, isFinished := True\<rparr>"
    and "count_list (effects (tick w)) PlaySound = Suc (count_list (effects w) PlaySound)"
  using assms by (auto simp: tick_def Let_def complete_fields)

lemma tm_run_Cons_Some: "tm_step e w = Some w1 \<Longrightarrow> tm_run (e # es) w = tm_run es w1"
  by simp

text \<open>One tick of a countdown that does not reach its target.\<close>

lemma countdown_step:
  assumes c: "counting t w" and lt: "Suc (seconds (tm w)) < t"
  shows "\<exists>w'. tm_step Fire w = Some w' \<and> counting t w' \<and> seconds (tm w') = Suc (seconds (tm w)) \<and>
              count_list (effects w') PlaySound = count_list (effects w) PlaySound"
proof -
  from c obtain e where e: "s_entries (timers w) = [e]" "t_cb e = Tick" "t_period e = Some 1000"
    "interval (tm w) = Some (t_handle e)" "t_handle e \<noteq> 0" and r: "isRunning (tm w)"
    and tg: "targetSeconds (tm w) = Some (int t)"
    by (auto simp: counting_def)
  let ?sc = "(timers w)\<lparr>s_now := t_due e, s_entries := [e\<lparr>t_due := t_due e + 1000\<rparr>]\<rparr>"
  let ?w1 = "w\<lparr>timers := ?sc\<rparr>"
  have step: "tm_step Fire w = Some (tick ?w1)"
    using e by (simp add: fire_single run_cb_def)
  have nc: "\<not> (truthy_num (targetSeconds (tm ?w1)) \<and>
               int (Suc (seconds (tm ?w1))) \<ge> the (targetSeconds (tm ?w1)))"
    using tg lt by simp
  show ?thesis
    using tick_fields_continue [OF nc] step e r tg
    by (auto simp: counting_def)
qed

text \<open>The tick that reaches the target completes the countdown.\<close>

lemma countdown_last:
  assumes c: "counting t w" and eq: "Suc (seconds (tm w)) = t"
  shows "\<exists>w'. tm_step Fire w = Some w' \<and> isFinished (tm w') \<and> \<not> isRunning (tm w') \<and>
              seconds (tm w') = t \<and>
              count_list (effects w') PlaySound = Suc (count_list (effects w) PlaySound)"
proof -
  from c obtain e where e: "s_entries (timers w) = [e]" "t_cb e = Tick" "t_period e = Some 1000"
    "interval (tm w) = Some (t_handle e)" "t_handle e \<noteq> 0" and r: "isRunning (tm w)"
    and tg: "targetSeconds (tm w) = Some (int t)"
    by (auto simp: counting_def)
  let ?sc = "(timers w)\<lparr>s_now := t_due e, s_entries := [e\<lparr>t_due := t_due e + 1000\<rparr>]\<rparr>"
  let ?w1 = "w\<lparr>timers := ?sc\<rparr>"
  have step: "tm_step Fire w = Some (tick ?w1)"
    using e by (simp add: fire_single run_cb_def)
  have fin: "truthy_num (targetSeconds (tm ?w1)) \<and>
               int (Suc (seconds (tm ?w1))) \<ge> the (targetSeconds (tm ?w1))"
    using tg eq by auto
  show ?thesis
    using tick_fields_complete [OF fin, of "t_handle e"] step e r eq
    by auto
qed

lemma countdown_run:
  "counting t w \<Longrightarrow> seconds (tm w) + k = t \<Longrightarrow> 0 < k \<Longrightarrow>
     \<exists>w'. tm_run (replicate k Fire) w = Some w' \<and> isFinished (tm w') \<and> \<not> isRunning (tm w') \<and>
          seconds (tm w') = t \<and>
          count_list (effects w') PlaySound = Suc (count_list (effects w) PlaySound)"
proof (induction k arbitrary: w)
  case 0
  then show ?case by simp
next
  case (Suc k)
  show ?case
  proof (cases k)
    case 0
    with Suc.prems countdown_last [of t w] show ?thesis by auto
  next
    case (Suc k')
    with Suc.prems obtain w1 where w1: "tm_step Fire w = Some w1" "counting t w1"
      "seconds (tm w1) = Suc (seconds (tm w))"
      "count_list (effects w1) PlaySound = count_list (effects w) PlaySound"
      using countdown_step [of t w] by auto
    with Suc.prems Suc.IH [of w1] \<open>k = Suc k'\<close> show ?thesis by auto
  qed
qed

subsection \<open>Shared facts for the properties\<close>

lemma tm_inv_ticks:
  "tm_inv w \<Longrightarrow> length (handles_of is_tick (timers w)) = (if isRunning (tm w) then 1 else 0)"
  by (auto simp: tm_inv_def split: option.splits)

lemma start_running [simp]: "isRunning (tm (start target w))"
  by (cases "isRunning (tm w)") (simp_all add: start_fields)

lemma pause_seconds [simp]: "seconds (tm (pause w)) = seconds (tm w)"
  by (simp add: pause_def Let_def split: option.splits)

lemma start_seconds [simp]: "seconds (tm (start target w)) = seconds (tm w)"
  by (cases "isRunning (tm w)") (simp_all add: start_fields)

lemma tm_reach_start: "tm_reach w \<Longrightarrow> tm_reach (start target w)"
  by (rule tm_reach.step [of w "ApiStart target"]) simp_all

lemma tm_reach_fresh: "tm_reach (tm_init (tm_new d sb pb rb p))"
  by (rule tm_reach.init)

lemma tm_fresh_fields [simp]:
  "tm (tm_init (tm_new d sb pb rb p)) =
     \<lparr>seconds = 0, isRunning = False, isFinished = False, interval = None,
      targetSeconds = None, onTick = False, onComplete = False\<rparr>"
  "timers (tm_init (tm_new d sb pb rb p)) = sched_init"
  "count_list (effects (tm_init (tm_new d sb pb rb p))) PlaySound = 0"
  by (simp_all add: tm_init_def tm_new_def requestNotificationPermission_def)

lemma counting_start_fresh:
  "0 < t \<Longrightarrow> counting t (start (Some (int t)) (tm_init (tm_new d sb pb rb p)))"
  by (simp add: counting_def start_fields set_interval_def)

subsection \<open>A resumed stopwatch\<close>

lemma tm_fire_exists:
  assumes "tm_inv w" "isRunning (tm w)"
  shows "\<exists>cb sc. fire (timers w) = Some (cb, sc)"
proof -
  obtain h where "handles_of is_tick (timers w) = [h]" using assms by (rule tm_inv_running)
  then have "s_entries (timers w) \<noteq> []" by (auto simp: handles_of_def)
  then show ?thesis by (auto simp: fire_def split: option.split)
qed

lemma stopwatch_step:
  assumes inv: "tm_inv w" and r: "isRunning (tm w)" and tg: "targetSeconds (tm w) = None"
    and nf: "\<not> isFinished (tm w)"
  shows "\<exists>w'. tm_step Fire w = Some w' \<and> tm_inv w' \<and> isRunning (tm w') \<and>
              targetSeconds (tm w') = None \<and> \<not> isFinished (tm w')"
proof -
  obtain cb sc where f: "fire (timers w) = Some (cb, sc)" using tm_fire_exists [OF inv r] by blast
  let ?w1 = "run_cb cb (w\<lparr>timers := sc\<rparr>)"
  have step: "tm_step Fire w = Some ?w1" using f by simp
  have "tm ?w1 = tm w \<or> tm ?w1 = (tm w)\<lparr>seconds := Suc (seconds (tm w))\<rparr>"
    using tg by (cases cb) (simp_all add: run_cb_def tick_fields_continue)
  moreover have "tm_inv ?w1" using inv step by (rule tm_step_inv)
  ultimately show ?thesis using step r tg nf by auto
qed

lemma stopwatch_run:
  "tm_inv w \<Longrightarrow> isRunning (tm w) \<Longrightarrow> targetSeconds (tm w) = None \<Longrightarrow> \<not> isFinished (tm w) \<Longrightarrow>
   \<exists>w'. tm_run (replicate k Fire) w = Some w' \<and> isRunning (tm w') \<and> \<not> isFinished (tm w')"
proof (induction k arbitrary: w)
  case 0
  then show ?case by simp
next
  case (Suc k)
  then obtain w1 where "tm_step Fire w = Some w1" "tm_inv w1" "isRunning (tm w1)"
    "targetSeconds (tm w1) = None" "\<not> isFinished (tm w1)"
    using stopwatch_step by blast
  with Suc.IH [of w1] show ?case by auto
qed

lemma toggle_twice_fields:
  assumes "tm_inv w" "isRunning (tm w)"
  shows "tm_inv (toggle (toggle w))" "isRunning (tm (toggle (toggle w)))"
    "targetSeconds (tm (toggle (toggle w))) = None" "\<not> isFinished (tm (toggle (toggle w)))"
proof -
  show "tm_inv (toggle (toggle w))" using assms(1) by (intro tm_inv_toggle)
  have "\<not> isRunning (tm (toggle w))" using assms(2) by (simp add: toggle_def)
  then show "isRunning (tm (toggle (toggle w)))" "targetSeconds (tm (toggle (toggle w))) = None"
    "\<not> isFinished (tm (toggle (toggle w)))"
    by (simp_all add: toggle_def start_fields)
qed

subsection \<open>Snapshots\<close>

lemma setState_fields:
  "seconds (tm (setState s r w)) = s" "isRunning (tm (setState s r w)) = r"
  "isFinished (tm (setState s r w)) = False" "targetSeconds (tm (setState s r w)) = None"
proof -
  let ?w1 = "set_tm (\<lambda>t. t\<lparr>seconds := s\<rparr>) (reset w)"
  have w1: "seconds (tm ?w1) = s" "\<not> isRunning (tm ?w1)" "\<not> isFinished (tm ?w1)" "targetSeconds (tm ?w1) = None"
    by (simp_all add: reset_def)
  show "seconds (tm (setState s r w)) = s" "isRunning (tm (setState s r w)) = r"
    "isFinished (tm (setState s r w)) = False" "targetSeconds (tm (setState s r w)) = None"
    using w1 by (simp_all add: setState_def Let_def start_fields)
qed

subsection \<open>The completion banner\<close>

lemma complete_banner:
  assumes "s_entries (timers w) = []"
  shows "banners (complete w) = banners w @ [(next_banner w, False)]"
    "next_banner (complete w) = Suc (next_banner w)"
    "s_entries (timers (complete w)) =
       [\<lparr>t_handle = s_next (timers w), t_due = s_now (timers w) + 3000, t_period = None,
         t_cb = FadeBanner (next_banner w)\<rparr>]"
    "s_now (timers (complete w)) = s_now (timers w)" "s_next (timers (complete w)) = Suc (s_next (timers w))"
  using assms
  by (simp_all add: complete_def Let_def pause_def playSound_def showVisualNotification_def set_timeout_def
      add_timer_def split: option.split prod.split)

section \<open>Properties\<close>

text \<open>
  C1. At most one tick is ever scheduled: in every reachable world the browser holds
  exactly one \<open>Tick\<close> interval while the timer runs and none while it does not, so the
  elapsed time never advances faster than once per period.
\<close>

theorem tick_interval_unique:
  "tm_reach w \<Longrightarrow> length (handles_of is_tick (timers w)) = (if isRunning (tm w) then 1 else 0)"
  by (blast intro: tm_inv_ticks tm_reach_inv)

theorem tick_interval_unique_witness:
  "tm_reach (start None (tm_init (tm_new None None None False NoNotificationApi))) \<and>
   length (handles_of is_tick (timers (start None (tm_init (tm_new None None None False NoNotificationApi))))) = 1"
proof -
  have r: "tm_reach (start None (tm_init (tm_new None None None False NoNotificationApi)))"
    by (rule tm_reach_start [OF tm_reach_fresh])
  show ?thesis using tick_interval_unique [OF r] r by simp
qed

text \<open>
  C2. Calling \<open>start()\<close> twice without a \<open>pause()\<close> or \<open>reset()\<close> in between
  is the same as calling it once, and leaves exactly one tick interval.
\<close>

theorem start_twice_one_interval:
  assumes "tm_reach w"
  shows "start t2 (start t1 w) = start t1 w \<and>
         length (handles_of is_tick (timers (start t2 (start t1 w)))) = 1"
proof -
  have "tm_inv (start t1 w)" using assms by (blast intro: tm_reach_inv tm_inv_start)
  then show ?thesis using tm_inv_ticks [of "start t1 w"] by simp
qed

theorem start_twice_one_interval_witness:
  "tm_reach (tm_init (tm_new None None None False NoNotificationApi)) \<and>
   length (handles_of is_tick (timers (start (Some 3) (start None
     (tm_init (tm_new None None None False NoNotificationApi)))))) = 1"
  using start_twice_one_interval [OF tm_reach_fresh, of "Some 3" None None None None False
      NoNotificationApi] tm_reach_fresh by blast

text \<open>
  C3. \<open>pause()\<close> followed by \<open>start()\<close> resumes from the elapsed time held before,
  not from zero, and the timer runs again.
\<close>

theorem pause_start_resumes:
  "isRunning (tm (start t (pause w))) \<and> seconds (tm (start t (pause w))) = seconds (tm w)"
  by simp

text \<open>
  C4. \<open>reset()\<close> yields elapsed 0, not running, not finished and no target, whatever
  the state before.
\<close>

theorem reset_clears:
  "getState (reset w) =
     \<lparr>snap_seconds = 0, snap_isRunning = False, snap_isFinished = False, snap_targetSeconds = None\<rparr>"
  by (simp add: getState_def reset_def)

text \<open>
  C5. A countdown started with \<open>start(t)\<close>, \<open>t > 0\<close>, on a freshly initialised
  timer finishes after exactly \<open>t\<close> ticks: it is then finished and stopped with
  elapsed time \<open>t\<close>, and the completion sound has played exactly once.
\<close>

theorem countdown_completes:
  assumes "0 < t"
  shows "\<exists>w'. tm_run (ApiStart (Some (int t)) # replicate t Fire) (tm_init (tm_new d sb pb rb p)) = Some w' \<and>
              isFinished (tm w') \<and> \<not> isRunning (tm w') \<and> seconds (tm w') = t \<and>
              count_list (effects w') PlaySound = 1"
proof -
  let ?w1 = "start (Some (int t)) (tm_init (tm_new d sb pb rb p))"
  have c: "counting t ?w1" using assms by (rule counting_start_fresh)
  have s0: "seconds (tm ?w1) + t = t" by simp
  have e0: "count_list (effects ?w1) PlaySound = 0"
    by (simp add: start_fields)
  from countdown_run [OF c s0 assms] e0 show ?thesis by simp
qed

theorem countdown_completes_witness:
  "0 < (5::nat) \<and>
   (\<exists>w'. tm_run (ApiStart (Some 5) # replicate 5 Fire)
          (tm_init (tm_new None (Some True) (Some False) True PermGranted)) = Some w' \<and>
        isFinished (tm w') \<and> \<not> isRunning (tm w') \<and> seconds (tm w') = 5 \<and>
        count_list (effects w') PlaySound = 1)"
  using countdown_completes [of 5 None "Some True" "Some False" True PermGranted] by simp

text \<open>
  C6. Once the timer has stopped (paused, reset or finished), the timers alone never
  change it again: any sequence of timer firings and elapsed time leaves the timer's
  fields and the visible effects as they were, so a finished countdown never ticks or
  re-fires its completion effects.
\<close>

theorem stopped_timer_quiescent:
  assumes "tm_reach w" "\<not> isRunning (tm w)"
    and "\<forall>e \<in> set es. e = Fire \<or> (\<exists>d. e = Wait d)" "tm_run es w = Some w'"
  shows "tm w' = tm w \<and> effects w' = effects w"
proof -
  have "tm_inv w" using assms(1) by (rule tm_reach_inv)
  from this assms(2-4) show ?thesis
  proof (induction es arbitrary: w)
    case Nil
    then show ?case by simp
  next
    case (Cons e es)
    then obtain w1 where w1: "tm_step e w = Some w1" "tm_run es w1 = Some w'"
      by (auto split: option.splits)
    have inv1: "tm_inv w1" using Cons.prems(1) w1(1) by (rule tm_step_inv)
    have same: "tm w1 = tm w \<and> effects w1 = effects w"
    proof (cases "e = Fire")
      case True
      with w1(1) obtain cb sc where f: "fire (timers w) = Some (cb, sc)" and
        w1e: "w1 = run_cb cb (w\<lparr>timers := sc\<rparr>)"
        by (auto split: option.splits)
      have "handles_of is_tick (timers w) = []"
        using Cons.prems(1,2) by (auto simp: tm_inv_def)
      then have "\<not> is_tick cb" using fire_not_in_handles [OF f, of is_tick] by blast
      then show ?thesis using w1e by (cases cb) (simp_all add: run_cb_def is_tick_def)
    next
      case False
      with Cons.prems(3) obtain d where "e = Wait d" by auto
      with w1(1) show ?thesis by (auto split: if_splits)
    qed
    with Cons.IH [OF inv1] Cons.prems(2,3) w1(2) show ?case by auto
  qed
qed

theorem stopped_timer_quiescent_witness:
  "tm_reach (tm_init (tm_new None None None False NoNotificationApi)) \<and>
   \<not> isRunning (tm (tm_init (tm_new None None None False NoNotificationApi))) \<and>
   tm_run [Wait 5] (tm_init (tm_new None None None False NoNotificationApi)) =
     Some ((tm_init (tm_new None None None False NoNotificationApi))
        \<lparr>timers := wait 5 sched_init\<rparr>) \<and>
   tm ((tm_init (tm_new None None None False NoNotificationApi))\<lparr>timers := wait 5 sched_init\<rparr>) =
     tm (tm_init (tm_new None None None False NoNotificationApi))"
proof -
  have run: "tm_run [Wait 5] (tm_init (tm_new None None None False NoNotificationApi)) =
     Some ((tm_init (tm_new None None None False NoNotificationApi))\<lparr>timers := wait 5 sched_init\<rparr>)"
    by (simp add: can_wait_def)
  have "\<forall>e \<in> set [Wait 5]. e = Fire \<or> (\<exists>d. e = Wait d)" by simp
  from stopped_timer_quiescent [OF tm_reach_fresh _ this run] run tm_reach_fresh
  show ?thesis by simp
qed

text \<open>C7. A finished timer is never running, in every reachable world.\<close>

theorem finished_not_running: "tm_reach w \<Longrightarrow> isFinished (tm w) \<Longrightarrow> \<not> isRunning (tm w)"
  by (auto dest: tm_reach_inv simp: tm_inv_def)

theorem finished_not_running_witness:
  "tm_reach (complete (tm_init (tm_new None None None False NoNotificationApi))) \<and>
   isFinished (tm (complete (tm_init (tm_new None None None False NoNotificationApi)))) \<and>
   \<not> isRunning (tm (complete (tm_init (tm_new None None None False NoNotificationApi))))"
proof -
  have r: "tm_reach (complete (tm_init (tm_new None None None False NoNotificationApi)))"
    by (rule tm_reach.step [OF tm_reach_fresh, of ApiComplete]) simp
  have f: "isFinished (tm (complete (tm_init (tm_new None None None False NoNotificationApi))))"
    by (simp add: complete_def Let_def playSound_def)
  show ?thesis using finished_not_running [OF r f] r f by simp
qed

text \<open>
  C28. Pausing a running countdown with the space key and resuming it with the space
  key turns it into a stopwatch: \<open>toggle\<close> calls \<open>start()\<close> with no target, so the
  target is gone and no number of ticks ever finishes the timer.
\<close>

theorem toggle_resume_never_completes:
  assumes "tm_reach w" "isRunning (tm w)"
  shows "targetSeconds (tm (toggle (toggle w))) = None \<and>
         (\<forall>k. \<exists>w'. tm_run (replicate k Fire) (toggle (toggle w)) = Some w' \<and>
                   isRunning (tm w') \<and> \<not> isFinished (tm w'))"
proof -
  have inv: "tm_inv w" using assms(1) by (rule tm_reach_inv)
  note f = toggle_twice_fields [OF inv assms(2)]
  show ?thesis using f(3) stopwatch_run [OF f] by blast
qed

theorem toggle_resume_never_completes_witness:
  "tm_reach (start (Some 3) (tm_init (tm_new None None None False PermDenied))) \<and>
   targetSeconds (tm (start (Some 3) (tm_init (tm_new None None None False PermDenied)))) = Some 3 \<and>
   (\<exists>w'. tm_run (replicate 10 Fire) (toggle (toggle (start (Some 3) (tm_init (tm_new None None None False PermDenied))))) = Some w' \<and>
      isRunning (tm w') \<and> \<not> isFinished (tm w'))"
proof -
  let ?w = "start (Some 3) (tm_init (tm_new None None None False PermDenied))"
  have r: "tm_reach ?w" using tm_reach_fresh by (rule tm_reach_start)
  have "targetSeconds (tm ?w) = Some 3" by (simp add: start_fields)
  with toggle_resume_never_completes [OF r start_running] r show ?thesis by blast
qed

text \<open>
  C29. Restoring a snapshot with \<open>setState(seconds, isRunning)\<close> gives back the state
  \<open>getState\<close> returned exactly when that state had no countdown target and was not
  finished: the target and the finished flag of the snapshot are lost.
\<close>

theorem snapshot_restore_iff:
  "getState (setState (snap_seconds (getState w)) (snap_isRunning (getState w)) w0) = getState w \<longleftrightarrow>
   targetSeconds (tm w) = None \<and> \<not> isFinished (tm w)"
  by (auto simp: getState_def setState_fields)

text \<open>
  C30. The completion banner's life: completing with nothing else scheduled and no
  banner shown puts one banner on screen, starts fading it 3 s later and removes it
  0.5 s after that, leaving no timer behind.
\<close>

theorem banner_lifecycle:
  assumes "s_entries (timers w) = []" "banners w = []"
  shows "\<exists>w1 w2 w3. tm_step ApiComplete w = Some w1 \<and> tm_step Fire w1 = Some w2 \<and> tm_step Fire w2 = Some w3 \<and>
           banners w1 = [(next_banner w, False)] \<and> banners w2 = [(next_banner w, True)] \<and> banners w3 = [] \<and>
           s_now (timers w2) = s_now (timers w) + 3000 \<and> s_now (timers w3) = s_now (timers w) + 3500 \<and>
           s_entries (timers w3) = []"
proof -
  let ?w1 = "complete w"
  let ?e = "\<lparr>t_handle = s_next (timers w), t_due = s_now (timers w) + 3000, t_period = None,
             t_cb = FadeBanner (next_banner w)\<rparr>"
  have c: "banners ?w1 = [(next_banner w, False)]" "s_entries (timers ?w1) = [?e]"
    "s_next (timers ?w1) = Suc (s_next (timers w))"
    using complete_banner [OF assms(1)] assms(2) by simp_all
  let ?w2 = "fadeBanner (next_banner w) (?w1\<lparr>timers := (timers ?w1)\<lparr>s_now := t_due ?e, s_entries := []\<rparr>\<rparr>)"
  have s2: "tm_step Fire ?w1 = Some ?w2" using c(2) by (simp add: fire_single run_cb_def)
  have b2: "banners ?w2 = [(next_banner w, True)]" using c(1) by (simp add: fadeBanner_def Let_def split: prod.split)
  let ?e2 = "\<lparr>t_handle = Suc (s_next (timers w)), t_due = s_now (timers w) + 3500, t_period = None,
              t_cb = RemoveBanner (next_banner w)\<rparr>"
  have t2: "s_entries (timers ?w2) = [?e2]" "s_now (timers ?w2) = s_now (timers w) + 3000"
    using c(3) by (simp_all add: set_timeout_def add_timer_def)
  let ?w3 = "removeBanner (next_banner w) (?w2\<lparr>timers := (timers ?w2)\<lparr>s_now := t_due ?e2, s_entries := []\<rparr>\<rparr>)"
  have s3: "tm_step Fire ?w2 = Some ?w3" using t2(1) by (simp add: fire_single run_cb_def)
  have "banners ?w3 = []" using b2 by (simp add: removeBanner_def)
  moreover have "s_now (timers ?w3) = s_now (timers w) + 3500" "s_entries (timers ?w3) = []" by simp_all
  ultimately show ?thesis using s2 s3 c(1) b2 t2(2) by auto
qed

theorem banner_lifecycle_witness:
  "s_entries (timers (tm_init (tm_new None None None False PermDenied))) = [] \<and>
   banners (tm_init (tm_new None None None False PermDenied)) = [] \<and>
   (\<exists>w1 w2 w3. tm_step ApiComplete (tm_init (tm_new None None None False PermDenied)) = Some w1 \<and>
      tm_step Fire w1 = Some w2 \<and> tm_step Fire w2 = Some w3 \<and>
      banners w1 = [(0, False)] \<and> banners w2 = [(0, True)] \<and> banners w3 = [] \<and>
      s_now (timers w2) = 3000 \<and> s_now (timers w3) = 3500 \<and> s_entries (timers w3) = [])"
proof -
  have a: "s_entries (timers (tm_init (tm_new None None None False PermDenied))) = []"
    "banners (tm_init (tm_new None None None False PermDenied)) = []"
    "next_banner (tm_init (tm_new None None None False PermDenied)) = 0"
    by (simp_all add: tm_init_def tm_new_def requestNotificationPermission_def)
  show ?thesis using banner_lifecycle [OF a(1,2)] a by simp
qed

end
