(* ===== verification/WorkoutRenderer.thy ===== *)
theory WorkoutRenderer
  imports Prelude
begin

text \<open>
  \<open>class WorkoutRenderer\<close> of src/scripts/ui/workout-renderer.js. An exercise is the
  record \<open>exercise\<close>, with the fields the code destructures; optional fields are
  \<open>option\<close>s (\<open>None\<close> for absent), and the three fields the code only tests for
  truthiness without fixing their type (\<open>reps\<close>, \<open>superset\<close>, \<open>setGroup\<close>) are
  JavaScript values. The HTML the code builds is modelled as a display tree: a
  \<open>card\<close> per exercise with its parameter list, its set rows, notes and progression;
  the container's content is a \<open>rendered\<close> value. Text interpolation of a number
  is kept as the value itself (the tree holds \<open>JNum w\<close> where the HTML holds
  \<open>${weight}\<close>), since no property depends on the decimal text of a weight.
\<close>

section \<open>Data\<close>

record exercise =
  ex_id :: string
  ex_name :: string
  ex_type :: "string option"
  category :: "string option"
  muscles :: "string list option"
  sets :: "nat option"
  reps :: jsval
  weight :: "rat option"
  rpe :: "rat option"
  rest :: "nat option"
  tempo :: "string option"
  ex_notes :: "string option"
  superset :: jsval
  setGroup :: jsval
  progression :: "(rat \<times> rat) option"
  isSuperset :: bool

record workout_day =
  exercises :: "exercise list option"

text \<open>The labels of the parameter summary, in the code's order.\<close>

datatype param_label = SERIES | REPS | POIDS | RPE | REPOS | TEMPO

text \<open>A parameter: label, value and the unit text appended to it (\<open>kg\<close>, \<open>s\<close>).\<close>

datatype param = Param param_label jsval string

record serie_row =
  row_set :: nat
  row_reps :: jsval
  row_weight :: "rat option"
  row_rest :: "nat option"
  row_completed :: bool
  check_exercise_id :: string
  check_set_number :: nat

datatype card_kind = Cardio | Strength

record card =
  card_superset :: bool
  card_id :: string
  card_kind :: card_kind
  card_name :: string
  card_category :: "string option"
  card_muscles :: "string option"
  card_params :: "param list option"
  card_series :: "serie_row list option"
  card_notes :: "string option"
  card_progression :: "(rat \<times> rat) option"

datatype rendered = Unrendered | RestDay | Cards "card list"

text \<open>The renderer object: its container element, \<open>None\<close> when it was not found.\<close>

record renderer =
  container :: "rendered option"

section \<open>Operations\<close>

definition wr_new :: renderer where
  "wr_new = \<lparr>container = None\<rparr>"

text \<open>\<open>init()\<close>: look the container up (\<open>found\<close> says whether the page has it).\<close>

definition wr_init :: "bool \<Rightarrow> renderer \<Rightarrow> renderer" where
  "wr_init found r = r\<lparr>container := (if found then Some Unrendered else None)\<rparr>"

text \<open>One element of the \<open>map\<close> of \<open>detectSupersets\<close>: the exercise and the next one.\<close>

definition mark_superset :: "exercise \<Rightarrow> exercise option \<Rightarrow> exercise" where
  "mark_superset e nextExercise =
     (if truthy (superset e) \<or> truthy (setGroup e) then e\<lparr>isSuperset := True\<rparr>
      else (case nextExercise of
              Some n \<Rightarrow> if category e = category n \<and> rest e = rest n
                        then e\<lparr>isSuperset := True\<rparr> else e
            | None \<Rightarrow> e))"

definition detectSupersets :: "exercise list \<Rightarrow> exercise list" where
  "detectSupersets exs =
     map (\<lambda>i. mark_superset (exs ! i) (js_index exs (Suc i))) [0..<length exs]"

definition renderParams :: "exercise \<Rightarrow> param list option" where
  "renderParams e =
     (let params =
        (if truthy_num (sets e) then [Param SERIES (JNum (of_nat (the (sets e)))) []] else []) @
        (if truthy (reps e) then [Param REPS (reps e) []] else []) @
        (if truthy_num (weight e) then [Param POIDS (JNum (the (weight e))) ''kg''] else []) @
        (if truthy_num (rpe e) then [Param RPE (JNum (the (rpe e))) []] else []) @
        (if truthy_num (rest e) then [Param REPOS (JNum (of_nat (the (rest e)))) ''s''] else []) @
        (if truthy_str (tempo e) then [Param TEMPO (JStr (the (tempo e))) []] else [])
      in if params = [] then None else Some params)"

definition renderSeries :: "exercise \<Rightarrow> string \<Rightarrow> serie_row list option" where
  "renderSeries e exerciseId =
     (if \<not> truthy_num (sets e) then None
      else Some (map (\<lambda>setNumber.
              let isCompleted = False in
              \<lparr>row_set = setNumber, row_reps = reps e,
               row_weight = (if truthy_num (weight e) then weight e else None),
               row_rest = (if truthy_num (rest e) then rest e else None),
               row_completed = isCompleted,
               check_exercise_id = exerciseId, check_set_number = setNumber\<rparr>)
             [1..<Suc (the (sets e))]))"

definition renderExercise :: "exercise \<Rightarrow> nat \<Rightarrow> nat \<Rightarrow> card" where
  "renderExercise e index week =
     (let categoryLabel = (case category e of None \<Rightarrow> [] | Some c \<Rightarrow> c);
          musclesLabel = (case muscles e of None \<Rightarrow> [] | Some ms \<Rightarrow> js_join '', '' ms)
      in \<lparr>card_superset = isSuperset e,
          card_id = ex_id e,
          card_kind = (if ex_type e = Some ''cardio'' then Cardio else Strength),
          card_name = ex_name e,
          card_category = (if categoryLabel \<noteq> [] then Some categoryLabel else None),
          card_muscles = (if musclesLabel \<noteq> [] then Some musclesLabel else None),
          card_params = renderParams e,
          card_series = renderSeries e (ex_id e),
          card_notes = (if truthy_str (ex_notes e) then ex_notes e else None),
          card_progression = progression e\<rparr>)"

definition render :: "workout_day option \<Rightarrow> nat \<Rightarrow> renderer \<Rightarrow> renderer" where
  "render workoutDay week r =
     (case container r of
        None \<Rightarrow> r
      | Some _ \<Rightarrow>
          (case workoutDay of
             None \<Rightarrow> r\<lparr>container := Some RestDay\<rparr>
           | Some wd \<Rightarrow>
               (case exercises wd of
                  None \<Rightarrow> r\<lparr>container := Some RestDay\<rparr>
                | Some exs \<Rightarrow>
                    if exs = [] then r\<lparr>container := Some RestDay\<rparr>
                    else let withSupersets = detectSupersets exs in
                      r\<lparr>container := Some (Cards (map (\<lambda>i. renderExercise (withSupersets ! i) i week)
                                                       [0..<length withSupersets]))\<rparr>)))"

section \<open>Specification-side notions\<close>

text \<open>The label of a parameter, and when the spec calls an attribute present.\<close>

fun param_lbl :: "param \<Rightarrow> param_label" where
  "param_lbl (Param l v u) = l"

fun param_present :: "param_label \<Rightarrow> exercise \<Rightarrow> bool" where
  "param_present SERIES e = truthy_num (sets e)"
| "param_present REPS e = truthy (reps e)"
| "param_present POIDS e = truthy_num (weight e)"
| "param_present RPE e = truthy_num (rpe e)"
| "param_present REPOS e = truthy_num (rest e)"
| "param_present TEMPO e = truthy_str (tempo e)"

text \<open>An exercise with an id and every optional field absent (for the examples).\<close>

definition blank_exercise :: "string \<Rightarrow> exercise" where
  "blank_exercise i =
     \<lparr>ex_id = i, ex_name = i, ex_type = None, category = None, muscles = None, sets = None,
      reps = JUndefined, weight = None, rpe = None, rest = None, tempo = None, ex_notes = None,
      superset = JUndefined, setGroup = JUndefined, progression = None, isSuperset = False\<rparr>"

section \<open>Lemmas\<close>

lemma length_detectSupersets [simp]: "length (detectSupersets exs) = length exs"
  by (simp add: detectSupersets_def)

lemma mark_superset_eq:
  "mark_superset e nextExercise =
     e\<lparr>isSuperset := isSuperset e \<or> truthy (superset e) \<or> truthy (setGroup e) \<or>
        (case nextExercise of Some n \<Rightarrow> category e = category n \<and> rest e = rest n
         | None \<Rightarrow> False)\<rparr>"
  by (cases nextExercise) (auto simp: mark_superset_def)

lemma nth_detectSupersets:
  "i < length exs \<Longrightarrow>
     detectSupersets exs ! i =
       (exs ! i)\<lparr>isSuperset := isSuperset (exs ! i) \<or> truthy (superset (exs ! i)) \<or>
          truthy (setGroup (exs ! i)) \<or>
          (Suc i < length exs \<and> category (exs ! i) = category (exs ! Suc i) \<and>
           rest (exs ! i) = rest (exs ! Suc i))\<rparr>"
  by (simp add: detectSupersets_def mark_superset_eq js_index_def)

lemma renderSeries_Some:
  "truthy_num (sets e) \<Longrightarrow> renderSeries e eid = Some (map (\<lambda>n.
      \<lparr>row_set = n, row_reps = reps e,
       row_weight = (if truthy_num (weight e) then weight e else None),
       row_rest = (if truthy_num (rest e) then rest e else None),
       row_completed = False, check_exercise_id = eid, check_set_number = n\<rparr>)
      [1..<Suc (the (sets e))])"
  by (simp add: renderSeries_def)

lemma renderSeries_None: "\<not> truthy_num (sets e) \<Longrightarrow> renderSeries e eid = None"
  by (simp add: renderSeries_def)

lemma render_cards_eq:
  "container r \<noteq> None \<Longrightarrow> exercises wd = Some exs \<Longrightarrow> exs \<noteq> [] \<Longrightarrow>
     container (render (Some wd) week r) =
       Some (Cards (map (\<lambda>i. renderExercise (detectSupersets exs ! i) i week) [0..<length exs]))"
  by (auto simp: render_def Let_def)

section \<open>Properties\<close>

text \<open>
  C11. Superset detection, element by element: the \<open>i\<close>-th exercise comes out
  unchanged except that it is marked a superset exactly when it already was, when its
  \<open>superset\<close> or \<open>setGroup\<close> field is truthy, or when the exercise right after it
  has the same category and the same rest (a one-step lookahead).
\<close>

theorem detectSupersets_rule:
  assumes "i < length exs"
  shows "detectSupersets exs ! i =
           (exs ! i)\<lparr>isSuperset := isSuperset (exs ! i) \<or> truthy (superset (exs ! i)) \<or>
              truthy (setGroup (exs ! i)) \<or>
              (Suc i < length exs \<and> category (exs ! i) = category (exs ! Suc i) \<and>
               rest (exs ! i) = rest (exs ! Suc i))\<rparr>"
  using assms by (rule nth_detectSupersets)

theorem detectSupersets_rule_witness:
  "0 < length [blank_exercise ''a'', blank_exercise ''b''] \<and>
   detectSupersets [blank_exercise ''a'', blank_exercise ''b''] ! 0 =
     (blank_exercise ''a'')\<lparr>isSuperset := True\<rparr>"
  using detectSupersets_rule [of 0 "[blank_exercise ''a'', blank_exercise ''b'']"]
  by (simp add: blank_exercise_def)

text \<open>
  C12. An absent day, a day without an exercise list, or an empty list renders the
  rest-day placeholder (when the container exists), not an error.
\<close>

theorem render_rest_day:
  assumes "container r \<noteq> None"
    and "workoutDay = None \<or> exercises (the workoutDay) = None \<or> exercises (the workoutDay) = Some []"
  shows "container (render workoutDay week r) = Some RestDay"
  using assms by (auto simp: render_def split: option.splits)

theorem render_rest_day_witness:
  "container (wr_init True wr_new) \<noteq> None \<and>
   container (render (Some \<lparr>exercises = Some []\<rparr>) 1 (wr_init True wr_new)) = Some RestDay"
  using render_rest_day [of "wr_init True wr_new" "Some \<lparr>exercises = Some []\<rparr>" 1]
  by (simp add: wr_init_def wr_new_def)

text \<open>
  C13. Without a container (\<open>init\<close> did not find \<open>workout-container\<close>), \<open>render\<close>
  logs and does nothing: the renderer is unchanged, whatever the day.
\<close>

theorem render_no_container: "container r = None \<Longrightarrow> render workoutDay week r = r"
  by (simp add: render_def)

theorem render_no_container_witness:
  "container (wr_init False wr_new) = None \<and>
   render (Some \<lparr>exercises = Some [blank_exercise ''a'']\<rparr>) 2 (wr_init False wr_new) = wr_init False wr_new"
  using render_no_container [of "wr_init False wr_new"] by (simp add: wr_init_def wr_new_def)

text \<open>
  C14. An exercise with \<open>n > 0\<close> sets gets one row per set, numbered \<open>1..n\<close> in
  order; each row carries the rep target, and its check button carries the exercise id
  and the row's set number for the click handler.
\<close>

theorem renderSeries_rows:
  assumes "sets e = Some n" "0 < n"
  shows "\<exists>rs. renderSeries e eid = Some rs \<and> map row_set rs = [1..<Suc n] \<and>
           (\<forall>r \<in> set rs. check_exercise_id r = eid \<and> check_set_number r = row_set r \<and>
                         row_reps r = reps e)"
  using assms by (auto simp: renderSeries_Some comp_def)

theorem renderSeries_rows_witness:
  "sets ((blank_exercise ''squat'')\<lparr>sets := Some 4\<rparr>) = Some 4 \<and> 0 < (4::nat) \<and>
   (\<exists>rs. renderSeries ((blank_exercise ''squat'')\<lparr>sets := Some 4\<rparr>) ''squat'' = Some rs \<and>
      map row_set rs = [1..<Suc 4] \<and>
      (\<forall>r \<in> set rs. check_exercise_id r = ''squat'' \<and> check_set_number r = row_set r \<and>
         row_reps r = reps ((blank_exercise ''squat'')\<lparr>sets := Some 4\<rparr>)))"
  using renderSeries_rows [of "(blank_exercise ''squat'')\<lparr>sets := Some 4\<rparr>" 4 "''squat''"]
  by simp

text \<open>
  C15. The renderer never shows a set as completed: \<open>renderSeries\<close> takes no
  completion state and every row it builds has the completed indicator off. With the
  completion state \<open>{squat: {1, 3}}\<close> the spec expects rows 1 and 3 completed; this
  renderer shows none (the \<open>TODO\<close> at the indicator).
\<close>

theorem renderSeries_never_completed:
  "renderSeries e eid = Some rs \<Longrightarrow> r \<in> set rs \<Longrightarrow> \<not> row_completed r"
  by (auto simp: renderSeries_def split: if_splits)

theorem renderSeries_never_completed_witness:
  "renderSeries ((blank_exercise ''squat'')\<lparr>sets := Some 4\<rparr>) ''squat'' =
     Some (map (\<lambda>n. \<lparr>row_set = n, row_reps = JUndefined, row_weight = None, row_rest = None,
                     row_completed = False, check_exercise_id = ''squat'', check_set_number = n\<rparr>)
           [1..<Suc 4]) \<and>
   \<not> row_completed \<lparr>row_set = 1, row_reps = JUndefined, row_weight = None, row_rest = None,
                     row_completed = False, check_exercise_id = ''squat'', check_set_number = 1\<rparr>"
proof -
  have eq: "renderSeries ((blank_exercise ''squat'')\<lparr>sets := Some 4\<rparr>) ''squat'' =
     Some (map (\<lambda>n. \<lparr>row_set = n, row_reps = JUndefined, row_weight = None, row_rest = None,
                     row_completed = False, check_exercise_id = ''squat'', check_set_number = n\<rparr>)
           [1..<Suc 4])"
    by (simp add: renderSeries_Some blank_exercise_def)
  have "\<lparr>row_set = 1, row_reps = JUndefined, row_weight = None, row_rest = None,
          row_completed = False, check_exercise_id = ''squat'', check_set_number = 1\<rparr> \<in>
        set (map (\<lambda>n. \<lparr>row_set = n, row_reps = JUndefined, row_weight = None, row_rest = None,
                     row_completed = False, check_exercise_id = ''squat'', check_set_number = n\<rparr>)
           [1..<Suc 4])"
    by simp
  with renderSeries_never_completed [OF eq] eq show ?thesis by simp
qed

text \<open>
  C16. The parameter summary lists exactly the present (truthy) attributes among sets,
  reps, weight, RPE, rest and tempo, in that fixed order, and is omitted when none is
  present.
\<close>

theorem renderParams_canonical:
  "map param_lbl (case renderParams e of None \<Rightarrow> [] | Some ps \<Rightarrow> ps) =
     filter (\<lambda>l. param_present l e) [SERIES, REPS, POIDS, RPE, REPOS, TEMPO] \<and>
   (renderParams e = None) = (filter (\<lambda>l. param_present l e) [SERIES, REPS, POIDS, RPE, REPOS, TEMPO] = [])"
  by (simp add: renderParams_def Let_def)

text \<open>
  C17. A non-empty day renders one card per exercise, in order, each with the
  exercise's id, and with the superset class exactly as superset detection marked it.
\<close>

theorem render_cards:
  assumes "container r \<noteq> None" "exercises wd = Some exs" "exs \<noteq> []"
  shows "\<exists>cs. container (render (Some wd) week r) = Some (Cards cs) \<and>
           map card_id cs = map ex_id exs \<and>
           map card_superset cs = map isSuperset (detectSupersets exs)"
proof -
  have "map card_id (map (\<lambda>i. renderExercise (detectSupersets exs ! i) i week) [0..<length exs]) =
        map ex_id exs"
    by (rule nth_equalityI) (simp_all add: renderExercise_def Let_def nth_detectSupersets)
  moreover have "map card_superset (map (\<lambda>i. renderExercise (detectSupersets exs ! i) i week)
        [0..<length exs]) = map isSuperset (detectSupersets exs)"
    by (rule nth_equalityI) (simp_all add: renderExercise_def Let_def)
  ultimately show ?thesis
    using render_cards_eq [OF assms] by simp
qed

theorem render_cards_witness:
  "container (wr_init True wr_new) \<noteq> None \<and>
   exercises \<lparr>exercises = Some [blank_exercise ''a'']\<rparr> = Some [blank_exercise ''a''] \<and>
   [blank_exercise ''a''] \<noteq> [] \<and>
   (\<exists>cs. container (render (Some \<lparr>exercises = Some [blank_exercise ''a'']\<rparr>) 1 (wr_init True wr_new)) =
          Some (Cards cs) \<and> map card_id cs = [''a''] \<and> map card_superset cs = [False])"
proof -
  have c: "container (wr_init True wr_new) \<noteq> None" by (simp add: wr_init_def wr_new_def)
  have d: "map isSuperset (detectSupersets [blank_exercise ''a'']) = [False]"
    by (simp add: detectSupersets_def mark_superset_def js_index_def blank_exercise_def)
  show ?thesis
    using render_cards [OF c, of "\<lparr>exercises = Some [blank_exercise ''a'']\<rparr>" "[blank_exercise ''a'']" 1] c d
    by (simp add: blank_exercise_def)
qed

end
