(* ===== verification/App.thy ===== *)
theory App
  imports TimeFormat
begin

text \<open>
  \<open>class App\<close> of src/scripts/app.js, the page itself. Its fields are the record
  \<open>app_state\<close>; the page elements it reads and writes (the workout container, the week
  display and its two buttons, the timer display and section, the bottom navigation),
  the browser's timer table and the vibration effects form the world \<open>app_world\<close>.
  Every method is one definition over the world; \<open>app_step\<close> is one event (a click
  the listeners of \<open>attachEventListeners\<close> handle, a timer firing, time passing) and
  \<open>app_reach\<close> the worlds reachable from \<open>init\<close>. \<open>completedSets\<close> is the
  \<open>Map\<close> from exercise id to the \<open>Set\<close> of completed set numbers; a set number is
  what \<open>parseInt\<close> returns, \<open>None\<close> standing for NaN (a \<open>Set\<close> holds at most one).
  The invariant \<open>app_inv\<close> (timer table, week bounds, the page agreeing with
  \<open>completedSets\<close>) is proved for every method and lifted to \<open>app_reach\<close>; the rest
  countdown is followed second by second (\<open>rest_countdown_run\<close>); the properties are
  C18 to C25 and C31.
\<close>

section \<open>State\<close>

record app_exercise =
  ae_id :: string
  ae_name :: string
  ae_muscles :: string
  ae_sets :: nat
  ae_reps :: nat
  ae_weight :: rat
  ae_rest :: nat
  ae_superset :: bool

record app_workout =
  aw_day :: string
  aw_exercises :: "app_exercise list"

text \<open>A rendered set row: its classes, its check button's data attributes and texts.\<close>

record app_row =
  ar_set :: nat
  ar_completed :: bool
  ar_icon :: bool
  ar_reps :: nat
  ar_weight :: rat
  ar_rest_text :: string
  ar_exercise_id :: string
  ar_set_attr :: string

record app_card =
  ac_superset :: bool
  ac_name :: string
  ac_muscles :: string
  ac_sets :: nat
  ac_reps :: nat
  ac_weight :: rat
  ac_rest :: nat
  ac_rows :: "app_row list"

datatype app_page =
    PageInitial | PageWorkout "app_card list" | PageRestDay
  | PageStats | PageProgress | PageProfile | PageError string

record week_display =
  wd_week :: int
  wd_max :: int
  wd_bloc :: int
  wd_tempo :: "string option"

record app_state =
  currentWeek :: int
  maxWeeks :: int
  currentDay :: nat
  completedSets :: "string \<rightharpoonup> int option set"
  restTimer :: "nat option"
  restTimeRemaining :: int

datatype app_cb = RestTick | HideSection

datatype app_effect = Vibrate

text \<open>
  Elements are \<open>None\<close> when \<open>getElementById\<close> / \<open>querySelector\<close> finds nothing;
  \<open>prevBtn\<close>/\<open>nextBtn\<close> hold their \<open>disabled\<close> flag, \<open>timerSection\<close> whether it
  is shown, \<open>timerDisplay\<close> its text and colour.
\<close>

record app_world =
  app :: app_state
  workoutContainer :: "app_page option"
  weekDisplay :: "week_display option option"
  prevBtn :: "bool option"
  nextBtn :: "bool option"
  timerDisplay :: "(string \<times> color) option option"
  timerSection :: "bool option"
  navCount :: nat
  navActive :: "nat option"
  hasVibrate :: bool
  app_timers :: "app_cb sched"
  app_effects :: "app_effect list"

definition set_app :: "(app_state \<Rightarrow> app_state) \<Rightarrow> app_world \<Rightarrow> app_world" where
  "set_app f w = w\<lparr>app := f (app w)\<rparr>"

section \<open>Methods\<close>

definition app_new :: app_state where
  "app_new = \<lparr>currentWeek = 1, maxWeeks = 26, currentDay = 0, completedSets = Map.empty,
              restTimer = None, restTimeRemaining = 0\<rparr>"

definition getDemoWorkout :: "app_workout option" where
  "getDemoWorkout = Some
     \<lparr>aw_day = ''Lundi'',
      aw_exercises =
        [\<lparr>ae_id = ''squat'', ae_name = ''Goblet Squat'', ae_muscles = ''Quadriceps, Fessiers'',
          ae_sets = 4, ae_reps = 10, ae_weight = 55 / 2, ae_rest = 75, ae_superset = False\<rparr>,
         \<lparr>ae_id = ''legpress'', ae_name = ''Leg Press'', ae_muscles = ''Quadriceps, Fessiers'',
          ae_sets = 4, ae_reps = 10, ae_weight = 120, ae_rest = 75, ae_superset = False\<rparr>,
         \<lparr>ae_id = ''rdl'', ae_name = ''Romanian Deadlift'', ae_muscles = ''Ischio-jambiers'',
          ae_sets = 3, ae_reps = 12, ae_weight = 60, ae_rest = 60, ae_superset = True\<rparr>,
         \<lparr>ae_id = ''curls'', ae_name = ''Leg Curl'', ae_muscles = ''Ischio-jambiers'',
          ae_sets = 3, ae_reps = 12, ae_weight = 40, ae_rest = 60, ae_superset = True\<rparr>]\<rparr>"

text \<open>\<open>completedSets.has(id) && completedSets.get(id).has(i)\<close>.\<close>

definition set_done :: "(string \<rightharpoonup> int option set) \<Rightarrow> string \<Rightarrow> nat \<Rightarrow> bool" where
  "set_done cs eid i = (case cs eid of None \<Rightarrow> False | Some S \<Rightarrow> Some (int i) \<in> S)"

definition generateSetsHTML :: "app_state \<Rightarrow> app_exercise \<Rightarrow> app_row list" where
  "generateSetsHTML st e =
     map (\<lambda>i. let isCompleted = set_done (completedSets st) (ae_id e) i in
               \<lparr>ar_set = i, ar_completed = isCompleted, ar_icon = isCompleted,
                ar_reps = ae_reps e, ar_weight = ae_weight e,
                ar_rest_text = show_nat (ae_rest e) @ ''s repos'',
                ar_exercise_id = ae_id e, ar_set_attr = show_nat i\<rparr>)
         [1..<Suc (ae_sets e)]"

definition generateWorkoutHTML :: "app_state \<Rightarrow> app_workout \<Rightarrow> app_card list" where
  "generateWorkoutHTML st wk =
     map (\<lambda>e. \<lparr>ac_superset = ae_superset e, ac_name = ae_name e, ac_muscles = ae_muscles e,
               ac_sets = ae_sets e, ac_reps = ae_reps e, ac_weight = ae_weight e,
               ac_rest = ae_rest e, ac_rows = generateSetsHTML st e\<rparr>)
         (aw_exercises wk)"

definition renderCurrentWorkout :: "app_world \<Rightarrow> app_world" where
  "renderCurrentWorkout w =
     (case workoutContainer w of
        None \<Rightarrow> w
      | Some _ \<Rightarrow>
          (case getDemoWorkout of
             None \<Rightarrow> w\<lparr>workoutContainer := Some PageRestDay\<rparr>
           | Some wk \<Rightarrow> w\<lparr>workoutContainer := Some (PageWorkout (generateWorkoutHTML (app w) wk))\<rparr>))"

definition tempos :: "string list" where
  "tempos = [''3-1-2'', ''2-0-2'', ''4-0-1'', ''1-0-1'', ''3-0-3'', ''2-1-1'']"

text \<open>\<open>Math.ceil(a / b)\<close> for \<open>b > 0\<close>.\<close>

definition ceil_div :: "int \<Rightarrow> int \<Rightarrow> int" where
  "ceil_div a b = - ((- a) div b)"

definition updateWeekDisplay :: "app_world \<Rightarrow> app_world" where
  "updateWeekDisplay w =
     (case weekDisplay w of
        None \<Rightarrow> w
      | Some _ \<Rightarrow>
          let week = currentWeek (app w);
              bloc = ceil_div week 4;
              tempo = js_index_int tempos (js_rem (bloc - 1) (int (length tempos)))
          in w\<lparr>weekDisplay := Some (Some \<lparr>wd_week = week, wd_max = maxWeeks (app w),
                                          wd_bloc = bloc, wd_tempo = tempo\<rparr>),
               prevBtn := map_option (\<lambda>_. week = 1) (prevBtn w),
               nextBtn := map_option (\<lambda>_. week = maxWeeks (app w)) (nextBtn w)\<rparr>)"

definition changeWeek :: "int \<Rightarrow> app_world \<Rightarrow> app_world" where
  "changeWeek direction w =
     (let newWeek = currentWeek (app w) + direction
      in if newWeek < 1 \<or> newWeek > maxWeeks (app w) then w
         else renderCurrentWorkout (updateWeekDisplay (set_app (\<lambda>a. a\<lparr>currentWeek := newWeek\<rparr>) w)))"

definition updateTimerDisplay :: "app_world \<Rightarrow> app_world" where
  "updateTimerDisplay w =
     (case timerDisplay w of
        None \<Rightarrow> w
      | Some _ \<Rightarrow> let r = restTimeRemaining (app w) in
                  w\<lparr>timerDisplay := Some (Some (rest_display_text r, rest_display_color r))\<rparr>)"

definition startRestTimer :: "int \<Rightarrow> app_world \<Rightarrow> app_world" where
  "startRestTimer secs w =
     (let w1 = (case restTimer (app w) of
                  Some h \<Rightarrow> if h \<noteq> 0 then w\<lparr>app_timers := clear_timer h (app_timers w)\<rparr> else w
                | None \<Rightarrow> w);
          w2 = set_app (\<lambda>a. a\<lparr>restTimeRemaining := secs\<rparr>) w1;
          w3 = updateTimerDisplay (w2\<lparr>timerSection := map_option (\<lambda>_. True) (timerSection w2)\<rparr>);
          (h, sc) = set_interval RestTick 1000 (app_timers w3)
      in set_app (\<lambda>a. a\<lparr>restTimer := Some h\<rparr>) (w3\<lparr>app_timers := sc\<rparr>))"

definition onTimerComplete :: "app_world \<Rightarrow> app_world" where
  "onTimerComplete w =
     (let w1 = (case restTimer (app w) of
                  Some h \<Rightarrow> w\<lparr>app_timers := clear_timer h (app_timers w)\<rparr>
                | None \<Rightarrow> w);
          w2 = set_app (\<lambda>a. a\<lparr>restTimer := None\<rparr>) w1;
          w3 = (if hasVibrate w2 then w2\<lparr>app_effects := app_effects w2 @ [Vibrate]\<rparr> else w2);
          (h, sc) = set_timeout HideSection 2000 (app_timers w3)
      in w3\<lparr>app_timers := sc\<rparr>)"

text \<open>The body of the rest interval, and the body of the 2 s timeout.\<close>

definition restTick :: "app_world \<Rightarrow> app_world" where
  "restTick w =
     (let w1 = updateTimerDisplay (set_app (\<lambda>a. a\<lparr>restTimeRemaining := restTimeRemaining a - 1\<rparr>) w)
      in if restTimeRemaining (app w1) \<le> 0 then onTimerComplete w1 else w1)"

definition hideSection :: "app_world \<Rightarrow> app_world" where
  "hideSection w = w\<lparr>timerSection := map_option (\<lambda>_. False) (timerSection w)\<rparr>"

text \<open>
  \<open>handleSetCompletion\<close> for the check button of row \<open>ri\<close> of card \<open>ci\<close>: toggle
  the row's \<open>completed\<close> class and its icon, record the set in \<open>completedSets\<close> (creating
  the exercise's \<open>Set\<close> first), and start the rest timer from the row's rest text
  when the set became completed.
\<close>

definition toggle_row :: "nat \<Rightarrow> nat \<Rightarrow> app_card list \<Rightarrow> app_card list" where
  "toggle_row ci ri cards =
     cards[ci := (cards ! ci)\<lparr>ac_rows := (ac_rows (cards ! ci))[ri :=
        (ac_rows (cards ! ci) ! ri)\<lparr>ar_completed := \<not> ar_completed (ac_rows (cards ! ci) ! ri),
                                   ar_icon := \<not> ar_completed (ac_rows (cards ! ci) ! ri)\<rparr>]\<rparr>]"

definition handleSetCompletion :: "nat \<Rightarrow> nat \<Rightarrow> app_world \<Rightarrow> app_world" where
  "handleSetCompletion ci ri w =
     (case workoutContainer w of
        Some (PageWorkout cards) \<Rightarrow>
          let row = ac_rows (cards ! ci) ! ri;
              exerciseId = ar_exercise_id row;
              setNumber = parse_int (ar_set_attr row);
              isCompleted = \<not> ar_completed row;
              w1 = w\<lparr>workoutContainer := Some (PageWorkout (toggle_row ci ri cards))\<rparr>;
              cs = completedSets (app w1);
              sets0 = (case cs exerciseId of None \<Rightarrow> {} | Some S \<Rightarrow> S);
              sets1 = (if isCompleted then insert setNumber sets0 else sets0 - {setNumber});
              w2 = set_app (\<lambda>a. a\<lparr>completedSets := cs(exerciseId \<mapsto> sets1)\<rparr>) w1
          in if isCompleted then
               (case parse_int (ar_rest_text row) of
                  Some restSeconds \<Rightarrow> if restSeconds > 0 then startRestTimer restSeconds w2 else w2
                | None \<Rightarrow> w2)
             else w2
      | _ \<Rightarrow> w)"

definition handleNavClick :: "nat \<Rightarrow> app_world \<Rightarrow> app_world" where
  "handleNavClick index w =
     (let w1 = w\<lparr>navActive := Some index\<rparr> in
      case workoutContainer w1 of
        None \<Rightarrow> w1
      | Some _ \<Rightarrow>
          if index = 0 then renderCurrentWorkout w1
          else if index = 1 then w1\<lparr>workoutContainer := Some PageStats\<rparr>
          else if index = 2 then w1\<lparr>workoutContainer := Some PageProgress\<rparr>
          else if index = 3 then w1\<lparr>workoutContainer := Some PageProfile\<rparr>
          else w1)"

definition showError :: "string \<Rightarrow> app_world \<Rightarrow> app_world" where
  "showError message w =
     (case workoutContainer w of None \<Rightarrow> w | Some _ \<Rightarrow> w\<lparr>workoutContainer := Some (PageError message)\<rparr>)"

text \<open>
  A week button delivers clicks only while it exists and is not \<open>disabled\<close>.
  The page as found: which elements exist, how many nav items, whether the browser
  can vibrate. \<open>app_init\<close> is \<open>init()\<close>: the listeners are the events of
  \<open>app_step\<close>, then the current workout is rendered.
\<close>

definition app_page_new ::
  "bool \<Rightarrow> bool \<Rightarrow> bool \<Rightarrow> bool \<Rightarrow> bool \<Rightarrow> nat \<Rightarrow> bool \<Rightarrow> app_world" where
  "app_page_new hasContainer hasWeek hasButtons hasTimer hasSection nav vib =
     \<lparr>app = app_new,
      workoutContainer = (if hasContainer then Some PageInitial else None),
      weekDisplay = (if hasWeek then Some None else None),
      prevBtn = (if hasButtons then Some False else None),
      nextBtn = (if hasButtons then Some False else None),
      timerDisplay = (if hasTimer then Some None else None),
      timerSection = (if hasSection then Some False else None),
      navCount = nav, navActive = None, hasVibrate = vib,
      app_timers = sched_init, app_effects = []\<rparr>"

definition app_init :: "app_world \<Rightarrow> app_world" where
  "app_init w = renderCurrentWorkout w"

definition run_app_cb :: "app_cb \<Rightarrow> app_world \<Rightarrow> app_world" where
  "run_app_cb cb w = (case cb of RestTick \<Rightarrow> restTick w | HideSection \<Rightarrow> hideSection w)"

datatype app_event =
    ClickPrev | ClickNext | NavClick nat
  | ClickCheck nat nat          \<comment> \<open>the check button of row \<open>ri\<close> of card \<open>ci\<close>\<close>
  | AppFire | AppWait nat

definition check_exists :: "nat \<Rightarrow> nat \<Rightarrow> app_world \<Rightarrow> bool" where
  "check_exists ci ri w =
     (case workoutContainer w of
        Some (PageWorkout cards) \<Rightarrow> ci < length cards \<and> ri < length (ac_rows (cards ! ci))
      | _ \<Rightarrow> False)"

fun app_step :: "app_event \<Rightarrow> app_world \<Rightarrow> app_world option" where
  "app_step ClickPrev w = (if prevBtn w = Some False then Some (changeWeek (-1) w) else None)"
| "app_step ClickNext w = (if nextBtn w = Some False then Some (changeWeek 1 w) else None)"
| "app_step (NavClick i) w = (if i < navCount w then Some (handleNavClick i w) else None)"
| "app_step (ClickCheck ci ri) w =
     (if check_exists ci ri w then Some (handleSetCompletion ci ri w) else None)"
| "app_step AppFire w =
     (case fire (app_timers w) of
        None \<Rightarrow> None
      | Some (cb, sc) \<Rightarrow> Some (run_app_cb cb (w\<lparr>app_timers := sc\<rparr>)))"
| "app_step (AppWait d) w =
     (if can_wait d (app_timers w) then Some (w\<lparr>app_timers := wait d (app_timers w)\<rparr>) else None)"

fun app_run :: "app_event list \<Rightarrow> app_world \<Rightarrow> app_world option" where
  "app_run [] w = Some w"
| "app_run (e # es) w = (case app_step e w of None \<Rightarrow> None | Some w' \<Rightarrow> app_run es w')"

inductive app_reach :: "app_world \<Rightarrow> bool" where
  init: "app_reach (app_init (app_page_new c wk b t s n v))"
| step: "app_reach w \<Longrightarrow> app_step e w = Some w' \<Longrightarrow> app_reach w'"

section \<open>Invariant\<close>

definition is_rest_tick :: "app_cb \<Rightarrow> bool" where
  "is_rest_tick cb = (cb = RestTick)"

text \<open>Positions of the page's set rows: card \<open>ci\<close>, row \<open>ri\<close>.\<close>

definition valid_pos :: "app_card list \<Rightarrow> nat \<Rightarrow> nat \<Rightarrow> bool" where
  "valid_pos cards ci ri = (ci < length cards \<and> ri < length (ac_rows (cards ! ci)))"

definition row_at :: "app_card list \<Rightarrow> nat \<Rightarrow> nat \<Rightarrow> app_row" where
  "row_at cards ci ri = ac_rows (cards ! ci) ! ri"

text \<open>
  The rendered page agrees with \<open>completedSets\<close>: every row is marked completed (class
  and icon) exactly when its set is recorded, its set-number attribute is the decimal
  text of its set number, and no two rows stand for the same set of the same exercise.
\<close>

definition page_ok :: "(string \<rightharpoonup> int option set) \<Rightarrow> app_card list \<Rightarrow> bool" where
  "page_ok cs cards =
     ((\<forall>ci ri. valid_pos cards ci ri \<longrightarrow>
         ar_completed (row_at cards ci ri) = set_done cs (ar_exercise_id (row_at cards ci ri)) (ar_set (row_at cards ci ri)) \<and>
         ar_icon (row_at cards ci ri) = ar_completed (row_at cards ci ri) \<and>
         ar_set_attr (row_at cards ci ri) = show_nat (ar_set (row_at cards ci ri))) \<and>
      (\<forall>ci ri cj rj. valid_pos cards ci ri \<longrightarrow> valid_pos cards cj rj \<longrightarrow>
         ar_exercise_id (row_at cards ci ri) = ar_exercise_id (row_at cards cj rj) \<longrightarrow>
         ar_set (row_at cards ci ri) = ar_set (row_at cards cj rj) \<longrightarrow> ci = cj \<and> ri = rj))"

text \<open>
  The invariant of the page: a well-formed timer table whose \<open>RestTick\<close> intervals
  are exactly the one held in \<open>restTimer\<close>, one second each; a running rest countdown
  has time left; the week stays within \<open>1..maxWeeks\<close> with \<open>maxWeeks = 26\<close>; a week
  display shows a block of \<open>1..7\<close> and a tempo; a rendered workout agrees with
  \<open>completedSets\<close>.
\<close>

definition app_inv :: "app_world \<Rightarrow> bool" where
  "app_inv w =
     (sched_wf (app_timers w) \<and>
      handles_of is_rest_tick (app_timers w) = (case restTimer (app w) of None \<Rightarrow> [] | Some h \<Rightarrow> [h]) \<and>
      (\<forall>e \<in> set (s_entries (app_timers w)). is_rest_tick (t_cb e) \<longrightarrow> t_period e = Some 1000) \<and>
      (restTimer (app w) \<noteq> None \<longrightarrow> 1 \<le> restTimeRemaining (app w)) \<and>
      maxWeeks (app w) = 26 \<and> 1 \<le> currentWeek (app w) \<and> currentWeek (app w) \<le> maxWeeks (app w) \<and>
      (\<forall>d. weekDisplay w = Some (Some d) \<longrightarrow> 1 \<le> wd_bloc d \<and> wd_bloc d \<le> 7 \<and> wd_tempo d \<noteq> None) \<and>
      (\<forall>cards. workoutContainer w = Some (PageWorkout cards) \<longrightarrow> page_ok (completedSets (app w)) cards))"

text \<open>
  A rest countdown in progress with nothing else scheduled: the one entry of the timer
  table is the rest interval held in \<open>restTimer\<close>, next due at \<open>d\<close>.
\<close>

definition resting :: "nat \<Rightarrow> app_world \<Rightarrow> bool" where
  "resting d w =
     (\<exists>h. s_entries (app_timers w) = [\<lparr>t_handle = h, t_due = d, t_period = Some 1000, t_cb = RestTick\<rparr>] \<and>
          restTimer (app w) = Some h \<and> 1 \<le> restTimeRemaining (app w))"

definition hide_entry :: "nat \<Rightarrow> nat \<Rightarrow> app_cb tentry" where
  "hide_entry h d = \<lparr>t_handle = h, t_due = d, t_period = None, t_cb = HideSection\<rparr>"

text \<open>The set of an exercise after its row is toggled, as \<open>handleSetCompletion\<close> computes it.\<close>

definition toggled_sets :: "(string \<rightharpoonup> int option set) \<Rightarrow> app_row \<Rightarrow> int option set" where
  "toggled_sets cs r =
     (let S0 = (case cs (ar_exercise_id r) of None \<Rightarrow> {} | Some S \<Rightarrow> S)
      in if \<not> ar_completed r then insert (Some (int (ar_set r))) S0 else S0 - {Some (int (ar_set r))})"

text \<open>
  The page of index.html: every element present, four navigation items, a browser
  that can vibrate; the state right after \<open>init()\<close>.
\<close>

abbreviation demo_page :: app_world where
  "demo_page \<equiv> app_init (app_page_new True True True True True 4 True)"

section \<open>Lemmas\<close>

subsection \<open>Frame facts\<close>

lemma set_app_frame [simp, frame_simps]:
  "app (set_app f w) = f (app w)" "app_timers (set_app f w) = app_timers w"
  "workoutContainer (set_app f w) = workoutContainer w" "weekDisplay (set_app f w) = weekDisplay w"
  "timerSection (set_app f w) = timerSection w" "timerDisplay (set_app f w) = timerDisplay w"
  "app_effects (set_app f w) = app_effects w" "hasVibrate (set_app f w) = hasVibrate w"
  "prevBtn (set_app f w) = prevBtn w" "nextBtn (set_app f w) = nextBtn w"
  "navCount (set_app f w) = navCount w"
  by (simp_all add: set_app_def)

lemma updateTimerDisplay_frame [simp, frame_simps]:
  "app (updateTimerDisplay w) = app w" "app_timers (updateTimerDisplay w) = app_timers w"
  "workoutContainer (updateTimerDisplay w) = workoutContainer w"
  "weekDisplay (updateTimerDisplay w) = weekDisplay w"
  "timerSection (updateTimerDisplay w) = timerSection w"
  "app_effects (updateTimerDisplay w) = app_effects w" "hasVibrate (updateTimerDisplay w) = hasVibrate w"
  "prevBtn (updateTimerDisplay w) = prevBtn w" "nextBtn (updateTimerDisplay w) = nextBtn w"
  "navCount (updateTimerDisplay w) = navCount w"
  by (simp_all add: updateTimerDisplay_def Let_def split: option.splits)

lemma updateWeekDisplay_frame [simp, frame_simps]:
  "app (updateWeekDisplay w) = app w" "app_timers (updateWeekDisplay w) = app_timers w"
  "workoutContainer (updateWeekDisplay w) = workoutContainer w"
  "timerSection (updateWeekDisplay w) = timerSection w"
  "app_effects (updateWeekDisplay w) = app_effects w"
  by (simp_all add: updateWeekDisplay_def Let_def split: option.splits)

lemma renderCurrentWorkout_frame [simp, frame_simps]:
  "app (renderCurrentWorkout w) = app w" "app_timers (renderCurrentWorkout w) = app_timers w"
  "weekDisplay (renderCurrentWorkout w) = weekDisplay w"
  "timerSection (renderCurrentWorkout w) = timerSection w"
  "app_effects (renderCurrentWorkout w) = app_effects w"
  by (simp_all add: renderCurrentWorkout_def split: option.splits)

lemma hideSection_frame [simp, frame_simps]:
  "app (hideSection w) = app w" "app_timers (hideSection w) = app_timers w"
  "workoutContainer (hideSection w) = workoutContainer w" "weekDisplay (hideSection w) = weekDisplay w"
  "app_effects (hideSection w) = app_effects w"
  by (simp_all add: hideSection_def)

lemma is_rest_tick_simps [simp]: "is_rest_tick RestTick" "\<not> is_rest_tick HideSection"
  by (simp_all add: is_rest_tick_def)

subsection \<open>The completed-sets map and the page\<close>

lemma parse_int_show_nat_Nil [simp]: "parse_int (show_nat n) = Some (int n)"
  using parse_int_show_nat [of "[]" n] by simp

lemma set_done_update:
  "set_done (cs(k \<mapsto> S)) k' i = (if k' = k then Some (int i) \<in> S else set_done cs k' i)"
  by (simp add: set_done_def)

lemma set_done_sets0:
  "set_done cs k i = (Some (int i) \<in> (case cs k of None \<Rightarrow> {} | Some S \<Rightarrow> S))"
  by (simp add: set_done_def split: option.splits)

lemma length_toggle_row [simp]: "length (toggle_row ci ri cards) = length cards"
  by (simp add: toggle_row_def)

lemma rows_toggle_row:
  "ci < length cards \<Longrightarrow> cj < length cards \<Longrightarrow>
   ac_rows (toggle_row ci ri cards ! cj) =
     (if cj = ci then (ac_rows (cards ! ci))[ri := (ac_rows (cards ! ci) ! ri)
        \<lparr>ar_completed := \<not> ar_completed (ac_rows (cards ! ci) ! ri),
         ar_icon := \<not> ar_completed (ac_rows (cards ! ci) ! ri)\<rparr>]
      else ac_rows (cards ! cj))"
  by (simp add: toggle_row_def)

lemma valid_pos_toggle_row [simp]:
  "ci < length cards \<Longrightarrow> valid_pos (toggle_row ci ri cards) cj rj = valid_pos cards cj rj"
  by (auto simp: valid_pos_def rows_toggle_row split: if_splits)

lemma row_at_toggle_row:
  assumes "valid_pos cards ci ri" "valid_pos cards cj rj"
  shows "row_at (toggle_row ci ri cards) cj rj =
           (if cj = ci \<and> rj = ri
            then (row_at cards ci ri)\<lparr>ar_completed := \<not> ar_completed (row_at cards ci ri),
                                      ar_icon := \<not> ar_completed (row_at cards ci ri)\<rparr>
            else row_at cards cj rj)"
  using assms by (auto simp: valid_pos_def row_at_def rows_toggle_row nth_list_update)

lemma row_at_toggle_row_keys [simp]:
  assumes "valid_pos cards ci ri" "valid_pos cards cj rj"
  shows "ar_exercise_id (row_at (toggle_row ci ri cards) cj rj) = ar_exercise_id (row_at cards cj rj)"
    and "ar_set (row_at (toggle_row ci ri cards) cj rj) = ar_set (row_at cards cj rj)"
    and "ar_set_attr (row_at (toggle_row ci ri cards) cj rj) = ar_set_attr (row_at cards cj rj)"
  using assms by (simp_all add: row_at_toggle_row)

text \<open>
  Toggling one row and recording its set (added when it becomes completed, removed
  otherwise) keeps the page and the map in step.
\<close>

lemma page_ok_toggle:
  assumes ok: "page_ok cs cards" and v: "valid_pos cards ci ri"
    and r: "r = row_at cards ci ri"
    and S1: "S1 = (if \<not> ar_completed r then insert (Some (int (ar_set r))) S0 else S0 - {Some (int (ar_set r))})"
    and S0: "S0 = (case cs (ar_exercise_id r) of None \<Rightarrow> {} | Some S \<Rightarrow> S)"
  shows "page_ok (cs(ar_exercise_id r \<mapsto> S1)) (toggle_row ci ri cards)"
proof -
  have ci: "ci < length cards" using v by (simp add: valid_pos_def)
  have done0: "ar_completed r = (Some (int (ar_set r)) \<in> S0)"
    using ok v r S0 by (simp add: page_ok_def set_done_sets0)
  have other: "set_done (cs(ar_exercise_id r \<mapsto> S1)) (ar_exercise_id (row_at cards cj rj)) (ar_set (row_at cards cj rj)) =
                 set_done cs (ar_exercise_id (row_at cards cj rj)) (ar_set (row_at cards cj rj))"
    if "valid_pos cards cj rj" "\<not> (cj = ci \<and> rj = ri)" for cj rj
  proof -
    have "\<not> (ar_exercise_id (row_at cards cj rj) = ar_exercise_id r \<and> ar_set (row_at cards cj rj) = ar_set r)"
      using ok that v r unfolding page_ok_def by blast
    then show ?thesis using S1 S0 by (auto simp: set_done_update set_done_sets0)
  qed
  show ?thesis
    unfolding page_ok_def
  proof (intro conjI allI impI)
    fix cj rj assume "valid_pos (toggle_row ci ri cards) cj rj"
    then have vj: "valid_pos cards cj rj" using ci by simp
    show "ar_completed (row_at (toggle_row ci ri cards) cj rj) =
            set_done (cs(ar_exercise_id r \<mapsto> S1)) (ar_exercise_id (row_at (toggle_row ci ri cards) cj rj))
              (ar_set (row_at (toggle_row ci ri cards) cj rj))"
      using ok v vj other [OF vj] done0 r S1 by (auto simp: row_at_toggle_row set_done_update page_ok_def)
    show "ar_icon (row_at (toggle_row ci ri cards) cj rj) = ar_completed (row_at (toggle_row ci ri cards) cj rj)"
      using ok v vj by (simp add: row_at_toggle_row page_ok_def)
    show "ar_set_attr (row_at (toggle_row ci ri cards) cj rj) = show_nat (ar_set (row_at (toggle_row ci ri cards) cj rj))"
      using ok v vj by (simp add: page_ok_def)
  next
    fix cj rj ck rk
    assume "valid_pos (toggle_row ci ri cards) cj rj" "valid_pos (toggle_row ci ri cards) ck rk"
      "ar_exercise_id (row_at (toggle_row ci ri cards) cj rj) = ar_exercise_id (row_at (toggle_row ci ri cards) ck rk)"
      "ar_set (row_at (toggle_row ci ri cards) cj rj) = ar_set (row_at (toggle_row ci ri cards) ck rk)"
    with ci v ok have "cj = ck \<and> rj = rk" unfolding page_ok_def by simp
    then show "cj = ck" "rj = rk" by simp_all
  qed
qed

text \<open>A freshly generated workout agrees with the map when the exercise ids are distinct.\<close>

lemma length_generate [simp]:
  "length (generateWorkoutHTML st wk) = length (aw_exercises wk)"
  "ci < length (aw_exercises wk) \<Longrightarrow>
     length (ac_rows (generateWorkoutHTML st wk ! ci)) = ae_sets (aw_exercises wk ! ci)"
  by (simp_all add: generateWorkoutHTML_def generateSetsHTML_def del: upt_Suc)

lemma valid_pos_generate:
  "valid_pos (generateWorkoutHTML st wk) ci ri \<longleftrightarrow>
     ci < length (aw_exercises wk) \<and> ri < ae_sets (aw_exercises wk ! ci)"
  by (auto simp: valid_pos_def)

lemma row_at_generate:
  assumes "ci < length (aw_exercises wk)" "ri < ae_sets (aw_exercises wk ! ci)"
  shows "row_at (generateWorkoutHTML st wk) ci ri =
           (let e = aw_exercises wk ! ci; i = Suc ri; c = set_done (completedSets st) (ae_id e) i in
            \<lparr>ar_set = i, ar_completed = c, ar_icon = c, ar_reps = ae_reps e, ar_weight = ae_weight e,
             ar_rest_text = show_nat (ae_rest e) @ ''s repos'', ar_exercise_id = ae_id e,
             ar_set_attr = show_nat i\<rparr>)"
  using assms by (simp add: row_at_def generateWorkoutHTML_def generateSetsHTML_def Let_def del: upt_Suc)

lemma page_ok_generate:
  assumes "distinct (map ae_id (aw_exercises wk))"
  shows "page_ok (completedSets st) (generateWorkoutHTML st wk)"
  unfolding page_ok_def
proof (rule conjI; intro allI impI)
  fix ci ri assume "valid_pos (generateWorkoutHTML st wk) ci ri"
  then show "ar_completed (row_at (generateWorkoutHTML st wk) ci ri) =
               set_done (completedSets st) (ar_exercise_id (row_at (generateWorkoutHTML st wk) ci ri))
                 (ar_set (row_at (generateWorkoutHTML st wk) ci ri)) \<and>
             ar_icon (row_at (generateWorkoutHTML st wk) ci ri) = ar_completed (row_at (generateWorkoutHTML st wk) ci ri) \<and>
             ar_set_attr (row_at (generateWorkoutHTML st wk) ci ri) = show_nat (ar_set (row_at (generateWorkoutHTML st wk) ci ri))"
    by (simp add: valid_pos_generate row_at_generate Let_def)
next
  fix ci ri cj rj
  assume a: "valid_pos (generateWorkoutHTML st wk) ci ri" "valid_pos (generateWorkoutHTML st wk) cj rj"
    "ar_exercise_id (row_at (generateWorkoutHTML st wk) ci ri) = ar_exercise_id (row_at (generateWorkoutHTML st wk) cj rj)"
    "ar_set (row_at (generateWorkoutHTML st wk) ci ri) = ar_set (row_at (generateWorkoutHTML st wk) cj rj)"
  then have "ae_id (aw_exercises wk ! ci) = ae_id (aw_exercises wk ! cj)" "ri = rj"
    by (simp_all add: valid_pos_generate row_at_generate Let_def)
  moreover have "ci < length (aw_exercises wk)" "cj < length (aw_exercises wk)"
    using a by (simp_all add: valid_pos_generate)
  ultimately show "ci = cj \<and> ri = rj" using assms by (metis distinct_conv_nth length_map nth_map)
qed

lemma demo_ids_distinct: "getDemoWorkout = Some wk \<Longrightarrow> distinct (map ae_id (aw_exercises wk))"
  by (auto simp: getDemoWorkout_def)

subsection \<open>Week, block and tempo\<close>

lemma ceil_div_bloc: "1 \<le> week \<Longrightarrow> week \<le> 26 \<Longrightarrow> 1 \<le> ceil_div week 4 \<and> ceil_div week 4 \<le> 7"
  unfolding ceil_div_def by presburger

lemma tempo_defined: "1 \<le> b \<Longrightarrow> js_index_int tempos (js_rem (b - 1) (int (length tempos))) \<noteq> None"
  by (auto simp: js_index_int_def js_index_def js_rem_def tempos_def sgn_if nat_less_iff)

subsection \<open>What the methods change\<close>

lemma startRestTimer_fields:
  "app (startRestTimer secs w) = (app w)\<lparr>restTimer := Some (s_next (app_timers w)), restTimeRemaining := secs\<rparr>"
  "app_timers (startRestTimer secs w) =
     snd (set_interval RestTick 1000
       (case restTimer (app w) of None \<Rightarrow> app_timers w
        | Some h \<Rightarrow> if h \<noteq> 0 then clear_timer h (app_timers w) else app_timers w))"
  "workoutContainer (startRestTimer secs w) = workoutContainer w"
  "weekDisplay (startRestTimer secs w) = weekDisplay w"
  "app_effects (startRestTimer secs w) = app_effects w"
  "timerSection (startRestTimer secs w) = map_option (\<lambda>_. True) (timerSection w)"
  "hasVibrate (startRestTimer secs w) = hasVibrate w"
  by (simp_all add: startRestTimer_def Let_def set_interval_def add_timer_def split: option.splits)

lemma onTimerComplete_fields:
  "app (onTimerComplete w) = (app w)\<lparr>restTimer := None\<rparr>"
  "app_timers (onTimerComplete w) =
     snd (set_timeout HideSection 2000
       (case restTimer (app w) of None \<Rightarrow> app_timers w | Some h \<Rightarrow> clear_timer h (app_timers w)))"
  "workoutContainer (onTimerComplete w) = workoutContainer w"
  "weekDisplay (onTimerComplete w) = weekDisplay w"
  "app_effects (onTimerComplete w) = app_effects w @ (if hasVibrate w then [Vibrate] else [])"
  "timerSection (onTimerComplete w) = timerSection w"
  "hasVibrate (onTimerComplete w) = hasVibrate w"
  by (simp_all add: onTimerComplete_def Let_def set_timeout_def add_timer_def split: option.splits)

lemma restTick_continue:
  assumes "1 < restTimeRemaining (app w)"
  shows "app (restTick w) = (app w)\<lparr>restTimeRemaining := restTimeRemaining (app w) - 1\<rparr>"
    and "app_timers (restTick w) = app_timers w" "app_effects (restTick w) = app_effects w"
    and "workoutContainer (restTick w) = workoutContainer w" "weekDisplay (restTick w) = weekDisplay w"
    and "timerSection (restTick w) = timerSection w" "hasVibrate (restTick w) = hasVibrate w"
  using assms by (simp_all add: restTick_def Let_def)

lemma restTick_last:
  assumes "restTimeRemaining (app w) \<le> 1"
  shows "restTick w = onTimerComplete (updateTimerDisplay
           (set_app (\<lambda>a. a\<lparr>restTimeRemaining := restTimeRemaining a - 1\<rparr>) w))"
  using assms by (simp add: restTick_def Let_def)

subsection \<open>The invariant is kept\<close>

lemma app_inv_cong:
  "app w' = app w \<Longrightarrow> app_timers w' = app_timers w \<Longrightarrow> weekDisplay w' = weekDisplay w \<Longrightarrow>
   workoutContainer w' = workoutContainer w \<Longrightarrow> app_inv w' = app_inv w"
  by (simp add: app_inv_def)

lemma app_inv_frame [simp]:
  "app_inv (w\<lparr>timerSection := x\<rparr>) = app_inv w" "app_inv (w\<lparr>timerDisplay := y\<rparr>) = app_inv w"
  "app_inv (w\<lparr>app_effects := z\<rparr>) = app_inv w" "app_inv (w\<lparr>navActive := n\<rparr>) = app_inv w"
  "app_inv (updateTimerDisplay w) = app_inv w" "app_inv (hideSection w) = app_inv w"
  by (simp_all add: app_inv_def)

lemma app_inv_updateWeekDisplay: "app_inv w \<Longrightarrow> app_inv (updateWeekDisplay w)"
  using ceil_div_bloc [of "currentWeek (app w)"] tempo_defined [of "ceil_div (currentWeek (app w)) 4"]
  by (auto simp: app_inv_def updateWeekDisplay_def Let_def split: option.splits)

lemma app_inv_renderCurrentWorkout: "app_inv w \<Longrightarrow> app_inv (renderCurrentWorkout w)"
  by (auto simp: app_inv_def renderCurrentWorkout_def page_ok_generate demo_ids_distinct
           split: option.splits)

lemma app_inv_changeWeek: "app_inv w \<Longrightarrow> app_inv (changeWeek d w)"
proof -
  assume inv: "app_inv w"
  let ?w1 = "set_app (\<lambda>a. a\<lparr>currentWeek := currentWeek (app w) + d\<rparr>) w"
  have "\<not> (currentWeek (app w) + d < 1 \<or> currentWeek (app w) + d > maxWeeks (app w)) \<Longrightarrow> app_inv ?w1"
    using inv by (simp add: app_inv_def)
  then show ?thesis using inv
    by (auto simp: changeWeek_def Let_def intro: app_inv_renderCurrentWorkout app_inv_updateWeekDisplay)
qed

lemma app_inv_handleNavClick: "app_inv w \<Longrightarrow> app_inv (handleNavClick i w)"
  by (auto simp: handleNavClick_def Let_def app_inv_def renderCurrentWorkout_def page_ok_generate
           demo_ids_distinct split: option.splits)

text \<open>The rest interval held in \<open>restTimer\<close> is a live, hence non-zero, handle.\<close>

lemma app_inv_rest_handle:
  assumes "app_inv w" "restTimer (app w) = Some h"
  shows "handles_of is_rest_tick (app_timers w) = [h]" "0 < h"
proof -
  show hs: "handles_of is_rest_tick (app_timers w) = [h]" using assms by (simp add: app_inv_def)
  show "0 < h" using assms handles_of_pos [of "app_timers w" h is_rest_tick] hs
    by (simp add: app_inv_def)
qed

text \<open>With the old interval cleared, the table holds no rest interval.\<close>

lemma app_inv_stopped:
  assumes "app_inv w"
  shows "handles_of is_rest_tick (case restTimer (app w) of None \<Rightarrow> app_timers w
           | Some h \<Rightarrow> if h \<noteq> 0 then clear_timer h (app_timers w) else app_timers w) = []"
    and "sched_wf (case restTimer (app w) of None \<Rightarrow> app_timers w
           | Some h \<Rightarrow> if h \<noteq> 0 then clear_timer h (app_timers w) else app_timers w)"
  using assms app_inv_rest_handle [OF assms]
  by (auto simp: app_inv_def sched_wf_clear split: option.splits)

lemma app_inv_startRestTimer:
  assumes inv: "app_inv w" and pos: "1 \<le> secs"
  shows "app_inv (startRestTimer secs w)"
proof -
  let ?s = "case restTimer (app w) of None \<Rightarrow> app_timers w
              | Some h \<Rightarrow> if h \<noteq> 0 then clear_timer h (app_timers w) else app_timers w"
  have "s_next ?s = s_next (app_timers w)" by (simp split: option.splits)
  moreover have "set (s_entries ?s) \<subseteq> set (s_entries (app_timers w))" by (auto split: option.splits)
  ultimately show ?thesis
    using inv pos app_inv_stopped [OF inv]
    by (auto simp: app_inv_def startRestTimer_fields set_interval_def sched_wf_add_timer)
qed

text \<open>Completing forgets the remaining time: only the stopped countdown matters.\<close>

lemma app_inv_onTimerComplete_set:
  "app_inv w \<Longrightarrow> app_inv (onTimerComplete (set_app (\<lambda>a. a\<lparr>restTimeRemaining := r\<rparr>) w))"
proof -
  assume inv: "app_inv w"
  let ?s = "case restTimer (app w) of None \<Rightarrow> app_timers w | Some h \<Rightarrow> clear_timer h (app_timers w)"
  have "handles_of is_rest_tick ?s = [] \<and> sched_wf ?s \<and>
        set (s_entries ?s) \<subseteq> set (s_entries (app_timers w))"
    using inv app_inv_rest_handle [OF inv] by (auto simp: app_inv_def sched_wf_clear split: option.splits)
  with inv show ?thesis
    by (auto simp: app_inv_def onTimerComplete_fields set_timeout_def sched_wf_add_timer
             split: option.split)
qed

lemma app_inv_onTimerComplete: "app_inv w \<Longrightarrow> app_inv (onTimerComplete w)"
  using app_inv_onTimerComplete_set [of w "restTimeRemaining (app w)"] by (simp add: set_app_def)

lemma app_inv_onTimerComplete_display [simp]:
  "app_inv (onTimerComplete (updateTimerDisplay w)) = app_inv (onTimerComplete w)"
  by (simp add: app_inv_def onTimerComplete_fields split: option.split)

lemma app_inv_restTick: "app_inv w \<Longrightarrow> app_inv (restTick w)"
proof (cases "1 < restTimeRemaining (app w)")
  case True
  assume "app_inv w"
  with True show ?thesis by (simp add: app_inv_def restTick_continue)
next
  case False
  assume inv: "app_inv w"
  let ?w1 = "updateTimerDisplay (set_app (\<lambda>a. a\<lparr>restTimeRemaining := restTimeRemaining a - 1\<rparr>) w)"
  from False app_inv_onTimerComplete_set [OF inv, of "restTimeRemaining (app w) - 1"]
  show ?thesis by (simp add: restTick_last set_app_def)
qed

text \<open>
  \<open>handleSetCompletion\<close> on a rendered row: the row is toggled, its set recorded or
  removed, and a completed set starts the rest timer from the row's rest text.
\<close>

lemma handleSetCompletion_eq:
  assumes c: "workoutContainer w = Some (PageWorkout cards)" and ok: "page_ok (completedSets (app w)) cards"
    and v: "valid_pos cards ci ri" and r: "r = row_at cards ci ri"
    and w2: "w2 = set_app (\<lambda>a. a\<lparr>completedSets := (completedSets (app w))(ar_exercise_id r \<mapsto> toggled_sets (completedSets (app w)) r)\<rparr>)
                   (w\<lparr>workoutContainer := Some (PageWorkout (toggle_row ci ri cards))\<rparr>)"
  shows "handleSetCompletion ci ri w =
           (if \<not> ar_completed r then
              (case parse_int (ar_rest_text r) of
                 Some s \<Rightarrow> if 0 < s then startRestTimer s w2 else w2
               | None \<Rightarrow> w2)
            else w2)"
proof -
  have "ar_set_attr r = show_nat (ar_set r)" using ok v r by (simp add: page_ok_def)
  then show ?thesis
    using c r w2 by (cases "ar_completed r") (simp_all add: handleSetCompletion_def Let_def toggled_sets_def row_at_def split: option.split)
qed

lemma app_inv_toggled:
  assumes inv: "app_inv w" and c: "workoutContainer w = Some (PageWorkout cards)"
    and v: "valid_pos cards ci ri" and r: "r = row_at cards ci ri"
  shows "app_inv (set_app (\<lambda>a. a\<lparr>completedSets := (completedSets (app w))(ar_exercise_id r \<mapsto> toggled_sets (completedSets (app w)) r)\<rparr>)
                   (w\<lparr>workoutContainer := Some (PageWorkout (toggle_row ci ri cards))\<rparr>))"
proof -
  have ok: "page_ok (completedSets (app w)) cards" using inv c by (simp add: app_inv_def)
  have "page_ok ((completedSets (app w))(ar_exercise_id r \<mapsto> toggled_sets (completedSets (app w)) r))
          (toggle_row ci ri cards)"
    using ok v r by (rule page_ok_toggle) (simp_all add: toggled_sets_def Let_def)
  then show ?thesis using inv by (simp add: app_inv_def)
qed

lemma app_inv_handleSetCompletion:
  assumes inv: "app_inv w" and ex: "check_exists ci ri w"
  shows "app_inv (handleSetCompletion ci ri w)"
proof -
  obtain cards where c: "workoutContainer w = Some (PageWorkout cards)" and v: "valid_pos cards ci ri"
    using ex by (auto simp: check_exists_def valid_pos_def split: option.splits app_page.splits)
  have ok: "page_ok (completedSets (app w)) cards" using inv c by (simp add: app_inv_def)
  define r where "r = row_at cards ci ri"
  define w2 where "w2 = set_app (\<lambda>a. a\<lparr>completedSets := (completedSets (app w))(ar_exercise_id r \<mapsto> toggled_sets (completedSets (app w)) r)\<rparr>)
                   (w\<lparr>workoutContainer := Some (PageWorkout (toggle_row ci ri cards))\<rparr>)"
  have inv2: "app_inv w2" unfolding w2_def using inv c v r_def by (rule app_inv_toggled)
  show ?thesis
    using inv2 handleSetCompletion_eq [OF c ok v r_def w2_def]
    by (auto intro: app_inv_startRestTimer split: option.split)
qed

lemma app_inv_fire:
  assumes inv: "app_inv w" and f: "fire (app_timers w) = Some (cb, sc)"
  shows "app_inv (w\<lparr>app_timers := sc\<rparr>)"
proof -
  have wf: "sched_wf (app_timers w)" and per: "\<forall>e \<in> set (s_entries (app_timers w)).
      is_rest_tick (t_cb e) \<longrightarrow> t_period e = Some 1000"
    using inv by (simp_all add: app_inv_def)
  then have "handles_of is_rest_tick sc = handles_of is_rest_tick (app_timers w)"
    using f by (intro fire_handles_of) auto
  moreover have "sched_wf sc" using wf f by (rule sched_wf_fire)
  moreover have "\<forall>e \<in> set (s_entries sc). is_rest_tick (t_cb e) \<longrightarrow> t_period e = Some 1000"
    using per fire_entries [OF f] by fastforce
  ultimately show ?thesis using inv by (auto simp: app_inv_def)
qed

lemma app_inv_run_app_cb: "app_inv w \<Longrightarrow> app_inv (run_app_cb cb w)"
  by (cases cb) (simp_all add: run_app_cb_def app_inv_restTick)

lemma app_inv_init: "app_inv (app_init (app_page_new c wk b t s n v))"
  unfolding app_init_def
  by (rule app_inv_renderCurrentWorkout) (simp add: app_inv_def app_page_new_def app_new_def)

lemma app_step_inv: "app_inv w \<Longrightarrow> app_step e w = Some w' \<Longrightarrow> app_inv w'"
proof (cases e)
  case AppFire
  assume "app_inv w" "app_step e w = Some w'"
  with AppFire show ?thesis
    by (auto split: option.splits intro: app_inv_run_app_cb app_inv_fire)
next
  case (AppWait d)
  assume "app_inv w" "app_step e w = Some w'"
  with AppWait show ?thesis
    by (auto simp: app_inv_def sched_wf_wait split: if_splits)
qed (auto simp: app_inv_changeWeek app_inv_handleNavClick app_inv_handleSetCompletion split: if_splits)

lemma app_reach_inv: "app_reach w \<Longrightarrow> app_inv w"
  by (induction rule: app_reach.induct) (auto intro: app_inv_init app_step_inv)

subsection \<open>The rest countdown\<close>

lemma sched_all_updates [simp]:
  "s\<lparr>s_now := a, s_entries := b, s_next := c\<rparr> = \<lparr>s_now = a, s_entries = b, s_next = c\<rparr>"
  by (cases s) simp

lemma rest_step:
  assumes r: "resting d w" and gt: "1 < restTimeRemaining (app w)"
  shows "\<exists>w1. app_step AppFire w = Some w1 \<and> resting (d + 1000) w1 \<and>
           app w1 = (app w)\<lparr>restTimeRemaining := restTimeRemaining (app w) - 1\<rparr> \<and>
           s_now (app_timers w1) = d \<and> s_next (app_timers w1) = s_next (app_timers w) \<and>
           workoutContainer w1 = workoutContainer w \<and> weekDisplay w1 = weekDisplay w \<and>
           timerSection w1 = timerSection w \<and> hasVibrate w1 = hasVibrate w \<and>
           app_effects w1 = app_effects w"
proof -
  from r obtain h where e: "s_entries (app_timers w) = [\<lparr>t_handle = h, t_due = d, t_period = Some 1000, t_cb = RestTick\<rparr>]"
    and h: "restTimer (app w) = Some h" by (auto simp: resting_def)
  let ?sc = "(app_timers w)\<lparr>s_now := d, s_entries := [\<lparr>t_handle = h, t_due = d + 1000, t_period = Some 1000, t_cb = RestTick\<rparr>]\<rparr>"
  have "app_step AppFire w = Some (restTick (w\<lparr>app_timers := ?sc\<rparr>))"
    using e by (simp add: fire_single run_app_cb_def)
  with gt h show ?thesis by (simp add: restTick_continue resting_def)
qed

lemma rest_last:
  assumes r: "resting d w" and one: "restTimeRemaining (app w) = 1"
  shows "\<exists>w1. app_step AppFire w = Some w1 \<and>
           app w1 = (app w)\<lparr>restTimer := None, restTimeRemaining := 0\<rparr> \<and>
           app_timers w1 = \<lparr>s_now = d, s_entries = [hide_entry (s_next (app_timers w)) (d + 2000)],
                              s_next = Suc (s_next (app_timers w))\<rparr> \<and>
           workoutContainer w1 = workoutContainer w \<and> weekDisplay w1 = weekDisplay w \<and>
           timerSection w1 = timerSection w \<and> hasVibrate w1 = hasVibrate w \<and>
           app_effects w1 = app_effects w @ (if hasVibrate w then [Vibrate] else [])"
proof -
  from r obtain h where e: "s_entries (app_timers w) = [\<lparr>t_handle = h, t_due = d, t_period = Some 1000, t_cb = RestTick\<rparr>]"
    and h: "restTimer (app w) = Some h" by (auto simp: resting_def)
  let ?sc = "(app_timers w)\<lparr>s_now := d, s_entries := [\<lparr>t_handle = h, t_due = d + 1000, t_period = Some 1000, t_cb = RestTick\<rparr>]\<rparr>"
  have "app_step AppFire w = Some (restTick (w\<lparr>app_timers := ?sc\<rparr>))"
    using e by (simp add: fire_single run_app_cb_def)
  with one h show ?thesis
    by (simp add: restTick_last onTimerComplete_fields set_timeout_def add_timer_def hide_entry_def)
qed

lemma rest_countdown_run:
  "resting d w \<Longrightarrow> restTimeRemaining (app w) = int k \<Longrightarrow>
   \<exists>w'. app_run (replicate k AppFire) w = Some w' \<and>
        app w' = (app w)\<lparr>restTimer := None, restTimeRemaining := 0\<rparr> \<and>
        app_timers w' = \<lparr>s_now = d + 1000 * (k - 1),
                          s_entries = [hide_entry (s_next (app_timers w)) (d + 1000 * (k - 1) + 2000)],
                          s_next = Suc (s_next (app_timers w))\<rparr> \<and>
        workoutContainer w' = workoutContainer w \<and> weekDisplay w' = weekDisplay w \<and>
        timerSection w' = timerSection w \<and> hasVibrate w' = hasVibrate w \<and>
        app_effects w' = app_effects w @ (if hasVibrate w then [Vibrate] else [])"
proof (induction k arbitrary: w d)
  case 0
  then show ?case by (simp add: resting_def)
next
  case (Suc k)
  show ?case
  proof (cases k)
    case 0
    with Suc.prems rest_last [of d w] show ?thesis by auto
  next
    case (Suc k')
    with Suc.prems obtain w1 where w1: "app_step AppFire w = Some w1" "resting (d + 1000) w1"
      "app w1 = (app w)\<lparr>restTimeRemaining := restTimeRemaining (app w) - 1\<rparr>"
      "s_now (app_timers w1) = d" "s_next (app_timers w1) = s_next (app_timers w)"
      "workoutContainer w1 = workoutContainer w" "weekDisplay w1 = weekDisplay w"
      "timerSection w1 = timerSection w" "hasVibrate w1 = hasVibrate w" "app_effects w1 = app_effects w"
      using rest_step [of d w] by auto
    have "restTimeRemaining (app w1) = int k" using w1(3) Suc.prems(2) by simp
    then obtain w' where w': "app_run (replicate k AppFire) w1 = Some w'"
      "app w' = (app w1)\<lparr>restTimer := None, restTimeRemaining := 0\<rparr>"
      "app_timers w' = \<lparr>s_now = d + 1000 + 1000 * (k - 1),
         s_entries = [hide_entry (s_next (app_timers w1)) (d + 1000 + 1000 * (k - 1) + 2000)],
         s_next = Suc (s_next (app_timers w1))\<rparr>"
      "workoutContainer w' = workoutContainer w1" "weekDisplay w' = weekDisplay w1"
      "timerSection w' = timerSection w1" "hasVibrate w' = hasVibrate w1"
      "app_effects w' = app_effects w1 @ (if hasVibrate w1 then [Vibrate] else [])"
      using Suc.IH [OF w1(2)] by blast
    define T where "T = d + 1000 * (Suc k - 1)"
    have T_eq: "d + 1000 + 1000 * (k - 1) = T" using \<open>k = Suc k'\<close> by (simp add: T_def)
    have "app_timers w' = \<lparr>s_now = T, s_entries = [hide_entry (s_next (app_timers w1)) (T + 2000)],
                           s_next = Suc (s_next (app_timers w1))\<rparr>"
      using w'(3) by (simp only: T_eq)
    with w1 w' show ?thesis unfolding T_def by auto
  qed
qed

subsection \<open>Runs\<close>

lemma app_run_append:
  "app_run (xs @ ys) w = (case app_run xs w of None \<Rightarrow> None | Some w' \<Rightarrow> app_run ys w')"
  by (induction xs arbitrary: w) (simp_all split: option.split)

lemma app_run_reach: "app_run es w = Some w' \<Longrightarrow> app_reach w \<Longrightarrow> app_reach w'"
  by (induction es arbitrary: w) (auto split: option.splits intro: app_reach.step)

lemma app_run_inv: "app_run es w = Some w' \<Longrightarrow> app_inv w \<Longrightarrow> app_inv w'"
  by (induction es arbitrary: w) (auto split: option.splits intro: app_step_inv)

lemma rest_text_parse [simp]: "parse_int (show_nat n @ ''s repos'') = Some (int n)"
  by (rule parse_int_show_nat) (simp add: is_digit_def)

lemma app_inv_idle: "app_inv w \<Longrightarrow> s_entries (app_timers w) = [] \<Longrightarrow> restTimer (app w) = None"
  by (auto simp: app_inv_def handles_of_def split: option.splits)

lemma start_resting:
  assumes "app_inv w" "s_entries (app_timers w) = []" "1 \<le> secs"
  shows "resting (s_now (app_timers w) + 1000) (startRestTimer secs w)"
    and "s_next (app_timers (startRestTimer secs w)) = Suc (s_next (app_timers w))"
  using assms app_inv_idle [OF assms(1,2)]
  by (simp_all add: resting_def startRestTimer_fields set_interval_def add_timer_def)

text \<open>
  Completing a row that is not yet completed and whose rest text reads \<open>R\<close> seconds
  starts the rest timer at \<open>R\<close>.
\<close>

lemma handleSetCompletion_starts:
  assumes inv: "app_inv w" and c: "workoutContainer w = Some (PageWorkout cards)"
    and v: "valid_pos cards ci ri" and nc: "\<not> ar_completed (row_at cards ci ri)"
    and rt: "ar_rest_text (row_at cards ci ri) = show_nat R @ ''s repos''" and R: "0 < R"
  shows "\<exists>w2. handleSetCompletion ci ri w = startRestTimer (int R) w2 \<and> app_inv w2 \<and>
           app_timers w2 = app_timers w \<and> restTimer (app w2) = restTimer (app w) \<and>
           workoutContainer w2 = Some (PageWorkout (toggle_row ci ri cards)) \<and>
           timerSection w2 = timerSection w \<and> hasVibrate w2 = hasVibrate w \<and> app_effects w2 = app_effects w"
proof -
  have ok: "page_ok (completedSets (app w)) cards" using inv c by (simp add: app_inv_def)
  define r where "r = row_at cards ci ri"
  define w2 where "w2 = set_app (\<lambda>a. a\<lparr>completedSets := (completedSets (app w))(ar_exercise_id r \<mapsto> toggled_sets (completedSets (app w)) r)\<rparr>)
                   (w\<lparr>workoutContainer := Some (PageWorkout (toggle_row ci ri cards))\<rparr>)"
  have inv2: "app_inv w2" unfolding w2_def using inv c v r_def by (rule app_inv_toggled)
  have "handleSetCompletion ci ri w = startRestTimer (int R) w2"
    using handleSetCompletion_eq [OF c ok v r_def w2_def] nc rt R by (simp add: r_def)
  with inv2 show ?thesis by (intro exI [of _ w2]) (simp add: w2_def)
qed

text \<open>
  Just after a countdown ended, the hiding timeout is pending. A set completed now
  starts a new countdown whose first tick comes before that timeout, which then hides
  the section of the running countdown.
\<close>

lemma race_tail:
  assumes inv: "app_inv w"
    and t: "app_timers w = \<lparr>s_now = T, s_entries = [hide_entry n (T + 2000)], s_next = Suc n\<rparr>"
    and c: "workoutContainer w = Some (PageWorkout cards)"
    and v: "valid_pos cards ci ri" and nc: "\<not> ar_completed (row_at cards ci ri)"
    and rt: "ar_rest_text (row_at cards ci ri) = show_nat R @ ''s repos''" and R: "1 < R"
    and sec: "timerSection w \<noteq> None"
  shows "\<exists>w'. app_run [ClickCheck ci ri, AppFire, AppFire] w = Some w' \<and>
              restTimer (app w') \<noteq> None \<and> timerSection w' = Some False"
proof -
  have idle: "restTimer (app w) = None"
    using inv t by (auto simp: app_inv_def handles_of_def hide_entry_def split: option.splits)
  obtain w2 where w2: "handleSetCompletion ci ri w = startRestTimer (int R) w2"
    "app_timers w2 = app_timers w" "restTimer (app w2) = restTimer (app w)"
    "timerSection w2 = timerSection w"
    using handleSetCompletion_starts [OF inv c v nc rt] R by auto
  let ?w4 = "startRestTimer (int R) w2"
  let ?tick = "\<lparr>t_handle = Suc n, t_due = T + 1000, t_period = Some 1000, t_cb = RestTick\<rparr>"
  have t4: "app_timers ?w4 = \<lparr>s_now = T, s_entries = [hide_entry n (T + 2000), ?tick], s_next = Suc (Suc n)\<rparr>"
    using w2 idle t by (simp add: startRestTimer_fields set_interval_def add_timer_def)
  have a4: "restTimer (app ?w4) = Some (Suc n)" "restTimeRemaining (app ?w4) = int R"
    using w2 t by (simp_all add: startRestTimer_fields)
  have s4: "timerSection ?w4 \<noteq> None" using w2 sec by (simp add: startRestTimer_fields)
  let ?sc1 = "\<lparr>s_now = T + 1000, s_entries = [hide_entry n (T + 2000), ?tick\<lparr>t_due := T + 2000\<rparr>], s_next = Suc (Suc n)\<rparr>"
  have f1: "fire (app_timers ?w4) = Some (RestTick, ?sc1)"
    unfolding t4 by (simp add: fire_def before_def hide_entry_def resched_def)
  let ?w6 = "restTick (?w4\<lparr>app_timers := ?sc1\<rparr>)"
  have w6: "app_timers ?w6 = ?sc1" "restTimer (app ?w6) = Some (Suc n)" "timerSection ?w6 \<noteq> None"
    using a4 s4 R by (simp_all add: restTick_continue)
  let ?sc2 = "\<lparr>s_now = T + 2000, s_entries = [?tick\<lparr>t_due := T + 2000\<rparr>], s_next = Suc (Suc n)\<rparr>"
  have f2: "fire (app_timers ?w6) = Some (HideSection, ?sc2)"
    unfolding w6(1) by (simp add: fire_def before_def hide_entry_def)
  have ex: "check_exists ci ri w" using c v by (simp add: check_exists_def valid_pos_def)
  have "app_run [ClickCheck ci ri, AppFire, AppFire] w = Some (hideSection (?w6\<lparr>app_timers := ?sc2\<rparr>))"
    using ex w2(1) f1 f2 by (simp add: run_app_cb_def)
  moreover have "restTimer (app (hideSection (?w6\<lparr>app_timers := ?sc2\<rparr>))) \<noteq> None"
    using w6 by simp
  moreover have "timerSection (hideSection (?w6\<lparr>app_timers := ?sc2\<rparr>)) = Some False"
    using w6 by (auto simp: hideSection_def)
  ultimately show ?thesis by blast
qed

subsection \<open>Toggling a set twice\<close>

lemma handleSetCompletion_fields:
  assumes inv: "app_inv w" and c: "workoutContainer w = Some (PageWorkout cards)"
    and v: "valid_pos cards ci ri"
  shows "workoutContainer (handleSetCompletion ci ri w) = Some (PageWorkout (toggle_row ci ri cards))"
    and "completedSets (app (handleSetCompletion ci ri w)) =
           (completedSets (app w))(ar_exercise_id (row_at cards ci ri) \<mapsto>
              toggled_sets (completedSets (app w)) (row_at cards ci ri))"
proof -
  have ok: "page_ok (completedSets (app w)) cards" using inv c by (simp add: app_inv_def)
  define r where "r = row_at cards ci ri"
  define w2 where "w2 = set_app (\<lambda>a. a\<lparr>completedSets := (completedSets (app w))(ar_exercise_id r \<mapsto> toggled_sets (completedSets (app w)) r)\<rparr>)
                   (w\<lparr>workoutContainer := Some (PageWorkout (toggle_row ci ri cards))\<rparr>)"
  note eq = handleSetCompletion_eq [OF c ok v r_def w2_def]
  show "workoutContainer (handleSetCompletion ci ri w) = Some (PageWorkout (toggle_row ci ri cards))"
    by (simp add: eq w2_def startRestTimer_fields split: option.split)
  show "completedSets (app (handleSetCompletion ci ri w)) =
          (completedSets (app w))(ar_exercise_id (row_at cards ci ri) \<mapsto>
             toggled_sets (completedSets (app w)) (row_at cards ci ri))"
    by (simp add: eq w2_def r_def startRestTimer_fields split: option.split)
qed

lemma toggle_row_twice:
  assumes "valid_pos cards ci ri" "ar_icon (row_at cards ci ri) = ar_completed (row_at cards ci ri)"
  shows "toggle_row ci ri (toggle_row ci ri cards) = cards"
proof -
  have "(ac_rows (cards ! ci) ! ri)\<lparr>ar_icon := ar_completed (ac_rows (cards ! ci) ! ri)\<rparr> = ac_rows (cards ! ci) ! ri"
    using assms(2) by (simp add: row_at_def)
  with assms(1) show ?thesis by (simp add: toggle_row_def valid_pos_def)
qed

lemma toggled_sets_twice:
  assumes "ar_completed r = set_done cs (ar_exercise_id r) (ar_set r)"
  shows "set_done ((cs(ar_exercise_id r \<mapsto> toggled_sets cs r))(ar_exercise_id r \<mapsto>
            toggled_sets (cs(ar_exercise_id r \<mapsto> toggled_sets cs r))
              (r\<lparr>ar_completed := \<not> ar_completed r, ar_icon := \<not> ar_completed r\<rparr>))) = set_done cs"
  using assms
  by (auto simp: fun_eq_iff set_done_update toggled_sets_def Let_def set_done_sets0)

subsection \<open>Completing a set, then the whole rest\<close>

lemma rest_after_click:
  assumes inv: "app_inv w" and idle: "s_entries (app_timers w) = []"
    and c: "workoutContainer w = Some (PageWorkout cards)"
    and v: "valid_pos cards ci ri" and nc: "\<not> ar_completed (row_at cards ci ri)"
    and rt: "ar_rest_text (row_at cards ci ri) = show_nat R @ ''s repos''" and R: "0 < R"
  shows "\<exists>w3. app_run (ClickCheck ci ri # replicate R AppFire) w = Some w3 \<and> app_inv w3 \<and>
           app w3 = (app (handleSetCompletion ci ri w))\<lparr>restTimer := None, restTimeRemaining := 0\<rparr> \<and>
           app_timers w3 = \<lparr>s_now = s_now (app_timers w) + 1000 * R,
             s_entries = [hide_entry (Suc (s_next (app_timers w))) (s_now (app_timers w) + 1000 * R + 2000)],
             s_next = Suc (Suc (s_next (app_timers w)))\<rparr> \<and>
           workoutContainer w3 = Some (PageWorkout (toggle_row ci ri cards)) \<and>
           timerSection w3 = map_option (\<lambda>_. True) (timerSection w) \<and>
           app_effects w3 = app_effects w @ (if hasVibrate w then [Vibrate] else [])"
proof -
  obtain w2 where w2: "handleSetCompletion ci ri w = startRestTimer (int R) w2" "app_inv w2"
    "app_timers w2 = app_timers w" "restTimer (app w2) = restTimer (app w)"
    "workoutContainer w2 = Some (PageWorkout (toggle_row ci ri cards))"
    "timerSection w2 = timerSection w" "hasVibrate w2 = hasVibrate w" "app_effects w2 = app_effects w"
    using handleSetCompletion_starts [OF inv c v nc rt R] by blast
  let ?w1 = "startRestTimer (int R) w2"
  have r1: "resting (s_now (app_timers w) + 1000) ?w1" "s_next (app_timers ?w1) = Suc (s_next (app_timers w))"
    using start_resting [OF w2(2)] w2(3) idle R by simp_all
  have inv1: "app_inv ?w1" using w2(2) R by (simp add: app_inv_startRestTimer)
  have rem: "restTimeRemaining (app ?w1) = int R" by (simp add: startRestTimer_fields)
  obtain w3 where w3: "app_run (replicate R AppFire) ?w1 = Some w3"
    "app w3 = (app ?w1)\<lparr>restTimer := None, restTimeRemaining := 0\<rparr>"
    "app_timers w3 = \<lparr>s_now = s_now (app_timers w) + 1000 + 1000 * (R - 1),
       s_entries = [hide_entry (s_next (app_timers ?w1)) (s_now (app_timers w) + 1000 + 1000 * (R - 1) + 2000)],
       s_next = Suc (s_next (app_timers ?w1))\<rparr>"
    "workoutContainer w3 = workoutContainer ?w1" "timerSection w3 = timerSection ?w1"
    "hasVibrate w3 = hasVibrate ?w1"
    "app_effects w3 = app_effects ?w1 @ (if hasVibrate ?w1 then [Vibrate] else [])"
    using rest_countdown_run [OF r1(1) rem] by blast
  define T where "T = s_now (app_timers w) + 1000 * R"
  have T_eq: "s_now (app_timers w) + 1000 + 1000 * (R - 1) = T" using R by (cases R) (simp_all add: T_def)
  have t3: "app_timers w3 = \<lparr>s_now = T, s_entries = [hide_entry (s_next (app_timers ?w1)) (T + 2000)],
              s_next = Suc (s_next (app_timers ?w1))\<rparr>"
    using w3(3) by (simp only: T_eq)
  have ex: "check_exists ci ri w" using c v by (simp add: check_exists_def valid_pos_def)
  have run: "app_run (ClickCheck ci ri # replicate R AppFire) w = Some w3"
    using ex w2(1) w3(1) by simp
  have "app_inv w3" using w3(1) inv1 by (rule app_run_inv)
  with run t3 r1(2) w3 w2 show ?thesis unfolding T_def by (simp add: startRestTimer_fields)
qed

subsection \<open>The demo page\<close>

lemma demo_page_reach: "app_reach demo_page"
  by (rule app_reach.init)

lemma demo_page_fields:
  "weekDisplay demo_page = Some None" "app demo_page = app_new" "s_entries (app_timers demo_page) = []"
  "s_now (app_timers demo_page) = 0" "s_next (app_timers demo_page) = 1"
  "timerSection demo_page = Some False" "hasVibrate demo_page" "app_effects demo_page = []"
  "prevBtn demo_page = Some False" "nextBtn demo_page = Some False"
  "workoutContainer demo_page = Some (PageWorkout (generateWorkoutHTML app_new (the getDemoWorkout)))"
  by (simp_all add: app_init_def app_page_new_def renderCurrentWorkout_def getDemoWorkout_def)

lemma demo_squat_rows:
  "valid_pos (generateWorkoutHTML app_new (the getDemoWorkout)) 0 ri \<longleftrightarrow> ri < 4"
  "ri < 4 \<Longrightarrow> \<not> ar_completed (row_at (generateWorkoutHTML app_new (the getDemoWorkout)) 0 ri)"
  "ri < 4 \<Longrightarrow> ar_rest_text (row_at (generateWorkoutHTML app_new (the getDemoWorkout)) 0 ri) = show_nat 75 @ ''s repos''"
  by (simp_all add: valid_pos_generate row_at_generate getDemoWorkout_def app_new_def set_done_def)

lemma demo_rows:
  "valid_pos (generateWorkoutHTML app_new (the getDemoWorkout)) 0 0"
  "valid_pos (generateWorkoutHTML app_new (the getDemoWorkout)) 0 1"
  "\<not> ar_completed (row_at (generateWorkoutHTML app_new (the getDemoWorkout)) 0 0)"
  "\<not> ar_completed (row_at (generateWorkoutHTML app_new (the getDemoWorkout)) 0 1)"
  "ar_rest_text (row_at (generateWorkoutHTML app_new (the getDemoWorkout)) 0 0) = show_nat 75 @ ''s repos''"
  "ar_rest_text (row_at (generateWorkoutHTML app_new (the getDemoWorkout)) 0 1) = show_nat 75 @ ''s repos''"
  using demo_squat_rows [of 0] demo_squat_rows [of 1] by simp_all

lemma demo_check_00: "check_exists 0 0 demo_page"
  using demo_rows(1) demo_page_fields(11) by (simp add: check_exists_def valid_pos_def getDemoWorkout_def)

section \<open>Properties\<close>

text \<open>
  C18. The week shown stays between 1 and \<open>maxWeeks\<close>, and \<open>maxWeeks\<close> stays 26, in
  every reachable page.
\<close>

theorem app_week_bounds:
  "app_reach w \<Longrightarrow> 1 \<le> currentWeek (app w) \<and> currentWeek (app w) \<le> maxWeeks (app w) \<and> maxWeeks (app w) = 26"
  by (drule app_reach_inv) (simp add: app_inv_def)

theorem app_week_bounds_witness:
  "app_reach demo_page \<and> 1 \<le> currentWeek (app demo_page) \<and> currentWeek (app demo_page) \<le> maxWeeks (app demo_page) \<and>
   maxWeeks (app demo_page) = 26"
  using app_week_bounds [of demo_page] demo_page_reach by simp

text \<open>
  C19. Whenever the week display has been drawn, it shows a block between 1 and 7 and
  a defined tempo (the tempo table has six entries; block 7 wraps to the first).
\<close>

theorem week_display_block:
  "app_reach w \<Longrightarrow> weekDisplay w = Some (Some d) \<Longrightarrow> 1 \<le> wd_bloc d \<and> wd_bloc d \<le> 7 \<and> wd_tempo d \<noteq> None"
  by (drule app_reach_inv) (simp add: app_inv_def)

theorem week_display_block_witness:
  "app_reach (changeWeek 1 demo_page) \<and>
   weekDisplay (changeWeek 1 demo_page) = Some (Some \<lparr>wd_week = 2, wd_max = 26, wd_bloc = 1, wd_tempo = Some ''3-1-2''\<rparr>) \<and>
   1 \<le> (1::int) \<and> (1::int) \<le> 7 \<and> Some ''3-1-2'' \<noteq> None"
proof -
  have step: "app_step ClickNext demo_page = Some (changeWeek 1 demo_page)"
    using demo_page_fields(10) by simp
  have r: "app_reach (changeWeek 1 demo_page)" using demo_page_reach step by (rule app_reach.step)
  have d: "weekDisplay (changeWeek 1 demo_page) = Some (Some \<lparr>wd_week = 2, wd_max = 26, wd_bloc = 1, wd_tempo = Some ''3-1-2''\<rparr>)"
    by (simp add: changeWeek_def updateWeekDisplay_def demo_page_fields(1,2) app_new_def Let_def ceil_div_def
        js_rem_def js_index_int_def js_index_def tempos_def)
  show ?thesis using r d week_display_block [OF r d] by simp
qed

text \<open>
  C20. Week navigation is clamped: \<open>next\<close> moves one week forward unless the last week
  is shown, \<open>previous\<close> one week back unless the first is shown, and a rejected move
  leaves the whole page unchanged.
\<close>

theorem week_nav_clamped:
  assumes "app_reach w" "app_step ClickNext w = Some wn" "app_step ClickPrev w = Some wp"
  shows "(if currentWeek (app w) < 26 then currentWeek (app wn) = currentWeek (app w) + 1 else wn = w) \<and>
         (if 1 < currentWeek (app w) then currentWeek (app wp) = currentWeek (app w) - 1 else wp = w)"
proof -
  have inv: "app_inv w" using assms(1) by (rule app_reach_inv)
  have "wn = changeWeek 1 w" "wp = changeWeek (-1) w" using assms(2,3) by (simp_all split: if_splits)
  with inv show ?thesis by (auto simp: app_inv_def changeWeek_def Let_def)
qed

theorem week_nav_clamped_witness:
  "app_reach demo_page \<and> app_step ClickNext demo_page = Some (changeWeek 1 demo_page) \<and>
   app_step ClickPrev demo_page = Some (changeWeek (-1) demo_page) \<and>
   currentWeek (app (changeWeek 1 demo_page)) = 2 \<and> changeWeek (-1) demo_page = demo_page"
proof -
  have a: "app_reach demo_page" "app_step ClickNext demo_page = Some (changeWeek 1 demo_page)"
    "app_step ClickPrev demo_page = Some (changeWeek (-1) demo_page)"
    using demo_page_reach demo_page_fields by simp_all
  have "currentWeek (app demo_page) = 1" by (simp add: demo_page_fields(2) app_new_def)
  with week_nav_clamped [OF a] a show ?thesis by simp
qed

text \<open>
  C21. In every reachable page, each rendered set row shows completed (its class and
  its icon) exactly when its set is recorded in \<open>completedSets\<close>.
\<close>

theorem page_matches_completed:
  assumes "app_reach w" "workoutContainer w = Some (PageWorkout cards)" "valid_pos cards ci ri"
  shows "ar_completed (row_at cards ci ri) =
           set_done (completedSets (app w)) (ar_exercise_id (row_at cards ci ri)) (ar_set (row_at cards ci ri)) \<and>
         ar_icon (row_at cards ci ri) = ar_completed (row_at cards ci ri)"
  using app_reach_inv [OF assms(1)] assms(2,3) by (simp add: app_inv_def page_ok_def)

theorem page_matches_completed_witness:
  "app_reach demo_page \<and>
   workoutContainer demo_page = Some (PageWorkout (generateWorkoutHTML app_new (the getDemoWorkout))) \<and>
   valid_pos (generateWorkoutHTML app_new (the getDemoWorkout)) 0 2 \<and>
   ar_completed (row_at (generateWorkoutHTML app_new (the getDemoWorkout)) 0 2) =
     set_done (completedSets (app demo_page)) ''squat'' 3"
proof -
  have a: "app_reach demo_page"
    "workoutContainer demo_page = Some (PageWorkout (generateWorkoutHTML app_new (the getDemoWorkout)))"
    "valid_pos (generateWorkoutHTML app_new (the getDemoWorkout)) 0 2"
    using demo_page_reach demo_page_fields(11) demo_squat_rows(1) [of 2] by simp_all
  have "ar_exercise_id (row_at (generateWorkoutHTML app_new (the getDemoWorkout)) 0 2) = ''squat''"
    "ar_set (row_at (generateWorkoutHTML app_new (the getDemoWorkout)) 0 2) = 3"
    by (simp_all add: row_at_generate getDemoWorkout_def Let_def)
  with page_matches_completed [OF a] a show ?thesis by simp
qed

text \<open>
  C22. Clicking the same check button twice restores the rendered page and which sets
  are recorded as completed (the rest timer the first click may have started keeps
  running).
\<close>

theorem toggle_twice_restores:
  assumes reach: "app_reach w" and ex: "check_exists ci ri w"
  shows "\<exists>w1 w2. app_step (ClickCheck ci ri) w = Some w1 \<and> app_step (ClickCheck ci ri) w1 = Some w2 \<and>
           workoutContainer w2 = workoutContainer w \<and>
           set_done (completedSets (app w2)) = set_done (completedSets (app w))"
proof -
  have inv: "app_inv w" using reach by (rule app_reach_inv)
  obtain cards where c: "workoutContainer w = Some (PageWorkout cards)" and v: "valid_pos cards ci ri"
    using ex by (auto simp: check_exists_def valid_pos_def split: option.splits app_page.splits)
  have ok: "page_ok (completedSets (app w)) cards" using inv c by (simp add: app_inv_def)
  let ?r = "row_at cards ci ri"
  let ?w1 = "handleSetCompletion ci ri w"
  have inv1: "app_inv ?w1" using inv ex by (rule app_inv_handleSetCompletion)
  have c1: "workoutContainer ?w1 = Some (PageWorkout (toggle_row ci ri cards))"
    and cs1: "completedSets (app ?w1) = (completedSets (app w))(ar_exercise_id ?r \<mapsto> toggled_sets (completedSets (app w)) ?r)"
    using handleSetCompletion_fields [OF inv c v] by simp_all
  have "ci < length cards" using v by (simp add: valid_pos_def)
  then have v1: "valid_pos (toggle_row ci ri cards) ci ri" using v by simp
  have ex1: "check_exists ci ri ?w1" using c1 v1 by (simp add: check_exists_def valid_pos_def)
  have r1: "row_at (toggle_row ci ri cards) ci ri = ?r\<lparr>ar_completed := \<not> ar_completed ?r, ar_icon := \<not> ar_completed ?r\<rparr>"
    using v by (simp add: row_at_toggle_row)
  have icon: "ar_icon ?r = ar_completed ?r" and dn: "ar_completed ?r = set_done (completedSets (app w)) (ar_exercise_id ?r) (ar_set ?r)"
    using ok v by (simp_all add: page_ok_def)
  let ?w2 = "handleSetCompletion ci ri ?w1"
  have "workoutContainer ?w2 = workoutContainer w"
    using handleSetCompletion_fields(1) [OF inv1 c1 v1] toggle_row_twice [OF v icon] c by simp
  moreover have "set_done (completedSets (app ?w2)) = set_done (completedSets (app w))"
    using handleSetCompletion_fields(2) [OF inv1 c1 v1] r1 cs1 toggled_sets_twice [OF dn] by simp
  ultimately show ?thesis using ex ex1 by simp
qed

theorem toggle_twice_restores_witness:
  "app_reach demo_page \<and> check_exists 0 0 demo_page \<and>
   (\<exists>w1 w2. app_step (ClickCheck 0 0) demo_page = Some w1 \<and> app_step (ClickCheck 0 0) w1 = Some w2 \<and>
      workoutContainer w2 = workoutContainer demo_page \<and>
      set_done (completedSets (app w2)) = set_done (completedSets (app demo_page)))"
proof -
  have v: "valid_pos (generateWorkoutHTML app_new (the getDemoWorkout)) 0 0"
    using demo_squat_rows(1) [of 0] by simp
  have a: "app_reach demo_page" "check_exists 0 0 demo_page"
    using demo_page_reach demo_page_fields(11) v by (simp_all add: check_exists_def valid_pos_def getDemoWorkout_def)
  show ?thesis using toggle_twice_restores [OF a] a by simp
qed

text \<open>
  C23. At most one rest interval is ever scheduled: the browser's timer table holds a
  \<open>RestTick\<close> entry exactly when \<open>restTimer\<close> is set, and then just one, the
  interval \<open>restTimer\<close> holds (\<open>startRestTimer\<close> clears the previous one first).
\<close>

theorem rest_single_interval:
  assumes "app_reach w"
  shows "map t_handle (filter (\<lambda>e. t_cb e = RestTick) (s_entries (app_timers w))) =
           (case restTimer (app w) of None \<Rightarrow> [] | Some h \<Rightarrow> [h])"
proof -
  have "handles_of is_rest_tick (app_timers w) = (case restTimer (app w) of None \<Rightarrow> [] | Some h \<Rightarrow> [h])"
    using app_reach_inv [OF assms] by (simp add: app_inv_def)
  then show ?thesis by (simp add: handles_of_def is_rest_tick_def)
qed

theorem rest_single_interval_witness:
  "app_reach (handleSetCompletion 0 1 (handleSetCompletion 0 0 demo_page)) \<and>
   map t_handle (filter (\<lambda>e. t_cb e = RestTick) (s_entries (app_timers (handleSetCompletion 0 1 (handleSetCompletion 0 0 demo_page))))) = [2]"
proof -
  let ?g = "generateWorkoutHTML app_new (the getDemoWorkout)"
  have r1: "app_reach (handleSetCompletion 0 0 demo_page)"
    using demo_page_reach app_reach.step [of demo_page "ClickCheck 0 0"] demo_check_00 by simp
  obtain w2 where w2: "handleSetCompletion 0 0 demo_page = startRestTimer 75 w2"
      "app_inv w2" "app_timers w2 = app_timers demo_page" "restTimer (app w2) = restTimer (app demo_page)"
      "workoutContainer w2 = Some (PageWorkout (toggle_row 0 0 ?g))"
    using handleSetCompletion_starts [OF app_reach_inv [OF demo_page_reach] demo_page_fields(11) demo_rows(1,3,5)]
    by auto
  have c1: "workoutContainer (handleSetCompletion 0 0 demo_page) = Some (PageWorkout (toggle_row 0 0 ?g))"
    using w2 by (simp add: startRestTimer_fields)
  have "0 < length ?g" using demo_rows(1) by (simp add: valid_pos_def)
  then have v1: "valid_pos (toggle_row 0 0 ?g) 0 1" using demo_rows(2) by simp
  have row1: "row_at (toggle_row 0 0 ?g) 0 1 = row_at ?g 0 1"
    using demo_rows(1,2) by (simp add: row_at_toggle_row)
  have ex1: "check_exists 0 1 (handleSetCompletion 0 0 demo_page)"
    using c1 v1 by (simp add: check_exists_def valid_pos_def)
  have r2: "app_reach (handleSetCompletion 0 1 (handleSetCompletion 0 0 demo_page))"
    using r1 app_reach.step [of "handleSetCompletion 0 0 demo_page" "ClickCheck 0 1"] ex1 by simp
  have n1: "s_next (app_timers (handleSetCompletion 0 0 demo_page)) = 2"
    using w2(1,3) demo_page_fields(5) by (simp add: startRestTimer_fields set_interval_def split: option.split)
  obtain w3 where w3: "handleSetCompletion 0 1 (handleSetCompletion 0 0 demo_page) = startRestTimer 75 w3"
      "app_timers w3 = app_timers (handleSetCompletion 0 0 demo_page)"
    using handleSetCompletion_starts [OF app_reach_inv [OF r1] c1 v1, of 75] row1 demo_rows(4,6) by auto
  have "restTimer (app (startRestTimer 75 w3)) = Some (s_next (app_timers w3))"
    by (simp add: startRestTimer_fields)
  then have "restTimer (app (handleSetCompletion 0 1 (handleSetCompletion 0 0 demo_page))) = Some 2"
    using w3 n1 by simp
  with rest_single_interval [OF r2] r2 show ?thesis by simp
qed

text \<open>
  C24. A rest countdown runs to its end: completing a set whose rest is \<open>R > 0\<close>
  seconds on a page with no timer pending, then letting \<open>R\<close> timer firings happen,
  stops the countdown at 0 exactly \<open>R\<close> seconds later, vibrates once when the browser
  can, and leaves the 2 s hiding timeout as the only pending timer.
\<close>

theorem rest_countdown_completes:
  assumes "app_reach w" "s_entries (app_timers w) = []"
    "workoutContainer w = Some (PageWorkout cards)" "valid_pos cards ci ri"
    "\<not> ar_completed (row_at cards ci ri)" "ar_rest_text (row_at cards ci ri) = show_nat R @ ''s repos''"
    "0 < R"
  shows "\<exists>w'. app_run (ClickCheck ci ri # replicate R AppFire) w = Some w' \<and>
           restTimer (app w') = None \<and> restTimeRemaining (app w') = 0 \<and>
           s_now (app_timers w') = s_now (app_timers w) + 1000 * R \<and>
           app_effects w' = app_effects w @ (if hasVibrate w then [Vibrate] else []) \<and>
           map t_cb (s_entries (app_timers w')) = [HideSection]"
proof -
  obtain w3 where w3: "app_run (ClickCheck ci ri # replicate R AppFire) w = Some w3"
    "app w3 = (app (handleSetCompletion ci ri w))\<lparr>restTimer := None, restTimeRemaining := 0\<rparr>"
    "app_timers w3 = \<lparr>s_now = s_now (app_timers w) + 1000 * R,
       s_entries = [hide_entry (Suc (s_next (app_timers w))) (s_now (app_timers w) + 1000 * R + 2000)],
       s_next = Suc (Suc (s_next (app_timers w)))\<rparr>"
    "app_effects w3 = app_effects w @ (if hasVibrate w then [Vibrate] else [])"
    using rest_after_click [OF app_reach_inv [OF assms(1)] assms(2-7)] by blast
  have "restTimer (app w3) = None" "restTimeRemaining (app w3) = 0"
    "s_now (app_timers w3) = s_now (app_timers w) + 1000 * R"
    "map t_cb (s_entries (app_timers w3)) = [HideSection]"
    using w3(2,3) by (simp_all add: hide_entry_def)
  note facts = w3(1,4) this
  show ?thesis
    by (rule exI [of _ w3], intro conjI) (fact facts)+
qed

theorem rest_countdown_completes_witness:
  "\<exists>w'. app_run (ClickCheck 0 0 # replicate 75 AppFire) demo_page = Some w' \<and>
     restTimer (app w') = None \<and> restTimeRemaining (app w') = 0 \<and> s_now (app_timers w') = 75000 \<and>
     app_effects w' = [Vibrate] \<and> map t_cb (s_entries (app_timers w')) = [HideSection]"
  using rest_countdown_completes [OF demo_page_reach demo_page_fields(3,11) demo_rows(1,3,5)]
    demo_page_fields
  by simp

text \<open>
  C25. The hiding timeout is never cancelled: completing another set within the 2 s
  after a countdown ended starts a new countdown, and the old timeout then hides the
  timer section while that countdown runs.
\<close>

theorem hide_section_race:
  assumes "app_reach w" "s_entries (app_timers w) = []" "timerSection w \<noteq> None"
    "workoutContainer w = Some (PageWorkout cards)"
    "valid_pos cards ci ri" "\<not> ar_completed (row_at cards ci ri)"
    "ar_rest_text (row_at cards ci ri) = show_nat R @ ''s repos''" "0 < R"
    "valid_pos cards cj rj" "(cj, rj) \<noteq> (ci, ri)" "\<not> ar_completed (row_at cards cj rj)"
    "ar_rest_text (row_at cards cj rj) = show_nat R' @ ''s repos''" "1 < R'"
  shows "\<exists>w'. app_run (ClickCheck ci ri # replicate R AppFire @ [ClickCheck cj rj, AppFire, AppFire]) w = Some w' \<and>
              app_reach w' \<and> restTimer (app w') \<noteq> None \<and> timerSection w' = Some False"
proof -
  obtain w3 where w3: "app_run (ClickCheck ci ri # replicate R AppFire) w = Some w3" "app_inv w3"
    "app_timers w3 = \<lparr>s_now = s_now (app_timers w) + 1000 * R,
       s_entries = [hide_entry (Suc (s_next (app_timers w))) (s_now (app_timers w) + 1000 * R + 2000)],
       s_next = Suc (Suc (s_next (app_timers w)))\<rparr>"
    "workoutContainer w3 = Some (PageWorkout (toggle_row ci ri cards))"
    "timerSection w3 = map_option (\<lambda>_. True) (timerSection w)"
    using rest_after_click [OF app_reach_inv [OF assms(1)] assms(2,4-8)] by blast
  have ci: "ci < length cards" using assms(5) by (simp add: valid_pos_def)
  have v': "valid_pos (toggle_row ci ri cards) cj rj" using assms(9) ci by simp
  have row': "row_at (toggle_row ci ri cards) cj rj = row_at cards cj rj"
    using assms(5,9,10) by (auto simp: row_at_toggle_row)
  have nc': "\<not> ar_completed (row_at (toggle_row ci ri cards) cj rj)"
    and rt': "ar_rest_text (row_at (toggle_row ci ri cards) cj rj) = show_nat R' @ ''s repos''"
    using row' assms(11,12) by simp_all
  have sec': "timerSection w3 \<noteq> None" using w3(5) assms(3) by simp
  obtain w' where w': "app_run [ClickCheck cj rj, AppFire, AppFire] w3 = Some w'"
      "restTimer (app w') \<noteq> None" "timerSection w' = Some False"
    using race_tail [OF w3(2,3,4) v' nc' rt' assms(13) sec'] by blast
  have run: "app_run (ClickCheck ci ri # replicate R AppFire @ [ClickCheck cj rj, AppFire, AppFire]) w = Some w'"
    using w3(1) w'(1) app_run_append [of "ClickCheck ci ri # replicate R AppFire"] by simp
  have "app_reach w'" using run assms(1) by (rule app_run_reach)
  with run w' show ?thesis by blast
qed

theorem hide_section_race_witness:
  "\<exists>w'. app_run (ClickCheck 0 0 # replicate 75 AppFire @ [ClickCheck 0 1, AppFire, AppFire]) demo_page = Some w' \<and>
     app_reach w' \<and> restTimer (app w') \<noteq> None \<and> timerSection w' = Some False"
proof -
  have a: "timerSection demo_page \<noteq> None" "0 < (75::nat)" "(0::nat, 1::nat) \<noteq> (0, 0)" "1 < (75::nat)"
    using demo_page_fields(6) by simp_all
  show ?thesis
    using hide_section_race [OF demo_page_reach demo_page_fields(3) a(1) demo_page_fields(11)
        demo_rows(1,3,5) a(2) demo_rows(2) a(3) demo_rows(4,6) a(4)] by simp
qed

text \<open>
  C31. Completed sets are not kept per week: moving to the next week keeps
  \<open>completedSets\<close> and re-renders the same demo workout from it, so the new week shows
  exactly the rows completed in the previous one.
\<close>

theorem completion_shared_across_weeks:
  assumes "app_reach w" "app_step ClickNext w = Some w'" "currentWeek (app w) < 26"
    "workoutContainer w \<noteq> None"
  shows "currentWeek (app w') = currentWeek (app w) + 1 \<and> completedSets (app w') = completedSets (app w) \<and>
         workoutContainer w' = Some (PageWorkout (generateWorkoutHTML (app w') (the getDemoWorkout)))"
proof -
  have inv: "app_inv w" using assms(1) by (rule app_reach_inv)
  have w': "w' = changeWeek 1 w" using assms(2) by (simp split: if_splits)
  show ?thesis
    using inv assms(3,4)
    by (auto simp: w' app_inv_def changeWeek_def Let_def renderCurrentWorkout_def getDemoWorkout_def)
qed

theorem completion_shared_across_weeks_witness:
  "app_reach demo_page \<and> app_step ClickNext demo_page = Some (changeWeek 1 demo_page) \<and>
   currentWeek (app demo_page) < 26 \<and> workoutContainer demo_page \<noteq> None \<and>
   completedSets (app (changeWeek 1 demo_page)) = completedSets (app demo_page)"
proof -
  have a: "app_reach demo_page" "app_step ClickNext demo_page = Some (changeWeek 1 demo_page)"
    "currentWeek (app demo_page) < 26" "workoutContainer demo_page \<noteq> None"
    using demo_page_reach demo_page_fields by (simp_all add: app_new_def)
  show ?thesis using completion_shared_across_weeks [OF a] a by simp
qed

end
