(* ===== verification/Spec2Isabelle.thy ===== *)
theory Spec2Isabelle
  imports TimerManager WorkoutRenderer App
begin

text \<open>
  \<^bold>\<open>A verification development of the Hybrid Master workout page.\<close>

  \<^bold>\<open>The program.\<close> Three browser scripts. src/scripts/modules/timer-manager.js
  (\<open>class TimerManager\<close>) is a stopwatch / countdown: \<open>start\<close>, \<open>pause\<close>,
  \<open>toggle\<close>, \<open>reset\<close>, \<open>complete\<close>, a one-second \<open>setInterval\<close> tick, the
  \<open>formatTime\<close> clock text, a display element and buttons it keeps in step, a
  completion banner removed by two nested timeouts, a sound and a system notification.
  src/scripts/ui/workout-renderer.js (\<open>class WorkoutRenderer\<close>) turns a workout day
  into exercise cards: superset detection, the parameter summary, one row per set.
  src/scripts/app.js (\<open>class App\<close>) is the page itself: week navigation, its own
  card renderer over a demo workout, the completed-sets map updated by clicks on the
  set buttons, and its own rest countdown started when a set is completed. The three
  share no state: app.js never instantiates the other two classes; they interact only
  through the page (the same \<open>timer-display\<close> element id) and the browser's timers.

  \<^bold>\<open>Library.\<close>
  \<^item> \<open>Prelude\<close>: the JavaScript and browser semantics the code relies on, which are
    not code of the repository: truthiness (\<open>truthy\<close>, \<open>truthy_num\<close>,
    \<open>truthy_str\<close>), \<open>String(n)\<close> (\<open>show_nat\<close>), \<open>padStart\<close>
    (\<open>pad_start\<close>), \<open>parseInt\<close> (\<open>parse_int\<close>, with the round trip
    \<open>parse_int_show_nat\<close>), and the browser's timer table (\<open>sched\<close>:
    \<open>set_interval\<close>, \<open>set_timeout\<close>, \<open>clear_timer\<close>, \<open>fire\<close> of the earliest
    due entry, \<open>wait\<close>), with its well-formedness \<open>sched_wf\<close> and the facts every
    component uses (\<open>fire_Some\<close>, \<open>fire_handles_of\<close>, \<open>handles_of_*\<close>).
    The collections \<open>js_simps\<close>, \<open>sched_simps\<close> and \<open>frame_simps\<close> gather the
    evaluation, timer-table and frame rules.
  \<^item> \<open>TimeFormat\<close>: \<open>formatTime\<close> (timer-manager.js) and the rest-clock text and
    colour of \<open>App.updateTimerDisplay\<close> (app.js); properties C8 to C10: the
    \<open>M:SS\<close> and \<open>H:MM:SS\<close> shapes and the round trip through \<open>read_clock\<close>.
  \<^item> \<open>TimerManager\<close>: the class as the record \<open>timer_manager\<close> inside the world
    \<open>tm_world\<close> (its DOM elements, banners, permission, timer table and effect log);
    one definition per method (\<open>start\<close>, \<open>pause\<close>, \<open>toggle\<close>, \<open>reset\<close>,
    \<open>complete\<close>, \<open>tick\<close> the interval's body, \<open>updateDisplay\<close>,
    \<open>updateButtons\<close>, \<open>showVisualNotification\<close> with \<open>fadeBanner\<close> and
    \<open>removeBanner\<close> its two timeouts, \<open>getState\<close>, \<open>setState\<close>, \<open>tm_init\<close>);
    \<open>tm_step\<close> is one event of the page and \<open>tm_reach\<close> the worlds reachable from
    a freshly initialised timer. The invariant \<open>tm_inv\<close> (well-formed table, exactly
    the held interval is a \<open>Tick\<close>, running iff an interval is held, finished implies
    stopped) is proved for every method and lifted to \<open>tm_reach\<close> by rule induction
    (\<open>tm_reach_inv\<close>). Properties C1 to C7: one tick interval at most, \<open>start\<close>
    idempotent, pause/start resumes, reset clears, a countdown of \<open>t\<close> seconds
    completes after exactly \<open>t\<close> ticks with one sound, a stopped timer is quiescent,
    finished implies stopped; C28 to C30: a countdown paused and resumed by
    \<open>toggle\<close> loses its target and never finishes, \<open>setState\<close> restores a snapshot
    exactly when it has no target and is not finished, and the completion banner is
    faded after 3 s and removed after 3.5 s.
  \<^item> \<open>WorkoutRenderer\<close>: \<open>class WorkoutRenderer\<close> (workout-renderer.js) with the
    exercise as the record \<open>exercise\<close> (JavaScript values where the code tests
    truthiness), \<open>detectSupersets\<close> (the one-step lookahead through
    \<open>mark_superset\<close>), \<open>renderParams\<close>, \<open>renderSeries\<close>, \<open>renderExercise\<close> and
    \<open>render\<close> into the container state \<open>rendered\<close>. Properties C11 to C17: the
    superset rule at every index (from which the specification's example
    \<open>[A(X,60), B(X,60), C(Y,30)]\<close> marks A alone, not A and B), the rest-day and
    missing-container paths, one row per set never shown completed, the canonical
    parameter order, one card per exercise.
  \<^item> \<open>App\<close>: \<open>class App\<close> (app.js) as the state record \<open>app_state\<close> inside the world
    \<open>app_world\<close> (workout container, week display and buttons, timer display and
    section, navigation, timer table, vibrations); one definition per method
    (\<open>changeWeek\<close>, \<open>updateWeekDisplay\<close>, \<open>renderCurrentWorkout\<close>,
    \<open>generateWorkoutHTML\<close>, \<open>generateSetsHTML\<close>, \<open>handleSetCompletion\<close> with
    \<open>toggle_row\<close> and \<open>toggled_sets\<close>, \<open>startRestTimer\<close> with \<open>restTick\<close> its
    interval, \<open>onTimerComplete\<close> with \<open>hideSection\<close> its timeout,
    \<open>handleNavClick\<close>, \<open>showError\<close>, \<open>app_init\<close>); \<open>app_step\<close> is one event of
    \<open>attachEventListeners\<close> or one timer firing, \<open>app_reach\<close> the pages reachable
    from start-up. The invariant \<open>app_inv\<close> (well-formed table, exactly the held rest
    interval is a \<open>RestTick\<close>, a running countdown has time left, the week within
    \<open>1..26\<close>, a drawn block within \<open>1..7\<close> with a tempo, the rendered rows agreeing
    with \<open>completedSets\<close>: \<open>page_ok\<close>) is proved for every method and lifted by
    rule induction (\<open>app_reach_inv\<close>). Properties C18 to C25: week bounds, block and
    tempo, clamped navigation, page/map agreement (which covers the specification's
    \<open>{squat: {1, 3}}\<close> example), toggling twice restores, one rest interval, a rest of \<open>R\<close> seconds ends
    after \<open>R\<close> firings with one vibration, and the hiding race (a code bug:
    \<open>onTimerComplete\<close>'s 2 s timeout is never cancelled and hides a countdown that
    started within those 2 s); C31: completed sets are shared by all weeks.

  \<^item> This theory: the countdown the specification describes (\<open>countdown\<close>,
    \<open>cd_tick\<close>), what each component shows of it (\<open>abs_tm\<close>, \<open>abs_app\<close>), the
    simulation lemmas (\<open>tm_sim_run\<close>, \<open>app_sim_run\<close>: one firing of the interval
    is one abstract tick) and properties C26 and C27: each component refines the
    countdown, one firing per abstract tick, so the two count down in step.

  \<^bold>\<open>Time and fuel.\<close> No loop of the program is unbounded: time is the browser's
  clock in milliseconds (\<open>s_now\<close>), advanced by firing the earliest due timer or by
  \<open>Wait\<close> up to the next due time. The countdown theorems C5 and C24 need no fuel:
  they name the exact event sequence (start, then one firing per second) and are proved
  by induction on the number of seconds (\<open>countdown_run\<close>, \<open>rest_countdown_run\<close>).

  \<^bold>\<open>Not modelled, and why.\<close> Console logging (no observable state); the CSS text
  and keyframes of the banner and the colours' hex codes (styling); the audio data and
  the promise of \<open>audio.play()\<close> (its failure is swallowed: the model records the
  attempt); the notification permission prompt's UI (the answer is an event); numbers
  that are not non-negative integers in the timer (\<open>seconds\<close> only grows from 0 by 1,
  or is set by \<open>setState\<close> from a stored non-negative value); the HTML markup itself
  (the model keeps what it carries: cards, rows, classes, data attributes, texts);
  \<open>init()\<close>'s catch branch (nothing it calls throws in the model; \<open>showError\<close> is
  modelled).

  \<^bold>\<open>Plan for the next sittings.\<close> The two renderers' card layouts against each
  other; the banner life cycle when completions overlap (several banners at once); the renderer's
  \<open>renderParams\<close> and \<open>renderExercise\<close> on every optional field.
\<close>

section \<open>The countdown both components implement\<close>

text \<open>
  The specification's countdown (TimerState with a target; the rest timer): a number
  of whole seconds left, each one-second tick taking one away, the last one expiring it.
\<close>

datatype countdown = Counting nat | Expired

definition cd_tick :: "countdown \<Rightarrow> countdown" where
  "cd_tick c = (case c of Counting n \<Rightarrow> if n \<le> 1 then Expired else Counting (n - 1) | Expired \<Rightarrow> Expired)"

text \<open>
  What the TimerManager shows of it: a running countdown below its target has
  \<open>target - seconds\<close> left, a finished one has expired; a stopwatch or a paused timer is
  no countdown (\<open>None\<close>).
\<close>

definition abs_tm :: "tm_world \<Rightarrow> countdown option" where
  "abs_tm w =
     (if isRunning (tm w) then
        (case targetSeconds (tm w) of
           Some t \<Rightarrow> if int (seconds (tm w)) < t then Some (Counting (nat (t - int (seconds (tm w))))) else None
         | None \<Rightarrow> None)
      else if isFinished (tm w) then Some Expired else None)"

text \<open>What the App shows of it: \<open>restTimeRemaining\<close> while \<open>restTimer\<close> is set.\<close>

definition abs_app :: "app_world \<Rightarrow> countdown" where
  "abs_app w = (case restTimer (app w) of Some _ \<Rightarrow> Counting (nat (restTimeRemaining (app w))) | None \<Rightarrow> Expired)"

section \<open>Simulation lemmas\<close>

lemma cd_tick_simps [simp]:
  "cd_tick Expired = Expired" "1 < n \<Longrightarrow> cd_tick (Counting n) = Counting (n - 1)"
  "n \<le> 1 \<Longrightarrow> cd_tick (Counting n) = Expired"
  by (simp_all add: cd_tick_def)

lemma cd_tick_pow_Expired [simp]: "(cd_tick ^^ k) Expired = Expired"
  by (induction k) simp_all

lemma cd_tick_pow_lt: "k < n \<Longrightarrow> (cd_tick ^^ k) (Counting n) = Counting (n - k)"
  by (induction k) simp_all

lemma abs_tm_counting: "counting t w \<Longrightarrow> seconds (tm w) < t \<Longrightarrow> abs_tm w = Some (Counting (t - seconds (tm w)))"
  by (auto simp: abs_tm_def counting_def nat_diff_distrib)

lemma abs_tm_finished: "isFinished (tm w) \<Longrightarrow> \<not> isRunning (tm w) \<Longrightarrow> abs_tm w = Some Expired"
  by (simp add: abs_tm_def)

text \<open>Each firing of a TimerManager countdown is one abstract tick.\<close>

lemma tm_sim_run:
  "counting t w \<Longrightarrow> seconds (tm w) < t \<Longrightarrow> seconds (tm w) + k \<le> t \<Longrightarrow>
   \<exists>w'. tm_run (replicate k Fire) w = Some w' \<and> abs_tm w' = Some ((cd_tick ^^ k) (Counting (t - seconds (tm w))))"
proof (induction k arbitrary: w)
  case 0
  then show ?case by (simp add: abs_tm_counting)
next
  case (Suc k)
  show ?case
  proof (cases "Suc (seconds (tm w)) < t")
    case True
    with Suc.prems(1) obtain w1 where w1: "tm_step Fire w = Some w1" "counting t w1"
      "seconds (tm w1) = Suc (seconds (tm w))"
      using countdown_step [of t w] by auto
    obtain w' where w': "tm_run (replicate k Fire) w1 = Some w'"
      "abs_tm w' = Some ((cd_tick ^^ k) (Counting (t - seconds (tm w1))))"
      using Suc.IH [OF w1(2)] w1(3) True Suc.prems(3) by auto
    have "Counting (t - seconds (tm w1)) = cd_tick (Counting (t - seconds (tm w)))"
      using w1(3) True by simp
    with w1(1) w' show ?thesis by (simp add: funpow_Suc_right del: funpow.simps)
  next
    case False
    then have eq: "Suc (seconds (tm w)) = t" "k = 0" using Suc.prems(2,3) by simp_all
    obtain w' where "tm_step Fire w = Some w'" "isFinished (tm w')" "\<not> isRunning (tm w')"
      using countdown_last [OF Suc.prems(1) eq(1)] by auto
    with eq show ?thesis by (simp add: abs_tm_finished)
  qed
qed

text \<open>Each firing of the App's rest interval is one abstract tick.\<close>

lemma app_sim_run:
  "resting d w \<Longrightarrow> int k \<le> restTimeRemaining (app w) \<Longrightarrow>
   \<exists>w'. app_run (replicate k AppFire) w = Some w' \<and> abs_app w' = (cd_tick ^^ k) (abs_app w)"
proof (induction k arbitrary: w d)
  case 0
  then show ?case by simp
next
  case (Suc k)
  have h: "restTimer (app w) \<noteq> None" "1 \<le> restTimeRemaining (app w)"
    using Suc.prems(1) by (auto simp: resting_def)
  show ?case
  proof (cases "1 < restTimeRemaining (app w)")
    case True
    obtain w1 where w1: "app_step AppFire w = Some w1" "resting (d + 1000) w1"
      "app w1 = (app w)\<lparr>restTimeRemaining := restTimeRemaining (app w) - 1\<rparr>"
      using rest_step [OF Suc.prems(1) True] by blast
    obtain w' where w': "app_run (replicate k AppFire) w1 = Some w'"
      "abs_app w' = (cd_tick ^^ k) (abs_app w1)"
      using Suc.IH [OF w1(2)] w1(3) Suc.prems(2) by auto
    have "abs_app w1 = cd_tick (abs_app w)"
      using w1(3) True h by (auto simp: abs_app_def nat_diff_distrib)
    with w1(1) w' show ?thesis by (simp add: funpow_Suc_right del: funpow.simps)
  next
    case False
    then have one: "restTimeRemaining (app w) = 1" "k = 0" using h Suc.prems(2) by simp_all
    obtain w1 where "app_step AppFire w = Some w1" "app w1 = (app w)\<lparr>restTimer := None, restTimeRemaining := 0\<rparr>"
      using rest_last [OF Suc.prems(1) one(1)] by blast
    with one h show ?thesis by (auto simp: abs_app_def)
  qed
qed

text \<open>Completing a set with rest \<open>R\<close> on an idle page starts the abstract countdown at \<open>R\<close>.\<close>

lemma app_click_starts:
  assumes "app_inv w" "s_entries (app_timers w) = []"
    "workoutContainer w = Some (PageWorkout cards)" "valid_pos cards ci ri"
    "\<not> ar_completed (row_at cards ci ri)" "ar_rest_text (row_at cards ci ri) = show_nat R @ ''s repos''"
    "0 < R"
  shows "\<exists>w1. app_step (ClickCheck ci ri) w = Some w1 \<and> resting (s_now (app_timers w) + 1000) w1 \<and>
           restTimeRemaining (app w1) = int R \<and> abs_app w1 = Counting R"
proof -
  obtain w2 where w2: "handleSetCompletion ci ri w = startRestTimer (int R) w2" "app_inv w2"
    "app_timers w2 = app_timers w"
    using handleSetCompletion_starts [OF assms(1,3-7)] by blast
  have "check_exists ci ri w" using assms(3,4) by (simp add: check_exists_def valid_pos_def)
  moreover have "resting (s_now (app_timers w) + 1000) (startRestTimer (int R) w2)"
    using start_resting(1) [OF w2(2)] w2(3) assms(2,7) by simp
  ultimately show ?thesis using w2(1) by (simp add: abs_app_def startRestTimer_fields)
qed

section \<open>Properties across the components\<close>

text \<open>
  C26. The TimerManager refines the abstract countdown: started with a target of
  \<open>t > 0\<close> seconds, after \<open>k \<le> t\<close> firings of its interval it is the abstract
  countdown from \<open>t\<close> ticked \<open>k\<close> times (counting \<open>t - k\<close>, expired at \<open>k = t\<close>).
\<close>

theorem tm_refines_countdown:
  assumes "0 < t" "k \<le> t"
  shows "\<exists>w'. tm_run (ApiStart (Some (int t)) # replicate k Fire) (tm_init (tm_new d sb pb rb p)) = Some w' \<and>
              abs_tm w' = Some ((cd_tick ^^ k) (Counting t))"
proof -
  let ?w1 = "start (Some (int t)) (tm_init (tm_new d sb pb rb p))"
  have c: "counting t ?w1" using assms(1) by (rule counting_start_fresh)
  have s0: "seconds (tm ?w1) = 0" by (simp add: start_seconds)
  from tm_sim_run [OF c] s0 assms show ?thesis by simp
qed

theorem tm_refines_countdown_witness:
  "\<exists>w'. tm_run (ApiStart (Some 3) # replicate 2 Fire) (tm_init (tm_new None (Some True) (Some False) True PermGranted)) = Some w' \<and>
     abs_tm w' = Some (Counting 1)"
  using tm_refines_countdown [of 3 2 None "Some True" "Some False" True PermGranted]
  by (simp add: numeral_eq_Suc)

text \<open>
  C27. The App's rest timer refines the same countdown: completing a set whose rest is
  \<open>R > 0\<close> seconds on an idle page, then \<open>k \<le> R\<close> firings, is the abstract countdown
  from \<open>R\<close> ticked \<open>k\<close> times.
\<close>

theorem app_refines_countdown:
  assumes "app_reach w" "s_entries (app_timers w) = []"
    "workoutContainer w = Some (PageWorkout cards)" "valid_pos cards ci ri"
    "\<not> ar_completed (row_at cards ci ri)" "ar_rest_text (row_at cards ci ri) = show_nat R @ ''s repos''"
    "0 < R" "k \<le> R"
  shows "\<exists>w'. app_run (ClickCheck ci ri # replicate k AppFire) w = Some w' \<and>
              abs_app w' = (cd_tick ^^ k) (Counting R)"
proof -
  obtain w1 where w1: "app_step (ClickCheck ci ri) w = Some w1" "resting (s_now (app_timers w) + 1000) w1"
      "restTimeRemaining (app w1) = int R" "abs_app w1 = Counting R"
    using app_click_starts [OF app_reach_inv [OF assms(1)] assms(2-7)] by blast
  from app_sim_run [OF w1(2)] w1(1,3,4) assms(8) show ?thesis by auto
qed

theorem app_refines_countdown_witness:
  "\<exists>w'. app_run (ClickCheck 0 0 # replicate 74 AppFire) demo_page = Some w' \<and> abs_app w' = Counting 1"
proof -
  have "(cd_tick ^^ 74) (Counting 75) = Counting 1" by (simp add: cd_tick_pow_lt)
  with app_refines_countdown [OF demo_page_reach demo_page_fields(3,11) demo_rows(1,3,5), of 74]
  show ?thesis by simp
qed


end
